theory Spec2Isabelle
  imports Main "HOL-Library.Word" "HOL-Library.Sublist"
begin

section \<open>The OAT writer of \<^verbatim>\<open>src/oat_writer.cc\<close>\<close>

text \<open>
  The writer lays an output file out in a first pass (the constructor of \<^verbatim>\<open>OatWriter\<close>
  and the \<^verbatim>\<open>Init...\<close> functions) and emits it in a second pass (\<^verbatim>\<open>Write\<close> and the
  \<^verbatim>\<open>Write...\<close> functions). The embedding below follows the source function by function.

  \<^item> The cursor \<^verbatim>\<open>size_t offset\<close> is a natural number. Every place where the source
    narrows it to a \<^verbatim>\<open>uint32_t\<close> (the stored offsets, the aligned offsets of the emit
    pass) is a \<open>32 word\<close> obtained with \<open>of_nat\<close>, and every comparison of a
    \<^verbatim>\<open>size_t\<close> with a stored \<^verbatim>\<open>uint32_t\<close> reads the word back with \<open>unat\<close>.
  \<^item> A \<^verbatim>\<open>std::vector\<close> handed out by the compiler is an address; its contents are read
    from the compiler's memory. The three \<^verbatim>\<open>std::map\<close>s keyed by vector addresses are
    partial maps from addresses.
  \<^item> The file is its contents, its position and the outcomes of the system calls still
    to come; a failing call is a branch of the model.
  \<^item> A member the source names with a trailing underscore (\<^verbatim>\<open>oat_header_\<close>) is written
    with a prime (\<open>oat_header'\<close>).
  \<^item> \<^verbatim>\<open>DCHECK\<close>s are debug assertions and are not part of the model. The image
    write-back at the end of \<^verbatim>\<open>InitOatCodeMethod\<close> only copies the computed values into
    runtime objects and is left out.
\<close>

subsection \<open>Bytes and words\<close>

type_synonym byte = "8 word"
type_synonym u16 = "16 word"
type_synonym u32 = "32 word"
type_synonym addr = nat

text \<open>The in-memory bytes of a 16-bit and of a 32-bit value on a little-endian host.\<close>

definition le16 :: "u16 \<Rightarrow> byte list" where
  "le16 x = [ucast x, ucast (drop_bit 8 x)]"

definition le32 :: "u32 \<Rightarrow> byte list" where
  "le32 x = [ucast x, ucast (drop_bit 8 x), ucast (drop_bit 16 x), ucast (drop_bit 24 x)]"

text \<open>
  Modelled from the spec: \<^verbatim>\<open>RoundUp\<close> (utils.h is not under src/) rounds the cursor up
  to the next multiple of the alignment.
\<close>

definition RoundUp :: "nat \<Rightarrow> nat \<Rightarrow> nat" where
  "RoundUp x n = ((x + n - 1) div n) * n"

subsection \<open>The inputs: dex files and the compiler\<close>

text \<open>
  The class data of a class definition, as \<^verbatim>\<open>ClassDataItemIterator\<close> walks it after the
  fields: the direct methods (member index, and whether \<^verbatim>\<open>kAccStatic\<close> is set), then the
  virtual methods (member index; the source passes \<^verbatim>\<open>is_static = false\<close> for them).
\<close>

record ClassData =
  direct_methods :: "(nat \<times> bool) list"
  virtual_methods :: "nat list"

text \<open>
  A dex file: its location, the checksum of its header, its class definitions
  (\<open>None\<close> where \<^verbatim>\<open>GetClassData\<close> is \<^verbatim>\<open>NULL\<close>) and the shorty of each method index.
\<close>

record DexFile =
  GetLocation :: "byte list"
  header_checksum' :: u32
  class_defs :: "ClassData option list"
  GetMethodShorty :: "nat \<Rightarrow> string"

text \<open>
  Modelled from the spec: \<^verbatim>\<open>CompiledMethod\<close> (compiled_method.h is not under src/) gives
  the code vector, the required code alignment, the code delta, the frame size, the two
  spill masks, the mapping table and the vmap table. The three vectors are addresses.
\<close>

record CompiledMethod =
  GetCode :: addr
  code_alignment :: nat
  CodeDelta :: u32
  GetFrameSizeInBytes :: u32
  GetCoreSpillMask :: u32
  GetFpSpillMask :: u32
  GetMappingTable :: addr
  GetVmapTable :: addr

definition AlignCode :: "CompiledMethod \<Rightarrow> nat \<Rightarrow> nat" where
  "AlignCode compiled_method offset = RoundUp offset (code_alignment compiled_method)"

record OatHeader =
  magic' :: "byte list"
  version' :: "byte list"
  adler32_checksum' :: u32
  executable_offset' :: u32

text \<open>
  Everything the writer takes from outside the file: the constants \<^verbatim>\<open>kPageSize\<close> and
  \<^verbatim>\<open>kStackAlignment\<close>, the step of the rolling checksum of the header on one byte, the
  header its constructor builds, the compiler's two lookups
  (\<^verbatim>\<open>FindInvokeStub\<close> gives the address of the stub's code vector), the alignment of the
  compiler's instruction set, and the contents of the vectors at each address.
\<close>

record Env =
  kPageSize :: nat
  kStackAlignment :: u32
  checksum_step :: "u32 \<Rightarrow> byte \<Rightarrow> u32"
  new_OatHeader :: "DexFile list \<Rightarrow> OatHeader"
  GetCompiledMethod :: "DexFile \<Rightarrow> nat \<Rightarrow> CompiledMethod option"
  FindInvokeStub :: "bool \<Rightarrow> string \<Rightarrow> addr option"
  arch_alignment :: nat
  bytes_at :: "addr \<Rightarrow> byte list"
  words_at :: "addr \<Rightarrow> u32 list"
  halfs_at :: "addr \<Rightarrow> u16 list"

subsection \<open>The tables of the writer\<close>

text \<open>
  Modelled from the spec: the header (oat.h is not under src/) is a fixed prelude of a
  magic tag, a version, the rolling checksum and the offset of the executable section.
\<close>

definition OatHeader_bytes :: "OatHeader \<Rightarrow> byte list" where
  "OatHeader_bytes h =
     magic' h @ version' h @ le32 (adler32_checksum' h) @ le32 (executable_offset' h)"

definition sizeof_OatHeader :: "OatHeader \<Rightarrow> nat" where
  "sizeof_OatHeader h = length (OatHeader_bytes h)"

definition UpdateChecksum :: "Env \<Rightarrow> byte list \<Rightarrow> OatHeader \<Rightarrow> OatHeader" where
  "UpdateChecksum env bs h =
     h\<lparr>adler32_checksum' := foldl (checksum_step env) (adler32_checksum' h) bs\<rparr>"

definition SetExecutableOffset :: "nat \<Rightarrow> OatHeader \<Rightarrow> OatHeader" where
  "SetExecutableOffset offset h = h\<lparr>executable_offset' := of_nat offset\<rparr>"

record OatMethodOffsets =
  code_offset' :: u32
  frame_size_in_bytes' :: u32
  core_spill_mask' :: u32
  fp_spill_mask' :: u32
  mapping_table_offset' :: u32
  vmap_table_offset' :: u32
  invoke_stub_offset' :: u32

definition OatMethodOffsets_zero :: OatMethodOffsets where
  "OatMethodOffsets_zero =
     \<lparr>code_offset' = 0, frame_size_in_bytes' = 0, core_spill_mask' = 0, fp_spill_mask' = 0,
      mapping_table_offset' = 0, vmap_table_offset' = 0, invoke_stub_offset' = 0\<rparr>"

definition OatMethodOffsets_bytes :: "OatMethodOffsets \<Rightarrow> byte list" where
  "OatMethodOffsets_bytes m =
     le32 (code_offset' m) @ le32 (frame_size_in_bytes' m) @ le32 (core_spill_mask' m) @
     le32 (fp_spill_mask' m) @ le32 (mapping_table_offset' m) @ le32 (vmap_table_offset' m) @
     le32 (invoke_stub_offset' m)"

record OatDexFile =
  dex_file_location_size' :: u32
  dex_file_location_data' :: "byte list"
  dex_file_checksum' :: u32
  classes_offset' :: u32

definition OatDexFile_new :: "DexFile \<Rightarrow> OatDexFile" where
  "OatDexFile_new dex_file =
     \<lparr>dex_file_location_size' = of_nat (length (GetLocation dex_file)),
      dex_file_location_data' = GetLocation dex_file,
      dex_file_checksum' = header_checksum' dex_file,
      classes_offset' = 0\<rparr>"

definition OatDexFile_SizeOf :: "OatDexFile \<Rightarrow> nat" where
  "OatDexFile_SizeOf d = 4 + unat (dex_file_location_size' d) + 4 + 4"

definition OatDexFile_location :: "OatDexFile \<Rightarrow> byte list" where
  "OatDexFile_location d = take (unat (dex_file_location_size' d)) (dex_file_location_data' d)"

definition OatDexFile_UpdateChecksum :: "Env \<Rightarrow> OatDexFile \<Rightarrow> OatHeader \<Rightarrow> OatHeader" where
  "OatDexFile_UpdateChecksum env d h =
     UpdateChecksum env (le32 (classes_offset' d))
       (UpdateChecksum env (le32 (dex_file_checksum' d))
         (UpdateChecksum env (OatDexFile_location d)
           (UpdateChecksum env (le32 (dex_file_location_size' d)) h)))"

text \<open>An \<^verbatim>\<open>OatClasses\<close> is its vector \<^verbatim>\<open>methods_offsets_\<close>.\<close>

definition OatClasses_new :: "DexFile \<Rightarrow> u32 list" where
  "OatClasses_new dex_file = replicate (length (class_defs dex_file)) 0"

definition OatClasses_SizeOf :: "u32 list \<Rightarrow> nat" where
  "OatClasses_SizeOf methods_offsets = 4 * length methods_offsets"

definition OatClasses_bytes :: "u32 list \<Rightarrow> byte list" where
  "OatClasses_bytes methods_offsets = concat (map le32 methods_offsets)"

text \<open>An \<^verbatim>\<open>OatMethods\<close> is its vector \<^verbatim>\<open>method_offsets_\<close>; a record takes 7 words.\<close>

definition OatMethods_new :: "nat \<Rightarrow> OatMethodOffsets list" where
  "OatMethods_new methods_count = replicate methods_count OatMethodOffsets_zero"

definition OatMethods_SizeOf :: "OatMethodOffsets list \<Rightarrow> nat" where
  "OatMethods_SizeOf method_offsets = 28 * length method_offsets"

definition OatMethods_bytes :: "OatMethodOffsets list \<Rightarrow> byte list" where
  "OatMethods_bytes method_offsets = concat (map OatMethodOffsets_bytes method_offsets)"

record OatWriter =
  oat_header' :: OatHeader
  oat_dex_files' :: "OatDexFile list"
  oat_classes' :: "u32 list list"
  oat_methods' :: "OatMethodOffsets list list"
  executable_offset_padding_length' :: nat
  code_offsets' :: "addr \<rightharpoonup> u32"
  mapping_table_offsets' :: "addr \<rightharpoonup> u32"
  vmap_table_offsets' :: "addr \<rightharpoonup> u32"

subsection \<open>The layout pass\<close>

definition InitOatHeader :: "Env \<Rightarrow> DexFile list \<Rightarrow> nat \<times> OatWriter" where
  "InitOatHeader env dex_files =
     (let h = new_OatHeader env dex_files
      in (sizeof_OatHeader h,
          \<lparr>oat_header' = h, oat_dex_files' = [], oat_classes' = [], oat_methods' = [],
           executable_offset_padding_length' = 0, code_offsets' = Map.empty,
           mapping_table_offsets' = Map.empty, vmap_table_offsets' = Map.empty\<rparr>))"

fun InitOatDexFiles :: "DexFile list \<Rightarrow> nat \<Rightarrow> OatWriter \<Rightarrow> nat \<times> OatWriter" where
  "InitOatDexFiles [] offset w = (offset, w)"
| "InitOatDexFiles (dex_file # rest) offset w =
     (let oat_dex_file = OatDexFile_new dex_file
      in InitOatDexFiles rest (offset + OatDexFile_SizeOf oat_dex_file)
           (w\<lparr>oat_dex_files' := oat_dex_files' w @ [oat_dex_file]\<rparr>))"

text \<open>The loop of \<^verbatim>\<open>InitOatClasses\<close> from index \<open>i\<close> on, over the dex files left.\<close>

fun InitOatClasses :: "Env \<Rightarrow> DexFile list \<Rightarrow> nat \<Rightarrow> nat \<Rightarrow> OatWriter \<Rightarrow> nat \<times> OatWriter" where
  "InitOatClasses env [] i offset w = (offset, w)"
| "InitOatClasses env (dex_file # rest) i offset w =
     (let d = (oat_dex_files' w ! i)\<lparr>classes_offset' := of_nat offset\<rparr>;
          oat_classes = OatClasses_new dex_file
      in InitOatClasses env rest (i + 1) (offset + OatClasses_SizeOf oat_classes)
           (w\<lparr>oat_dex_files' := (oat_dex_files' w)[i := d],
              oat_header' := OatDexFile_UpdateChecksum env d (oat_header' w),
              oat_classes' := oat_classes' w @ [oat_classes]\<rparr>))"

definition num_methods :: "ClassData option \<Rightarrow> nat" where
  "num_methods class_data =
     (case class_data of None \<Rightarrow> 0
      | Some cd \<Rightarrow> length (direct_methods cd) + length (virtual_methods cd))"

text \<open>The inner loop of \<^verbatim>\<open>InitOatMethods\<close>, over the class definitions left of dex file \<open>i\<close>.\<close>

fun InitOatMethods_classes ::
  "ClassData option list \<Rightarrow> nat \<Rightarrow> nat \<Rightarrow> nat \<Rightarrow> OatWriter \<Rightarrow> nat \<times> OatWriter" where
  "InitOatMethods_classes [] i class_def_index offset w = (offset, w)"
| "InitOatMethods_classes (class_data # rest) i class_def_index offset w =
     (let oat_methods = OatMethods_new (num_methods class_data)
      in InitOatMethods_classes rest i (class_def_index + 1)
           (offset + OatMethods_SizeOf oat_methods)
           (w\<lparr>oat_classes' :=
                 (oat_classes' w)[i := (oat_classes' w ! i)[class_def_index := of_nat offset]],
              oat_methods' := oat_methods' w @ [oat_methods]\<rparr>))"

fun InitOatMethods :: "Env \<Rightarrow> DexFile list \<Rightarrow> nat \<Rightarrow> nat \<Rightarrow> OatWriter \<Rightarrow> nat \<times> OatWriter" where
  "InitOatMethods env [] i offset w = (offset, w)"
| "InitOatMethods env (dex_file # rest) i offset w =
     (case InitOatMethods_classes (class_defs dex_file) i 0 offset w of
        (offset', w') \<Rightarrow>
          InitOatMethods env rest (i + 1) offset'
            (w'\<lparr>oat_header' :=
                  UpdateChecksum env (OatClasses_bytes (oat_classes' w' ! i)) (oat_header' w')\<rparr>))"

definition InitOatCode :: "Env \<Rightarrow> nat \<Rightarrow> OatWriter \<Rightarrow> nat \<times> OatWriter" where
  "InitOatCode env old_offset w =
     (let offset = RoundUp old_offset (kPageSize env)
      in (offset,
          w\<lparr>oat_header' := SetExecutableOffset offset (oat_header' w),
            executable_offset_padding_length' := offset - old_offset\<rparr>))"

text \<open>
  \<^verbatim>\<open>InitOatCodeMethod\<close>, block by block. Each block gives the offset it stores, the new
  cursor and the writer. Lines 200 to 215: the code of a compiled method.
\<close>

definition InitOatCodeMethod_code ::
  "Env \<Rightarrow> CompiledMethod \<Rightarrow> nat \<Rightarrow> OatWriter \<Rightarrow> u32 \<times> nat \<times> OatWriter" where
  "InitOatCodeMethod_code env compiled_method offset0 w =
     (let offset = AlignCode compiled_method offset0;
          code = bytes_at env (GetCode compiled_method);
          code_size = length code;
          thumb_offset = CodeDelta compiled_method;
          code_offset = (if code_size = 0 then 0 else of_nat (offset + unat thumb_offset))
      in case code_offsets' w (GetCode compiled_method) of
           Some found \<Rightarrow> (found, offset, w)
         | None \<Rightarrow>
             (code_offset, offset + code_size,
              w\<lparr>code_offsets' := (code_offsets' w)(GetCode compiled_method \<mapsto> code_offset),
                oat_header' := UpdateChecksum env code (oat_header' w)\<rparr>))"

text \<open>Lines 222 to 229: the three frame words.\<close>

definition InitOatCodeMethod_frame ::
  "Env \<Rightarrow> u32 \<Rightarrow> u32 \<Rightarrow> u32 \<Rightarrow> nat \<Rightarrow> OatWriter \<Rightarrow> nat \<times> OatWriter" where
  "InitOatCodeMethod_frame env frame_size_in_bytes core_spill_mask fp_spill_mask offset w =
     (offset + 4 + 4 + 4,
      w\<lparr>oat_header' :=
          UpdateChecksum env (le32 fp_spill_mask)
            (UpdateChecksum env (le32 core_spill_mask)
              (UpdateChecksum env (le32 frame_size_in_bytes) (oat_header' w)))\<rparr>)"

text \<open>Lines 232 to 244: the mapping table.\<close>

definition mapping_table_bytes :: "Env \<Rightarrow> CompiledMethod \<Rightarrow> byte list" where
  "mapping_table_bytes env compiled_method =
     concat (map le32 (words_at env (GetMappingTable compiled_method)))"

definition InitOatCodeMethod_mapping_table ::
  "Env \<Rightarrow> CompiledMethod \<Rightarrow> nat \<Rightarrow> OatWriter \<Rightarrow> u32 \<times> nat \<times> OatWriter" where
  "InitOatCodeMethod_mapping_table env compiled_method offset w =
     (let mapping_table = words_at env (GetMappingTable compiled_method);
          mapping_table_size = length mapping_table * 4;
          mapping_table_offset = (if mapping_table_size = 0 then 0 else of_nat offset)
      in case mapping_table_offsets' w (GetMappingTable compiled_method) of
           Some found \<Rightarrow> (found, offset, w)
         | None \<Rightarrow>
             (mapping_table_offset, offset + mapping_table_size,
              w\<lparr>mapping_table_offsets' :=
                   (mapping_table_offsets' w)(GetMappingTable compiled_method \<mapsto> mapping_table_offset),
                oat_header' :=
                   UpdateChecksum env (mapping_table_bytes env compiled_method) (oat_header' w)\<rparr>))"

text \<open>Lines 246 to 258: the vmap table.\<close>

definition vmap_table_bytes :: "Env \<Rightarrow> CompiledMethod \<Rightarrow> byte list" where
  "vmap_table_bytes env compiled_method =
     concat (map le16 (halfs_at env (GetVmapTable compiled_method)))"

definition InitOatCodeMethod_vmap_table ::
  "Env \<Rightarrow> CompiledMethod \<Rightarrow> nat \<Rightarrow> OatWriter \<Rightarrow> u32 \<times> nat \<times> OatWriter" where
  "InitOatCodeMethod_vmap_table env compiled_method offset w =
     (let vmap_table = halfs_at env (GetVmapTable compiled_method);
          vmap_table_size = length vmap_table * 2;
          vmap_table_offset = (if vmap_table_size = 0 then 0 else of_nat offset)
      in case vmap_table_offsets' w (GetVmapTable compiled_method) of
           Some found \<Rightarrow> (found, offset, w)
         | None \<Rightarrow>
             (vmap_table_offset, offset + vmap_table_size,
              w\<lparr>vmap_table_offsets' :=
                   (vmap_table_offsets' w)(GetVmapTable compiled_method \<mapsto> vmap_table_offset),
                oat_header' :=
                   UpdateChecksum env (vmap_table_bytes env compiled_method) (oat_header' w)\<rparr>))"

text \<open>Lines 264 to 278: the invoke stub, deduplicated in the map of the code.\<close>

definition InitOatCodeMethod_invoke_stub ::
  "Env \<Rightarrow> addr \<Rightarrow> nat \<Rightarrow> OatWriter \<Rightarrow> u32 \<times> nat \<times> OatWriter" where
  "InitOatCodeMethod_invoke_stub env compiled_invoke_stub offset0 w =
     (let offset = RoundUp offset0 (arch_alignment env);
          invoke_stub = bytes_at env compiled_invoke_stub;
          invoke_stub_size = length invoke_stub;
          invoke_stub_offset = (if invoke_stub_size = 0 then 0 else of_nat offset)
      in case code_offsets' w compiled_invoke_stub of
           Some found \<Rightarrow> (found, offset, w)
         | None \<Rightarrow>
             (invoke_stub_offset, offset + invoke_stub_size,
              w\<lparr>code_offsets' := (code_offsets' w)(compiled_invoke_stub \<mapsto> invoke_stub_offset),
                oat_header' := UpdateChecksum env invoke_stub (oat_header' w)\<rparr>))"

text \<open>Lines 261 to 279: the stub the compiler has for the method's shorty, if any.\<close>

definition InitOatCodeMethod_stub ::
  "Env \<Rightarrow> bool \<Rightarrow> nat \<Rightarrow> DexFile \<Rightarrow> nat \<Rightarrow> OatWriter \<Rightarrow> u32 \<times> nat \<times> OatWriter" where
  "InitOatCodeMethod_stub env is_static method_idx dex_file offset w =
     (case FindInvokeStub env is_static (GetMethodShorty dex_file method_idx) of
        None \<Rightarrow> (0, offset, w)
      | Some compiled_invoke_stub \<Rightarrow>
          InitOatCodeMethod_invoke_stub env compiled_invoke_stub offset w)"

text \<open>
  Lines 188 to 279: the seven values the method stores, the cursor after them and the
  writer (its maps and its checksum).
\<close>

definition InitOatCodeMethod_offsets ::
  "Env \<Rightarrow> nat \<Rightarrow> OatWriter \<Rightarrow> bool \<Rightarrow> nat \<Rightarrow> DexFile \<Rightarrow> OatMethodOffsets \<times> nat \<times> OatWriter" where
  "InitOatCodeMethod_offsets env offset w is_static method_idx dex_file =
     (let compiled_method = GetCompiledMethod env dex_file method_idx
      in case (case compiled_method of
                 None \<Rightarrow> (0, offset, w)
               | Some cm \<Rightarrow> InitOatCodeMethod_code env cm offset w) of
        (code_offset, offset1, w1) \<Rightarrow>
      let frame_size_in_bytes =
            (case compiled_method of None \<Rightarrow> kStackAlignment env
             | Some cm \<Rightarrow> GetFrameSizeInBytes cm);
          core_spill_mask =
            (case compiled_method of None \<Rightarrow> 0 | Some cm \<Rightarrow> GetCoreSpillMask cm);
          fp_spill_mask =
            (case compiled_method of None \<Rightarrow> 0 | Some cm \<Rightarrow> GetFpSpillMask cm)
      in case InitOatCodeMethod_frame env frame_size_in_bytes core_spill_mask fp_spill_mask
                offset1 w1 of
        (offset2, w2) \<Rightarrow>
      case (case compiled_method of
              None \<Rightarrow> (0, offset2, w2)
            | Some cm \<Rightarrow> InitOatCodeMethod_mapping_table env cm offset2 w2) of
        (mapping_table_offset, offset3, w3) \<Rightarrow>
      case (case compiled_method of
              None \<Rightarrow> (0, offset3, w3)
            | Some cm \<Rightarrow> InitOatCodeMethod_vmap_table env cm offset3 w3) of
        (vmap_table_offset, offset4, w4) \<Rightarrow>
      case InitOatCodeMethod_stub env is_static method_idx dex_file offset4 w4 of
        (invoke_stub_offset, offset5, w5) \<Rightarrow>
      (\<lparr>code_offset' = code_offset, frame_size_in_bytes' = frame_size_in_bytes,
        core_spill_mask' = core_spill_mask, fp_spill_mask' = fp_spill_mask,
        mapping_table_offset' = mapping_table_offset, vmap_table_offset' = vmap_table_offset,
        invoke_stub_offset' = invoke_stub_offset\<rparr>, offset5, w5))"

text \<open>Lines 281 to 288 store them in the methods table of the class.\<close>

definition InitOatCodeMethod ::
  "Env \<Rightarrow> nat \<Rightarrow> OatWriter \<Rightarrow> nat \<Rightarrow> nat \<Rightarrow> bool \<Rightarrow> bool \<Rightarrow> nat \<Rightarrow> DexFile \<Rightarrow> nat \<times> OatWriter" where
  "InitOatCodeMethod env offset w oat_class_index class_def_method_index is_static is_direct
       method_idx dex_file =
     (case InitOatCodeMethod_offsets env offset w is_static method_idx dex_file of
        (method_offsets, offset', w') \<Rightarrow>
          (offset',
           w'\<lparr>oat_methods' :=
                (oat_methods' w')[oat_class_index :=
                   (oat_methods' w' ! oat_class_index)[class_def_method_index := method_offsets]]\<rparr>))"

text \<open>
  The two method loops of \<^verbatim>\<open>InitOatCodeClassDef\<close> are one loop over
  (\<^verbatim>\<open>is_static\<close>, \<^verbatim>\<open>is_direct\<close>, member index), run on the direct methods and then, with the
  index it has reached, on the virtual methods.
\<close>

definition direct_entries :: "ClassData \<Rightarrow> (bool \<times> bool \<times> nat) list" where
  "direct_entries cd = map (\<lambda>(idx, is_static). (is_static, True, idx)) (direct_methods cd)"

definition virtual_entries :: "ClassData \<Rightarrow> (bool \<times> bool \<times> nat) list" where
  "virtual_entries cd = map (\<lambda>idx. (False, False, idx)) (virtual_methods cd)"

fun InitOatCodeClassDef_methods ::
  "Env \<Rightarrow> DexFile \<Rightarrow> nat \<Rightarrow> (bool \<times> bool \<times> nat) list \<Rightarrow> nat \<Rightarrow> nat \<Rightarrow> OatWriter \<Rightarrow> nat \<times> OatWriter" where
  "InitOatCodeClassDef_methods env dex_file oat_class_index [] class_def_method_index offset w =
     (offset, w)"
| "InitOatCodeClassDef_methods env dex_file oat_class_index ((is_static, is_direct, idx) # rest)
       class_def_method_index offset w =
     (case InitOatCodeMethod env offset w oat_class_index class_def_method_index is_static
             is_direct idx dex_file of
        (offset', w') \<Rightarrow>
          InitOatCodeClassDef_methods env dex_file oat_class_index rest
            (class_def_method_index + 1) offset' w')"

definition InitOatCodeClassDef ::
  "Env \<Rightarrow> nat \<Rightarrow> OatWriter \<Rightarrow> nat \<Rightarrow> DexFile \<Rightarrow> ClassData option \<Rightarrow> nat \<times> OatWriter" where
  "InitOatCodeClassDef env offset w oat_class_index dex_file class_data =
     (case class_data of
        None \<Rightarrow> (offset, w)
      | Some cd \<Rightarrow>
          (case InitOatCodeClassDef_methods env dex_file oat_class_index (direct_entries cd) 0
                  offset w of
             (offset', w') \<Rightarrow>
               InitOatCodeClassDef_methods env dex_file oat_class_index (virtual_entries cd)
                 (length (direct_methods cd)) offset' w'))"

text \<open>
  \<^verbatim>\<open>InitOatCodeDexFile\<close> over the class definitions left; \<^verbatim>\<open>oat_class_index\<close> is passed by
  reference in the source and is returned here.
\<close>

fun InitOatCodeDexFile ::
  "Env \<Rightarrow> DexFile \<Rightarrow> ClassData option list \<Rightarrow> nat \<Rightarrow> nat \<Rightarrow> OatWriter \<Rightarrow> nat \<times> nat \<times> OatWriter" where
  "InitOatCodeDexFile env dex_file [] oat_class_index offset w = (oat_class_index, offset, w)"
| "InitOatCodeDexFile env dex_file (class_data # rest) oat_class_index offset w =
     (case InitOatCodeClassDef env offset w oat_class_index dex_file class_data of
        (offset', w') \<Rightarrow>
          InitOatCodeDexFile env dex_file rest (oat_class_index + 1) offset'
            (w'\<lparr>oat_header' :=
                  UpdateChecksum env (OatMethods_bytes (oat_methods' w' ! oat_class_index))
                    (oat_header' w')\<rparr>))"

fun InitOatCodeDexFiles ::
  "Env \<Rightarrow> DexFile list \<Rightarrow> nat \<Rightarrow> nat \<Rightarrow> OatWriter \<Rightarrow> nat \<times> OatWriter" where
  "InitOatCodeDexFiles env [] oat_class_index offset w = (offset, w)"
| "InitOatCodeDexFiles env (dex_file # rest) oat_class_index offset w =
     (case InitOatCodeDexFile env dex_file (class_defs dex_file) oat_class_index offset w of
        (oat_class_index', offset', w') \<Rightarrow>
          InitOatCodeDexFiles env rest oat_class_index' offset' w')"

text \<open>The constructor: the layout pass. It gives the last cursor and the writer.\<close>

definition OatWriter_new :: "Env \<Rightarrow> DexFile list \<Rightarrow> nat \<times> OatWriter" where
  "OatWriter_new env dex_files =
     (case InitOatHeader env dex_files of (offset0, w0) \<Rightarrow>
      case InitOatDexFiles dex_files offset0 w0 of (offset1, w1) \<Rightarrow>
      case InitOatClasses env dex_files 0 offset1 w1 of (offset2, w2) \<Rightarrow>
      case InitOatMethods env dex_files 0 offset2 w2 of (offset3, w3) \<Rightarrow>
      case InitOatCode env offset3 w3 of (offset4, w4) \<Rightarrow>
      InitOatCodeDexFiles env dex_files 0 offset4 w4)"

subsection \<open>The file\<close>

text \<open>
  Modelled from the spec: \<^verbatim>\<open>File\<close> and \<^verbatim>\<open>lseek\<close> (file.h is not under src/). A write or a
  seek fails when the system call fails; \<open>io_results\<close> lists the outcomes of the system
  calls to come (\<open>True\<close> is success, and so is every call after the list is used up).
  A write of no bytes makes no system call. A write beyond the end of the file fills the
  gap with zeros. A failed call leaves the contents and the position as they were (what a
  partial write leaves behind is not modelled). The error log is kept with the file.
\<close>

datatype diag = Error string | WriteFailure string nat

record File =
  contents :: "byte list"
  pos :: nat
  io_results :: "bool list"
  log :: "diag list"

definition PLOG :: "diag \<Rightarrow> File \<Rightarrow> File" where
  "PLOG d f = f\<lparr>log := log f @ [d]\<rparr>"

definition next_call_fails :: "File \<Rightarrow> bool" where
  "next_call_fails f = (case io_results f of [] \<Rightarrow> False | ok # rest \<Rightarrow> \<not> ok)"

definition WriteFully :: "byte list \<Rightarrow> File \<Rightarrow> bool \<times> File" where
  "WriteFully bs f =
     (if bs = [] then (True, f)
      else if next_call_fails f then (False, f\<lparr>io_results := tl (io_results f)\<rparr>)
      else (True,
            f\<lparr>contents :=
                 take (pos f) (contents f) @ replicate (pos f - length (contents f)) 0 @ bs @
                 drop (pos f + length bs) (contents f),
              pos := pos f + length bs,
              io_results := tl (io_results f)\<rparr>))"

text \<open>\<^verbatim>\<open>lseek(fd, delta, SEEK_CUR)\<close>: the new position, or \<open>-1\<close>.\<close>

definition lseek_cur :: "nat \<Rightarrow> File \<Rightarrow> int \<times> File" where
  "lseek_cur delta f =
     (if next_call_fails f then (- 1, f\<lparr>io_results := tl (io_results f)\<rparr>)
      else (int (pos f + delta), f\<lparr>pos := pos f + delta, io_results := tl (io_results f)\<rparr>))"

subsection \<open>The emit pass\<close>

text \<open>A \<^verbatim>\<open>WriteFully\<close> whose failure is logged with the given message.\<close>

definition WriteFully_or :: "diag \<Rightarrow> byte list \<Rightarrow> File \<Rightarrow> bool \<times> File" where
  "WriteFully_or d bs f =
     (case WriteFully bs f of (ok, f') \<Rightarrow> if ok then (True, f') else (False, PLOG d f'))"

definition OatDexFile_Write :: "OatDexFile \<Rightarrow> File \<Rightarrow> bool \<times> File" where
  "OatDexFile_Write d f =
     (case WriteFully_or (Error ''Failed to write dex file location length'')
             (le32 (dex_file_location_size' d)) f of (ok1, f1) \<Rightarrow>
      if \<not> ok1 then (False, f1) else
      case WriteFully_or (Error ''Failed to write dex file location data'')
             (OatDexFile_location d) f1 of (ok2, f2) \<Rightarrow>
      if \<not> ok2 then (False, f2) else
      case WriteFully_or (Error ''Failed to write dex file checksum'')
             (le32 (dex_file_checksum' d)) f2 of (ok3, f3) \<Rightarrow>
      if \<not> ok3 then (False, f3) else
      WriteFully_or (Error ''Failed to write classes offset'') (le32 (classes_offset' d)) f3)"

definition OatClasses_Write :: "u32 list \<Rightarrow> File \<Rightarrow> bool \<times> File" where
  "OatClasses_Write methods_offsets f =
     WriteFully_or (Error ''Failed to write methods offsets'') (OatClasses_bytes methods_offsets) f"

definition OatMethods_Write :: "OatMethodOffsets list \<Rightarrow> File \<Rightarrow> bool \<times> File" where
  "OatMethods_Write method_offsets f =
     WriteFully_or (Error ''Failed to write method offsets'') (OatMethods_bytes method_offsets) f"

text \<open>The three loops of \<^verbatim>\<open>WriteTables\<close> are one loop over a table and its writer.\<close>

fun WriteTables_loop ::
  "('a \<Rightarrow> File \<Rightarrow> bool \<times> File) \<Rightarrow> diag \<Rightarrow> 'a list \<Rightarrow> File \<Rightarrow> bool \<times> File" where
  "WriteTables_loop wr d [] f = (True, f)"
| "WriteTables_loop wr d (x # xs) f =
     (case wr x f of (ok, f') \<Rightarrow>
        if \<not> ok then (False, PLOG d f') else WriteTables_loop wr d xs f')"

definition WriteTables :: "OatWriter \<Rightarrow> File \<Rightarrow> bool \<times> File" where
  "WriteTables w f =
     (case WriteTables_loop OatDexFile_Write (Error ''Failed to write oat dex information'')
             (oat_dex_files' w) f of (ok1, f1) \<Rightarrow>
      if \<not> ok1 then (False, f1) else
      case WriteTables_loop OatClasses_Write (Error ''Failed to write oat classes information'')
             (oat_classes' w) f1 of (ok2, f2) \<Rightarrow>
      if \<not> ok2 then (False, f2) else
      WriteTables_loop OatMethods_Write (Error ''Failed to write oat methods information'')
        (oat_methods' w) f2)"

definition WriteCode :: "OatWriter \<Rightarrow> File \<Rightarrow> nat \<times> File" where
  "WriteCode w f =
     (let code_offset = executable_offset' (oat_header' w)
      in case lseek_cur (executable_offset_padding_length' w) f of (new_offset, f') \<Rightarrow>
           if (word_of_int new_offset :: u32) \<noteq> code_offset
           then (0, PLOG (Error ''Failed to seek to oat code section'') f')
           else (unat code_offset, f'))"

text \<open>
  \<^verbatim>\<open>WriteCodeMethod\<close>, block by block. A block gives the new \<^verbatim>\<open>code_offset\<close>, or
  \<open>None\<close> where the source leaves the function with \<^verbatim>\<open>return false\<close>, which skips
  the blocks after it.
\<close>

definition and_then ::
  "nat option \<times> File \<Rightarrow> (nat \<Rightarrow> File \<Rightarrow> nat option \<times> File) \<Rightarrow> nat option \<times> File" where
  "and_then r k = (case r of (None, f) \<Rightarrow> (None, f) | (Some code_offset, f) \<Rightarrow> k code_offset f)"

text \<open>Lines 458 to 469 and 563 to 575: the seek over the alignment gap.\<close>

definition WriteCodeMethod_align :: "nat \<Rightarrow> diag \<Rightarrow> nat \<Rightarrow> File \<Rightarrow> nat option \<times> File" where
  "WriteCodeMethod_align alignment d code_offset f =
     (let aligned_code_offset = (of_nat (RoundUp code_offset alignment) :: u32);
          aligned_code_delta = aligned_code_offset - of_nat code_offset
      in if aligned_code_delta \<noteq> 0
         then (case lseek_cur (unat aligned_code_delta) f of (new_offset, f') \<Rightarrow>
                 if (word_of_int new_offset :: u32) \<noteq> aligned_code_offset
                 then (None, PLOG d f')
                 else (Some (code_offset + unat aligned_code_delta), f'))
         else (Some code_offset, f))"

text \<open>
  Lines 476 to 490, 518 to 534, 541 to 557 and 581 to 597: the bytes are skipped when the
  map has the vector and the position (with the code delta, for the code) differs from the
  stored offset, and written otherwise.
\<close>

definition WriteCodeMethod_dedup ::
  "u32 option \<Rightarrow> nat \<Rightarrow> u32 \<Rightarrow> byte list \<Rightarrow> diag \<Rightarrow> nat \<Rightarrow> File \<Rightarrow> nat option \<times> File" where
  "WriteCodeMethod_dedup iter offset stored bs d code_offset f =
     (if iter \<noteq> None \<and> offset \<noteq> unat stored then (Some code_offset, f)
      else case WriteFully bs f of (ok, f') \<Rightarrow>
             if \<not> ok then (None, PLOG d f') else (Some (code_offset + length bs), f'))"

definition WriteCodeMethod_code ::
  "Env \<Rightarrow> OatWriter \<Rightarrow> CompiledMethod \<Rightarrow> OatMethodOffsets \<Rightarrow> nat \<Rightarrow> nat \<Rightarrow> File \<Rightarrow> nat option \<times> File" where
  "WriteCodeMethod_code env w compiled_method method_offsets method_idx code_offset0 f =
     and_then
       (WriteCodeMethod_align (code_alignment compiled_method)
          (Error ''Failed to seek to align oat code'') code_offset0 f)
       (\<lambda>code_offset f1.
          WriteCodeMethod_dedup (code_offsets' w (GetCode compiled_method))
            (code_offset + unat (CodeDelta compiled_method)) (code_offset' method_offsets)
            (bytes_at env (GetCode compiled_method)) (WriteFailure ''method code'' method_idx)
            code_offset f1)"

text \<open>Lines 497 to 511: the three frame words.\<close>

definition WriteCodeMethod_frame ::
  "u32 \<Rightarrow> u32 \<Rightarrow> u32 \<Rightarrow> nat \<Rightarrow> nat \<Rightarrow> File \<Rightarrow> nat option \<times> File" where
  "WriteCodeMethod_frame frame_size_in_bytes core_spill_mask fp_spill_mask method_idx
       code_offset f =
     (case WriteFully_or (WriteFailure ''method frame size'' method_idx)
             (le32 frame_size_in_bytes) f of (ok1, f1) \<Rightarrow>
      if \<not> ok1 then (None, f1) else
      case WriteFully_or (WriteFailure ''method core spill mask'' method_idx)
             (le32 core_spill_mask) f1 of (ok2, f2) \<Rightarrow>
      if \<not> ok2 then (None, f2) else
      case WriteFully_or (WriteFailure ''method fp spill mask'' method_idx)
             (le32 fp_spill_mask) f2 of (ok3, f3) \<Rightarrow>
      if \<not> ok3 then (None, f3) else (Some (code_offset + 4 + 4 + 4), f3))"

definition WriteCodeMethod_mapping_table ::
  "Env \<Rightarrow> OatWriter \<Rightarrow> CompiledMethod \<Rightarrow> OatMethodOffsets \<Rightarrow> nat \<Rightarrow> nat \<Rightarrow> File \<Rightarrow> nat option \<times> File" where
  "WriteCodeMethod_mapping_table env w compiled_method method_offsets method_idx code_offset f =
     WriteCodeMethod_dedup (mapping_table_offsets' w (GetMappingTable compiled_method))
       code_offset (mapping_table_offset' method_offsets)
       (mapping_table_bytes env compiled_method) (WriteFailure ''mapping table'' method_idx)
       code_offset f"

definition WriteCodeMethod_vmap_table ::
  "Env \<Rightarrow> OatWriter \<Rightarrow> CompiledMethod \<Rightarrow> OatMethodOffsets \<Rightarrow> nat \<Rightarrow> nat \<Rightarrow> File \<Rightarrow> nat option \<times> File" where
  "WriteCodeMethod_vmap_table env w compiled_method method_offsets method_idx code_offset f =
     WriteCodeMethod_dedup (vmap_table_offsets' w (GetVmapTable compiled_method))
       code_offset (vmap_table_offset' method_offsets)
       (vmap_table_bytes env compiled_method) (WriteFailure ''vmap table'' method_idx)
       code_offset f"

definition WriteCodeMethod_invoke_stub ::
  "Env \<Rightarrow> OatWriter \<Rightarrow> addr \<Rightarrow> OatMethodOffsets \<Rightarrow> nat \<Rightarrow> nat \<Rightarrow> File \<Rightarrow> nat option \<times> File" where
  "WriteCodeMethod_invoke_stub env w compiled_invoke_stub method_offsets method_idx code_offset0 f =
     and_then
       (WriteCodeMethod_align (arch_alignment env)
          (Error ''Failed to seek to align invoke stub code'') code_offset0 f)
       (\<lambda>code_offset f1.
          WriteCodeMethod_dedup (code_offsets' w compiled_invoke_stub)
            code_offset (invoke_stub_offset' method_offsets)
            (bytes_at env compiled_invoke_stub) (WriteFailure ''invoke stub code'' method_idx)
            code_offset f1)"

definition WriteCodeMethod_stub ::
  "Env \<Rightarrow> OatWriter \<Rightarrow> bool \<Rightarrow> nat \<Rightarrow> DexFile \<Rightarrow> OatMethodOffsets \<Rightarrow> nat \<Rightarrow> File \<Rightarrow> nat option \<times> File" where
  "WriteCodeMethod_stub env w is_static method_idx dex_file method_offsets code_offset f =
     (case FindInvokeStub env is_static (GetMethodShorty dex_file method_idx) of
        None \<Rightarrow> (Some code_offset, f)
      | Some compiled_invoke_stub \<Rightarrow>
          WriteCodeMethod_invoke_stub env w compiled_invoke_stub method_offsets method_idx
            code_offset f)"

definition WriteCodeMethod_blocks ::
  "Env \<Rightarrow> OatWriter \<Rightarrow> nat \<Rightarrow> nat \<Rightarrow> nat \<Rightarrow> bool \<Rightarrow> nat \<Rightarrow> DexFile \<Rightarrow> File \<Rightarrow> nat option \<times> File" where
  "WriteCodeMethod_blocks env w code_offset oat_class_index class_def_method_index is_static
       method_idx dex_file f =
     (let compiled_method = GetCompiledMethod env dex_file method_idx;
          method_offsets = oat_methods' w ! oat_class_index ! class_def_method_index;
          frame_size_in_bytes =
            (case compiled_method of None \<Rightarrow> 0 | Some cm \<Rightarrow> GetFrameSizeInBytes cm);
          core_spill_mask =
            (case compiled_method of None \<Rightarrow> 0 | Some cm \<Rightarrow> GetCoreSpillMask cm);
          fp_spill_mask =
            (case compiled_method of None \<Rightarrow> 0 | Some cm \<Rightarrow> GetFpSpillMask cm)
      in and_then
           (case compiled_method of
              None \<Rightarrow> (Some code_offset, f)
            | Some cm \<Rightarrow> WriteCodeMethod_code env w cm method_offsets method_idx code_offset f)
        (\<lambda>code_offset1 f1. and_then
           (WriteCodeMethod_frame frame_size_in_bytes core_spill_mask fp_spill_mask method_idx
              code_offset1 f1)
        (\<lambda>code_offset2 f2. and_then
           (case compiled_method of
              None \<Rightarrow> (Some code_offset2, f2)
            | Some cm \<Rightarrow>
                WriteCodeMethod_mapping_table env w cm method_offsets method_idx code_offset2 f2)
        (\<lambda>code_offset3 f3. and_then
           (case compiled_method of
              None \<Rightarrow> (Some code_offset3, f3)
            | Some cm \<Rightarrow>
                WriteCodeMethod_vmap_table env w cm method_offsets method_idx code_offset3 f3)
        (\<lambda>code_offset4 f4.
           WriteCodeMethod_stub env w is_static method_idx dex_file method_offsets
             code_offset4 f4)))))"

text \<open>The function gives the new \<^verbatim>\<open>code_offset\<close>, and 0 (\<^verbatim>\<open>false\<close>) for a failure.\<close>

definition WriteCodeMethod ::
  "Env \<Rightarrow> OatWriter \<Rightarrow> nat \<Rightarrow> nat \<Rightarrow> nat \<Rightarrow> bool \<Rightarrow> nat \<Rightarrow> DexFile \<Rightarrow> File \<Rightarrow> nat \<times> File" where
  "WriteCodeMethod env w code_offset oat_class_index class_def_method_index is_static method_idx
       dex_file f =
     (case WriteCodeMethod_blocks env w code_offset oat_class_index class_def_method_index
             is_static method_idx dex_file f of
        (None, f1) \<Rightarrow> (0, f1)
      | (Some code_offset5, f1) \<Rightarrow> (code_offset5, f1))"

fun WriteCodeClassDef_methods ::
  "Env \<Rightarrow> OatWriter \<Rightarrow> DexFile \<Rightarrow> nat \<Rightarrow> (bool \<times> bool \<times> nat) list \<Rightarrow> nat \<Rightarrow> nat \<Rightarrow> File \<Rightarrow> nat \<times> File" where
  "WriteCodeClassDef_methods env w dex_file oat_class_index [] class_def_method_index code_offset f =
     (code_offset, f)"
| "WriteCodeClassDef_methods env w dex_file oat_class_index ((is_static, is_direct, idx) # rest)
       class_def_method_index code_offset f =
     (case WriteCodeMethod env w code_offset oat_class_index class_def_method_index is_static idx
             dex_file f of
        (code_offset1, f1) \<Rightarrow>
          if code_offset1 = 0 then (0, f1)
          else WriteCodeClassDef_methods env w dex_file oat_class_index rest
                 (class_def_method_index + 1) code_offset1 f1)"

definition WriteCodeClassDef ::
  "Env \<Rightarrow> OatWriter \<Rightarrow> nat \<Rightarrow> nat \<Rightarrow> DexFile \<Rightarrow> ClassData option \<Rightarrow> File \<Rightarrow> nat \<times> File" where
  "WriteCodeClassDef env w code_offset oat_class_index dex_file class_data f =
     (case class_data of
        None \<Rightarrow> (code_offset, f)
      | Some cd \<Rightarrow>
          (case WriteCodeClassDef_methods env w dex_file oat_class_index (direct_entries cd) 0
                  code_offset f of
             (code_offset1, f1) \<Rightarrow>
               if code_offset1 = 0 then (0, f1)
               else WriteCodeClassDef_methods env w dex_file oat_class_index (virtual_entries cd)
                      (length (direct_methods cd)) code_offset1 f1))"

fun WriteCodeDexFile ::
  "Env \<Rightarrow> OatWriter \<Rightarrow> DexFile \<Rightarrow> ClassData option list \<Rightarrow> nat \<Rightarrow> nat \<Rightarrow> File \<Rightarrow> nat \<times> nat \<times> File" where
  "WriteCodeDexFile env w dex_file [] oat_class_index code_offset f =
     (oat_class_index, code_offset, f)"
| "WriteCodeDexFile env w dex_file (class_data # rest) oat_class_index code_offset f =
     (case WriteCodeClassDef env w code_offset oat_class_index dex_file class_data f of
        (code_offset1, f1) \<Rightarrow>
          if code_offset1 = 0 then (oat_class_index, 0, f1)
          else WriteCodeDexFile env w dex_file rest (oat_class_index + 1) code_offset1 f1)"

text \<open>
  The loop of \<^verbatim>\<open>WriteCodeDexFiles\<close> runs over \<^verbatim>\<open>oat_classes_\<close>, which has one entry for
  each dex file (the \<^verbatim>\<open>CHECK_EQ\<close> of the constructor).
\<close>

fun WriteCodeDexFiles ::
  "Env \<Rightarrow> OatWriter \<Rightarrow> DexFile list \<Rightarrow> nat \<Rightarrow> nat \<Rightarrow> File \<Rightarrow> nat \<times> File" where
  "WriteCodeDexFiles env w [] oat_class_index code_offset f = (code_offset, f)"
| "WriteCodeDexFiles env w (dex_file # rest) oat_class_index code_offset f =
     (case WriteCodeDexFile env w dex_file (class_defs dex_file) oat_class_index code_offset f of
        (oat_class_index1, code_offset1, f1) \<Rightarrow>
          if code_offset1 = 0 then (0, f1)
          else WriteCodeDexFiles env w rest oat_class_index1 code_offset1 f1)"

definition Write :: "Env \<Rightarrow> DexFile list \<Rightarrow> OatWriter \<Rightarrow> File \<Rightarrow> bool \<times> File" where
  "Write env dex_files w f =
     (case WriteFully_or (Error ''Failed to write oat header'') (OatHeader_bytes (oat_header' w)) f
      of (ok0, f0) \<Rightarrow>
      if \<not> ok0 then (False, f0) else
      case WriteTables w f0 of (ok1, f1) \<Rightarrow>
      if \<not> ok1 then (False, PLOG (Error ''Failed to write oat tables'') f1) else
      case WriteCode w f1 of (code_offset, f2) \<Rightarrow>
      if code_offset = 0 then (False, PLOG (Error ''Failed to write oat code'') f2) else
      case WriteCodeDexFiles env w dex_files 0 code_offset f2 of (code_offset1, f3) \<Rightarrow>
      if code_offset1 = 0
      then (False, PLOG (Error ''Failed to write oat code for dex files'') f3)
      else (True, f3))"

definition Create :: "Env \<Rightarrow> DexFile list \<Rightarrow> File \<Rightarrow> bool \<times> File" where
  "Create env dex_files f = Write env dex_files (snd (OatWriter_new env dex_files)) f"

subsection \<open>Well-formed inputs\<close>

text \<open>
  The page size and every code alignment are positive (they are powers of two in every
  build).
\<close>

definition alignments_positive :: "Env \<Rightarrow> bool" where
  "alignments_positive env =
     (0 < kPageSize env \<and> 0 < arch_alignment env \<and>
      (\<forall>dex_file method_idx cm.
         GetCompiledMethod env dex_file method_idx = Some cm \<longrightarrow> 0 < code_alignment cm))"

subsection \<open>A small input\<close>

text \<open>
  One dex file with two class definitions. The first has two direct methods (member
  indices 0 and 1) for which the compiler gives the same compiled method, a virtual method
  (2) whose compiled method has empty vectors, and a virtual method (3) that has no
  compiled method; the second class definition has no class data. Static methods have an
  invoke stub.
\<close>

definition ex_method :: CompiledMethod where
  "ex_method =
     \<lparr>GetCode = 100, code_alignment = 8, CodeDelta = 1, GetFrameSizeInBytes = 32,
      GetCoreSpillMask = 0x4DE0, GetFpSpillMask = 0, GetMappingTable = 200,
      GetVmapTable = 300\<rparr>"

definition ex_empty_method :: CompiledMethod where
  "ex_empty_method =
     \<lparr>GetCode = 101, code_alignment = 8, CodeDelta = 1, GetFrameSizeInBytes = 16,
      GetCoreSpillMask = 0, GetFpSpillMask = 0, GetMappingTable = 201,
      GetVmapTable = 301\<rparr>"

definition ex_header :: OatHeader where
  "ex_header =
     \<lparr>magic' = [0x6F, 0x61, 0x74, 0x0A], version' = [0x30, 0x30, 0x31, 0x00],
      adler32_checksum' = 1, executable_offset' = 0\<rparr>"

definition ex_env :: Env where
  "ex_env =
     \<lparr>kPageSize = 4096, kStackAlignment = 16,
      checksum_step = (\<lambda>c b. c + ucast b),
      new_OatHeader = (\<lambda>dex_files. ex_header),
      GetCompiledMethod =
        (\<lambda>dex_file method_idx.
           if method_idx = 0 \<or> method_idx = 1 then Some ex_method
           else if method_idx = 2 then Some ex_empty_method else None),
      FindInvokeStub = (\<lambda>is_static shorty. if is_static then Some 400 else None),
      arch_alignment = 8,
      bytes_at = (\<lambda>a. if a = 100 then [1, 2, 3, 4, 5, 6] else if a = 400 then [7, 8] else []),
      words_at = (\<lambda>a. if a = 200 then [9] else []),
      halfs_at = (\<lambda>a. if a = 300 then [10, 11] else [])\<rparr>"

definition ex_dex :: DexFile where
  "ex_dex =
     \<lparr>GetLocation = [0x61], header_checksum' = 5,
      class_defs =
        [Some \<lparr>direct_methods = [(0, True), (1, False)], virtual_methods = [2, 3]\<rparr>, None],
      GetMethodShorty = (\<lambda>method_idx. ''V'')\<rparr>"

text \<open>The small input with an empty invoke stub for every method.\<close>

definition ex_stub_env :: Env where
  "ex_stub_env = ex_env\<lparr>FindInvokeStub := (\<lambda>is_static shorty. Some 401)\<rparr>"

definition ex_file :: File where
  "ex_file = \<lparr>contents = [], pos = 0, io_results = [], log = []\<rparr>"

subsection \<open>Auxiliary notions for the properties\<close>

text \<open>The constructor up to \<^verbatim>\<open>InitOatMethods\<close>: the cursor at the end of the last table.\<close>

definition InitOatTables :: "Env \<Rightarrow> DexFile list \<Rightarrow> nat \<times> OatWriter" where
  "InitOatTables env dex_files =
     (case InitOatHeader env dex_files of (offset0, w0) \<Rightarrow>
      case InitOatDexFiles dex_files offset0 w0 of (offset1, w1) \<Rightarrow>
      case InitOatClasses env dex_files 0 offset1 w1 of (offset2, w2) \<Rightarrow>
      InitOatMethods env dex_files 0 offset2 w2)"

text \<open>
  What the layout of the code leaves as it is: the tables of the dex files and of the
  classes, the padding, and the header but for its checksum.
\<close>

definition code_layout_frame :: "OatWriter \<Rightarrow> OatWriter \<Rightarrow> bool" where
  "code_layout_frame w w1 =
     (oat_dex_files' w1 = oat_dex_files' w \<and> oat_classes' w1 = oat_classes' w \<and>
      executable_offset_padding_length' w1 = executable_offset_padding_length' w \<and>
      executable_offset' (oat_header' w1) = executable_offset' (oat_header' w) \<and>
      magic' (oat_header' w1) = magic' (oat_header' w) \<and>
      version' (oat_header' w1) = version' (oat_header' w) \<and>
      map length (oat_methods' w1) = map length (oat_methods' w))"

text \<open>The byte length of the header and of all the tables of the dex files, of the classes
  and of the methods.\<close>

definition tables_size :: "OatWriter \<Rightarrow> nat" where
  "tables_size w =
     sizeof_OatHeader (oat_header' w) + sum_list (map OatDexFile_SizeOf (oat_dex_files' w)) +
     sum_list (map OatClasses_SizeOf (oat_classes' w)) +
     sum_list (map OatMethods_SizeOf (oat_methods' w))"

text \<open>
  Every alignment is a power of two, and a page has more than one byte (the spec: the page
  size and the code alignment are powers of two in every build).
\<close>

definition pow2_alignments :: "Env \<Rightarrow> bool" where
  "pow2_alignments env =
     ((\<exists>k. kPageSize env = 2 ^ Suc k) \<and> (\<exists>k. arch_alignment env = 2 ^ k) \<and>
      (\<forall>dex_file method_idx cm.
         GetCompiledMethod env dex_file method_idx = Some cm \<longrightarrow>
         (\<exists>k. code_alignment cm = 2 ^ k)))"

text \<open>
  The file as the calls of the emit pass see it: no call to come fails; the position is at
  or beyond the end of the contents; the contents with the gap up to the position filled
  with zeros; the file holds the bytes \<open>bs\<close> at position \<open>p\<close>.
\<close>

definition no_failures :: "File \<Rightarrow> bool" where
  "no_failures f = (False \<notin> set (io_results f))"

definition file_ok :: "File \<Rightarrow> bool" where
  "file_ok f = (length (contents f) \<le> pos f)"

definition padded :: "File \<Rightarrow> byte list" where
  "padded f = contents f @ replicate (pos f - length (contents f)) 0"

definition has_bytes :: "File \<Rightarrow> nat \<Rightarrow> byte list \<Rightarrow> bool" where
  "has_bytes f p bs =
     (p + length bs \<le> length (contents f) \<and> take (length bs) (drop p (contents f)) = bs)"

definition file_extends :: "File \<Rightarrow> File \<Rightarrow> bool" where
  "file_extends f f1 = (file_ok f1 \<and> prefix (contents f) (contents f1) \<and> pos f \<le> pos f1)"

text \<open>
  The system calls between two states of the file: all of them succeeded (\<open>io_ok\<close>), or
  the last of them failed and the others succeeded (\<open>io_failed\<close>). A function of the emit
  pass that ends in \<open>f1\<close> with the success flag \<open>s\<close> has only added to the log, and either
  all its calls succeeded, or it reports a failure, its last call failed and it has logged
  something.
\<close>

definition io_ok :: "File \<Rightarrow> File \<Rightarrow> bool" where
  "io_ok f f1 = (\<exists>used. io_results f = used @ io_results f1 \<and> False \<notin> set used)"

definition io_failed :: "File \<Rightarrow> File \<Rightarrow> bool" where
  "io_failed f f1 =
     (\<exists>used. io_results f = used @ False # io_results f1 \<and> False \<notin> set used)"

definition emit_result :: "File \<Rightarrow> bool \<Rightarrow> File \<Rightarrow> bool" where
  "emit_result f s f1 =
     (prefix (log f) (log f1) \<and>
      (io_ok f f1 \<or> (\<not> s \<and> io_failed f f1 \<and> log f1 \<noteq> log f)))"

text \<open>A fresh file whose thirteenth system call fails.\<close>

definition ex_failing_file :: File where
  "ex_failing_file =
     \<lparr>contents = [], pos = 0,
      io_results = [True, True, True, True, True, True, True, True, True, True, True, True,
                    False, True],
      log = []\<rparr>"

subsection \<open>The order of the methods\<close>

text \<open>
  Both passes walk the dex files, their class definitions and their methods in the same
  order. The walk is the list of its steps: a method, with the index of its class among all
  classes and its index in the class, or the end of a class definition (where the layout
  feeds the methods table of the class to the checksum). The lemmas \<open>InitOatCodeDexFiles_run\<close>
  and \<open>WriteCodeDexFiles_run\<close> show that the two passes are the runs of their steps over
  this list.
\<close>

datatype item = Method nat nat bool bool nat DexFile | ClassEnd nat

fun class_items :: "DexFile \<Rightarrow> nat \<Rightarrow> (bool \<times> bool \<times> nat) list \<Rightarrow> nat \<Rightarrow> item list" where
  "class_items dex_file oat_class_index [] class_def_method_index = []"
| "class_items dex_file oat_class_index ((is_static, is_direct, idx) # rest)
       class_def_method_index =
     Method oat_class_index class_def_method_index is_static is_direct idx dex_file #
     class_items dex_file oat_class_index rest (class_def_method_index + 1)"

definition class_entries :: "ClassData option \<Rightarrow> (bool \<times> bool \<times> nat) list" where
  "class_entries class_data =
     (case class_data of None \<Rightarrow> [] | Some cd \<Rightarrow> direct_entries cd @ virtual_entries cd)"

fun dex_items :: "DexFile \<Rightarrow> ClassData option list \<Rightarrow> nat \<Rightarrow> item list" where
  "dex_items dex_file [] oat_class_index = []"
| "dex_items dex_file (class_data # rest) oat_class_index =
     class_items dex_file oat_class_index (class_entries class_data) 0 @
     ClassEnd oat_class_index # dex_items dex_file rest (oat_class_index + 1)"

fun all_items :: "DexFile list \<Rightarrow> nat \<Rightarrow> item list" where
  "all_items [] oat_class_index = []"
| "all_items (dex_file # rest) oat_class_index =
     dex_items dex_file (class_defs dex_file) oat_class_index @
     all_items rest (oat_class_index + length (class_defs dex_file))"

fun layout_step :: "Env \<Rightarrow> nat \<times> OatWriter \<Rightarrow> item \<Rightarrow> nat \<times> OatWriter" where
  "layout_step env (offset, w) (Method oat_class_index class_def_method_index is_static
       is_direct idx dex_file) =
     InitOatCodeMethod env offset w oat_class_index class_def_method_index is_static is_direct
       idx dex_file"
| "layout_step env (offset, w) (ClassEnd oat_class_index) =
     (offset,
      w\<lparr>oat_header' :=
          UpdateChecksum env (OatMethods_bytes (oat_methods' w ! oat_class_index))
            (oat_header' w)\<rparr>)"

definition layout_run :: "Env \<Rightarrow> nat \<times> OatWriter \<Rightarrow> item list \<Rightarrow> nat \<times> OatWriter" where
  "layout_run env s items = foldl (layout_step env) s items"

fun emit_step :: "Env \<Rightarrow> OatWriter \<Rightarrow> nat \<times> File \<Rightarrow> item \<Rightarrow> nat \<times> File" where
  "emit_step env w (code_offset, f) (Method oat_class_index class_def_method_index is_static
       is_direct idx dex_file) =
     (if code_offset = 0 then (0, f)
      else WriteCodeMethod env w code_offset oat_class_index class_def_method_index is_static
             idx dex_file f)"
| "emit_step env w (code_offset, f) (ClassEnd oat_class_index) = (code_offset, f)"

definition emit_run :: "Env \<Rightarrow> OatWriter \<Rightarrow> nat \<times> File \<Rightarrow> item list \<Rightarrow> nat \<times> File" where
  "emit_run env w s items = foldl (emit_step env w) s items"

text \<open>The state of the layout when it reaches the code: after \<^verbatim>\<open>InitOatCode\<close>.\<close>

definition code_start :: "Env \<Rightarrow> DexFile list \<Rightarrow> nat \<times> OatWriter" where
  "code_start env dex_files =
     (case InitOatTables env dex_files of (offset3, w3) \<Rightarrow> InitOatCode env offset3 w3)"

subsection \<open>Invariants of the layout of the code\<close>

text \<open>The code delta is the thumb bit: 0 or 1.\<close>

definition thumb_deltas :: "Env \<Rightarrow> bool" where
  "thumb_deltas env =
     (\<forall>dex_file method_idx cm.
        GetCompiledMethod env dex_file method_idx = Some cm \<longrightarrow> unat (CodeDelta cm) \<le> 1)"

text \<open>Every offset in the three maps is below the cursor, which is positive.\<close>

definition offsets_below :: "nat \<Rightarrow> OatWriter \<Rightarrow> bool" where
  "offsets_below offset w =
     (0 < offset \<and>
      (\<forall>k v. code_offsets' w k = Some v \<longrightarrow> unat v < offset) \<and>
      (\<forall>k v. mapping_table_offsets' w k = Some v \<longrightarrow> unat v < offset) \<and>
      (\<forall>k v. vmap_table_offsets' w k = Some v \<longrightarrow> unat v < offset))"

text \<open>An empty vector has the offset 0 in its map.\<close>

definition zero_sentinels :: "Env \<Rightarrow> OatWriter \<Rightarrow> bool" where
  "zero_sentinels env w =
     ((\<forall>k v. code_offsets' w k = Some v \<longrightarrow> bytes_at env k = [] \<longrightarrow> v = 0) \<and>
      (\<forall>k v. mapping_table_offsets' w k = Some v \<longrightarrow> words_at env k = [] \<longrightarrow> v = 0) \<and>
      (\<forall>k v. vmap_table_offsets' w k = Some v \<longrightarrow> halfs_at env k = [] \<longrightarrow> v = 0))"

text \<open>The maps only grow.\<close>

definition maps_le :: "OatWriter \<Rightarrow> OatWriter \<Rightarrow> bool" where
  "maps_le w w1 =
     (code_offsets' w \<subseteq>\<^sub>m code_offsets' w1 \<and>
      mapping_table_offsets' w \<subseteq>\<^sub>m mapping_table_offsets' w1 \<and>
      vmap_table_offsets' w \<subseteq>\<^sub>m vmap_table_offsets' w1)"

text \<open>The file is at the cursor, no call to come fails, and nothing lies beyond the position.\<close>

definition synced :: "nat \<Rightarrow> File \<Rightarrow> bool" where
  "synced c f = (pos f = c \<and> no_failures f \<and> file_ok f)"

subsection \<open>The executable section, from the spec\<close>

text \<open>
  The on-disk format of the spec, for one method: optional alignment padding, the code (at
  its first occurrence only), the three frame words, the mapping table and the vmap table
  (at their first occurrence only), optional alignment padding and the invoke stub (at its
  first occurrence only). A vector occurs for the first time when the layout does not find
  it in its map. The frame words are those the emit pass has: 0 where the method has no
  compiled method.
\<close>

definition first_bytes :: "(addr \<rightharpoonup> u32) \<Rightarrow> addr \<Rightarrow> byte list \<Rightarrow> byte list" where
  "first_bytes m k bs = (case m k of None \<Rightarrow> bs | Some found \<Rightarrow> [])"

definition code_image :: "Env \<Rightarrow> CompiledMethod \<Rightarrow> nat \<Rightarrow> OatWriter \<Rightarrow> byte list" where
  "code_image env cm offset w =
     replicate (AlignCode cm offset - offset) 0 @
     first_bytes (code_offsets' w) (GetCode cm) (bytes_at env (GetCode cm))"

definition stub_image :: "Env \<Rightarrow> bool \<Rightarrow> nat \<Rightarrow> DexFile \<Rightarrow> nat \<Rightarrow> OatWriter \<Rightarrow> byte list" where
  "stub_image env is_static method_idx dex_file offset w =
     (case FindInvokeStub env is_static (GetMethodShorty dex_file method_idx) of
        None \<Rightarrow> []
      | Some stub \<Rightarrow>
          replicate (RoundUp offset (arch_alignment env) - offset) 0 @
          first_bytes (code_offsets' w) stub (bytes_at env stub))"

definition method_image :: "Env \<Rightarrow> nat \<Rightarrow> OatWriter \<Rightarrow> bool \<Rightarrow> nat \<Rightarrow> DexFile \<Rightarrow> byte list" where
  "method_image env offset w is_static method_idx dex_file =
     (case GetCompiledMethod env dex_file method_idx of
        None \<Rightarrow>
          le32 0 @ le32 0 @ le32 0 @
          stub_image env is_static method_idx dex_file (offset + 12) w
      | Some cm \<Rightarrow>
          (let code = code_image env cm offset w;
               mapping_table =
                 first_bytes (mapping_table_offsets' w) (GetMappingTable cm)
                   (mapping_table_bytes env cm);
               vmap_table =
                 first_bytes (vmap_table_offsets' w) (GetVmapTable cm) (vmap_table_bytes env cm)
           in code @
              le32 (GetFrameSizeInBytes cm) @ le32 (GetCoreSpillMask cm) @
              le32 (GetFpSpillMask cm) @
              mapping_table @ vmap_table @
              stub_image env is_static method_idx dex_file
                (offset + length code + 12 + length mapping_table + length vmap_table)
                (snd (snd (InitOatCodeMethod_code env cm offset w)))))"

subsection \<open>The walk and the methods table\<close>

text \<open>The entries of the methods tables that the methods of a walk store to.\<close>

fun item_keys :: "item list \<Rightarrow> (nat \<times> nat) list" where
  "item_keys [] = []"
| "item_keys (Method oat_class_index class_def_method_index is_static is_direct idx dex_file
       # rest) =
     (oat_class_index, class_def_method_index) # item_keys rest"
| "item_keys (ClassEnd oat_class_index # rest) = item_keys rest"

text \<open>
  The writer \<open>wl\<close> has, for every method of the walk from the state \<open>s\<close> of the layout, the
  offsets that the layout computes for the method.
\<close>

fun stored_ok :: "Env \<Rightarrow> OatWriter \<Rightarrow> nat \<times> OatWriter \<Rightarrow> item list \<Rightarrow> bool" where
  "stored_ok env wl s [] = True"
| "stored_ok env wl s (Method oat_class_index class_def_method_index is_static is_direct idx
       dex_file # rest) =
     (oat_methods' wl ! oat_class_index ! class_def_method_index
        = fst (InitOatCodeMethod_offsets env (fst s) (snd s) is_static idx dex_file) \<and>
      stored_ok env wl
        (layout_step env s
           (Method oat_class_index class_def_method_index is_static is_direct idx dex_file))
        rest)"
| "stored_ok env wl s (ClassEnd oat_class_index # rest) =
     stored_ok env wl (layout_step env s (ClassEnd oat_class_index)) rest"

text \<open>The executable section of the spec for a walk: the methods one after the other.\<close>

fun items_image :: "Env \<Rightarrow> nat \<times> OatWriter \<Rightarrow> item list \<Rightarrow> byte list" where
  "items_image env s [] = []"
| "items_image env s (Method oat_class_index class_def_method_index is_static is_direct idx
       dex_file # rest) =
     method_image env (fst s) (snd s) is_static idx dex_file @
     items_image env
       (layout_step env s
          (Method oat_class_index class_def_method_index is_static is_direct idx dex_file))
       rest"
| "items_image env s (ClassEnd oat_class_index # rest) =
     items_image env (layout_step env s (ClassEnd oat_class_index)) rest"

subsection \<open>The file, from the spec\<close>

text \<open>
  The on-disk format of the spec: the header, the descriptors of the dex files, the class
  tables, the methods tables, zeros up to the executable section, and the executable section.
\<close>

definition OatDexFile_bytes :: "OatDexFile \<Rightarrow> byte list" where
  "OatDexFile_bytes d =
     le32 (dex_file_location_size' d) @ OatDexFile_location d @ le32 (dex_file_checksum' d) @
     le32 (classes_offset' d)"

definition tables_image :: "OatWriter \<Rightarrow> byte list" where
  "tables_image w =
     OatHeader_bytes (oat_header' w) @ concat (map OatDexFile_bytes (oat_dex_files' w)) @
     concat (map OatClasses_bytes (oat_classes' w)) @
     concat (map OatMethods_bytes (oat_methods' w))"

definition file_image :: "Env \<Rightarrow> DexFile list \<Rightarrow> byte list" where
  "file_image env dex_files =
     (let w = snd (OatWriter_new env dex_files)
      in tables_image w @ replicate (executable_offset_padding_length' w) 0 @
         items_image env (code_start env dex_files) (all_items dex_files 0))"

subsection \<open>The logical content, from the spec\<close>







text \<open>The classes that the walk ends.\<close>

fun item_ends :: "item list \<Rightarrow> nat list" where
  "item_ends [] = []"
| "item_ends (Method oat_class_index class_def_method_index is_static is_direct idx dex_file
       # rest) = item_ends rest"
| "item_ends (ClassEnd oat_class_index # rest) = oat_class_index # item_ends rest"

text \<open>No method of a class comes after the end of the class.\<close>

fun closed :: "item list \<Rightarrow> bool" where
  "closed [] = True"
| "closed (Method oat_class_index class_def_method_index is_static is_direct idx dex_file
       # rest) = closed rest"
| "closed (ClassEnd oat_class_index # rest) =
     (oat_class_index \<notin> fst ` set (item_keys rest) \<and> closed rest)"

subsection \<open>The system calls of the emit pass, from the spec\<close>

text \<open>
  The emit pass as the list of its system calls, in their order: the write of the bytes of a
  record, or the seek over a gap. Each call has the lines that the log gains when it fails:
  first the diagnostic that names the record, then the messages of the enclosing functions.
  A record of no bytes has no call. \<open>call_image\<close> is what a call that succeeds adds to the
  file.
\<close>

datatype call = WriteCall "byte list" "diag list" | SeekCall nat "diag list"

fun call_log :: "call \<Rightarrow> diag list" where
  "call_log (WriteCall bs ds) = ds"
| "call_log (SeekCall n ds) = ds"

fun call_image :: "call \<Rightarrow> byte list" where
  "call_image (WriteCall bs ds) = bs"
| "call_image (SeekCall n ds) = replicate n 0"

definition calls_image :: "call list \<Rightarrow> byte list" where
  "calls_image cs = concat (map call_image cs)"

definition write_call :: "diag \<Rightarrow> byte list \<Rightarrow> call list" where
  "write_call d bs = (if bs = [] then [] else [WriteCall bs [d]])"

text \<open>The calls of a function whose caller logs \<open>d\<close> when the function fails.\<close>

fun within :: "diag \<Rightarrow> call \<Rightarrow> call" where
  "within d (WriteCall bs ds) = WriteCall bs (ds @ [d])"
| "within d (SeekCall n ds) = SeekCall n (ds @ [d])"

text \<open>The tables: four records for each dex file, one for each table of a class.\<close>

definition OatDexFile_calls :: "OatDexFile \<Rightarrow> call list" where
  "OatDexFile_calls d =
     write_call (Error ''Failed to write dex file location length'')
       (le32 (dex_file_location_size' d)) @
     write_call (Error ''Failed to write dex file location data'') (OatDexFile_location d) @
     write_call (Error ''Failed to write dex file checksum'') (le32 (dex_file_checksum' d)) @
     write_call (Error ''Failed to write classes offset'') (le32 (classes_offset' d))"

definition OatClasses_calls :: "u32 list \<Rightarrow> call list" where
  "OatClasses_calls methods_offsets =
     write_call (Error ''Failed to write methods offsets'') (OatClasses_bytes methods_offsets)"

definition OatMethods_calls :: "OatMethodOffsets list \<Rightarrow> call list" where
  "OatMethods_calls method_offsets =
     write_call (Error ''Failed to write method offsets'') (OatMethods_bytes method_offsets)"

definition WriteTables_calls :: "OatWriter \<Rightarrow> call list" where
  "WriteTables_calls w =
     map (within (Error ''Failed to write oat dex information''))
       (concat (map OatDexFile_calls (oat_dex_files' w))) @
     map (within (Error ''Failed to write oat classes information''))
       (concat (map OatClasses_calls (oat_classes' w))) @
     map (within (Error ''Failed to write oat methods information''))
       (concat (map OatMethods_calls (oat_methods' w)))"

text \<open>
  The executable section. The calls of a block of a method depend on the position that the
  file has when the block starts; a block gives its calls and the position after them.
\<close>

definition then_calls :: "call list \<times> nat \<Rightarrow> (nat \<Rightarrow> call list \<times> nat) \<Rightarrow> call list \<times> nat" where
  "then_calls r k = (case r of (cs, c) \<Rightarrow> case k c of (cs1, c1) \<Rightarrow> (cs @ cs1, c1))"

text \<open>The seek over the alignment gap, where there is a gap.\<close>

definition align_calls :: "nat \<Rightarrow> diag \<Rightarrow> nat \<Rightarrow> call list \<times> nat" where
  "align_calls alignment d code_offset =
     (let delta = unat ((of_nat (RoundUp code_offset alignment) :: u32) - of_nat code_offset)
      in (if delta \<noteq> 0 then [SeekCall delta [d]] else [], code_offset + delta))"

text \<open>
  The write of a vector, unless the vector is in the map with another offset than the
  position (it has been written before).
\<close>

definition dedup_calls ::
  "u32 option \<Rightarrow> nat \<Rightarrow> u32 \<Rightarrow> byte list \<Rightarrow> diag \<Rightarrow> nat \<Rightarrow> call list \<times> nat" where
  "dedup_calls iter offset stored bs d code_offset =
     (if iter \<noteq> None \<and> offset \<noteq> unat stored then ([], code_offset)
      else (write_call d bs, code_offset + length bs))"

definition code_calls ::
  "Env \<Rightarrow> OatWriter \<Rightarrow> CompiledMethod \<Rightarrow> OatMethodOffsets \<Rightarrow> nat \<Rightarrow> nat \<Rightarrow> call list \<times> nat" where
  "code_calls env w compiled_method method_offsets method_idx code_offset0 =
     then_calls
       (align_calls (code_alignment compiled_method) (Error ''Failed to seek to align oat code'')
          code_offset0)
       (\<lambda>code_offset.
          dedup_calls (code_offsets' w (GetCode compiled_method))
            (code_offset + unat (CodeDelta compiled_method)) (code_offset' method_offsets)
            (bytes_at env (GetCode compiled_method)) (WriteFailure ''method code'' method_idx)
            code_offset)"

definition frame_calls :: "u32 \<Rightarrow> u32 \<Rightarrow> u32 \<Rightarrow> nat \<Rightarrow> nat \<Rightarrow> call list \<times> nat" where
  "frame_calls frame_size_in_bytes core_spill_mask fp_spill_mask method_idx code_offset =
     (write_call (WriteFailure ''method frame size'' method_idx) (le32 frame_size_in_bytes) @
      write_call (WriteFailure ''method core spill mask'' method_idx) (le32 core_spill_mask) @
      write_call (WriteFailure ''method fp spill mask'' method_idx) (le32 fp_spill_mask),
      code_offset + 4 + 4 + 4)"

definition mapping_table_calls ::
  "Env \<Rightarrow> OatWriter \<Rightarrow> CompiledMethod \<Rightarrow> OatMethodOffsets \<Rightarrow> nat \<Rightarrow> nat \<Rightarrow> call list \<times> nat" where
  "mapping_table_calls env w compiled_method method_offsets method_idx code_offset =
     dedup_calls (mapping_table_offsets' w (GetMappingTable compiled_method))
       code_offset (mapping_table_offset' method_offsets)
       (mapping_table_bytes env compiled_method) (WriteFailure ''mapping table'' method_idx)
       code_offset"

definition vmap_table_calls ::
  "Env \<Rightarrow> OatWriter \<Rightarrow> CompiledMethod \<Rightarrow> OatMethodOffsets \<Rightarrow> nat \<Rightarrow> nat \<Rightarrow> call list \<times> nat" where
  "vmap_table_calls env w compiled_method method_offsets method_idx code_offset =
     dedup_calls (vmap_table_offsets' w (GetVmapTable compiled_method))
       code_offset (vmap_table_offset' method_offsets)
       (vmap_table_bytes env compiled_method) (WriteFailure ''vmap table'' method_idx)
       code_offset"

definition stub_calls ::
  "Env \<Rightarrow> OatWriter \<Rightarrow> bool \<Rightarrow> nat \<Rightarrow> DexFile \<Rightarrow> OatMethodOffsets \<Rightarrow> nat \<Rightarrow> call list \<times> nat" where
  "stub_calls env w is_static method_idx dex_file method_offsets code_offset0 =
     (case FindInvokeStub env is_static (GetMethodShorty dex_file method_idx) of
        None \<Rightarrow> ([], code_offset0)
      | Some compiled_invoke_stub \<Rightarrow>
          then_calls
            (align_calls (arch_alignment env) (Error ''Failed to seek to align invoke stub code'')
               code_offset0)
            (\<lambda>code_offset.
               dedup_calls (code_offsets' w compiled_invoke_stub)
                 code_offset (invoke_stub_offset' method_offsets)
                 (bytes_at env compiled_invoke_stub)
                 (WriteFailure ''invoke stub code'' method_idx) code_offset))"

text \<open>
  A method: the code, the three frame words (zeros for a method without compiled code), the
  mapping table, the vmap table and the invoke stub.
\<close>

definition method_calls ::
  "Env \<Rightarrow> OatWriter \<Rightarrow> nat \<Rightarrow> nat \<Rightarrow> nat \<Rightarrow> bool \<Rightarrow> nat \<Rightarrow> DexFile \<Rightarrow> call list \<times> nat" where
  "method_calls env w code_offset oat_class_index class_def_method_index is_static method_idx
       dex_file =
     (let method_offsets = oat_methods' w ! oat_class_index ! class_def_method_index
      in case GetCompiledMethod env dex_file method_idx of
           None \<Rightarrow>
             then_calls (frame_calls 0 0 0 method_idx code_offset)
               (stub_calls env w is_static method_idx dex_file method_offsets)
         | Some cm \<Rightarrow>
             then_calls (code_calls env w cm method_offsets method_idx code_offset)
               (\<lambda>code_offset1.
                  then_calls
                    (frame_calls (GetFrameSizeInBytes cm) (GetCoreSpillMask cm)
                       (GetFpSpillMask cm) method_idx code_offset1)
                    (\<lambda>code_offset2.
                       then_calls
                         (mapping_table_calls env w cm method_offsets method_idx code_offset2)
                         (\<lambda>code_offset3.
                            then_calls
                              (vmap_table_calls env w cm method_offsets method_idx code_offset3)
                              (stub_calls env w is_static method_idx dex_file
                                 method_offsets)))))"

fun items_calls :: "Env \<Rightarrow> OatWriter \<Rightarrow> nat \<Rightarrow> item list \<Rightarrow> call list" where
  "items_calls env w code_offset [] = []"
| "items_calls env w code_offset
       (Method oat_class_index class_def_method_index is_static is_direct idx dex_file # rest) =
     (case method_calls env w code_offset oat_class_index class_def_method_index is_static idx
             dex_file of
        (cs, code_offset1) \<Rightarrow> cs @ items_calls env w code_offset1 rest)"
| "items_calls env w code_offset (ClassEnd oat_class_index # rest) =
     items_calls env w code_offset rest"

text \<open>
  The whole file: the header, the tables, the seek to the executable section (a call also
  where the padding is empty), and the methods.
\<close>

definition Write_calls :: "Env \<Rightarrow> DexFile list \<Rightarrow> OatWriter \<Rightarrow> call list" where
  "Write_calls env dex_files w =
     write_call (Error ''Failed to write oat header'') (OatHeader_bytes (oat_header' w)) @
     map (within (Error ''Failed to write oat tables'')) (WriteTables_calls w) @
     [SeekCall (executable_offset_padding_length' w)
        [Error ''Failed to seek to oat code section'', Error ''Failed to write oat code'']] @
     map (within (Error ''Failed to write oat code for dex files''))
       (items_calls env w (unat (executable_offset' (oat_header' w))) (all_items dex_files 0))"

text \<open>
  The calls made one after the other on a file, up to the first that fails, whose lines go
  to the log.
\<close>

fun perform :: "call \<Rightarrow> File \<Rightarrow> bool \<times> File" where
  "perform (WriteCall bs ds) f = WriteFully bs f"
| "perform (SeekCall n ds) f = (case lseek_cur n f of (r, f1) \<Rightarrow> (r \<noteq> - 1, f1))"

fun run_calls :: "call list \<Rightarrow> File \<Rightarrow> bool \<times> File" where
  "run_calls [] f = (True, f)"
| "run_calls (c # cs) f =
     (case perform c f of
        (ok, f1) \<Rightarrow> if ok then run_calls cs f1 else (False, f1\<lparr>log := log f1 @ call_log c\<rparr>))"

text \<open>The result of a block of \<^verbatim>\<open>WriteCodeMethod\<close> that makes the calls of \<open>r\<close>.\<close>

definition emitted :: "call list \<times> nat \<Rightarrow> File \<Rightarrow> nat option \<times> File" where
  "emitted r f =
     (case run_calls (fst r) f of (ok, g) \<Rightarrow> (if ok then Some (snd r) else None, g))"

text \<open>
  A block that starts at the position \<open>c\<close> ends at the position after its calls. A call
  that reaches the system: every seek, and every write of at least one byte.
\<close>

definition advances :: "nat \<Rightarrow> call list \<times> nat \<Rightarrow> bool" where
  "advances c r = (snd r = c + length (calls_image (fst r)))"

fun real_call :: "call \<Rightarrow> bool" where
  "real_call (WriteCall bs ds) = (bs \<noteq> [])"
| "real_call (SeekCall n ds) = True"

subsection \<open>The same responses of the compiler at other addresses\<close>

text \<open>
  Two runs of the writer get the same responses from the compiler when the vectors it hands
  out have the same contents and are shared by the same methods; the addresses of the
  vectors may differ from run to run. \<open>\<rho>\<close> maps the address of a vector in the first run to
  its address in the second. The maps of the two writers then have the same entries, at
  the addresses of their runs.
\<close>

definition rename_method :: "(addr \<Rightarrow> addr) \<Rightarrow> CompiledMethod \<Rightarrow> CompiledMethod" where
  "rename_method \<rho> cm =
     cm\<lparr>GetCode := \<rho> (GetCode cm), GetMappingTable := \<rho> (GetMappingTable cm),
        GetVmapTable := \<rho> (GetVmapTable cm)\<rparr>"

definition same_responses :: "(addr \<Rightarrow> addr) \<Rightarrow> Env \<Rightarrow> Env \<Rightarrow> bool" where
  "same_responses \<rho> env1 env2 =
     (inj \<rho> \<and> kPageSize env2 = kPageSize env1 \<and> kStackAlignment env2 = kStackAlignment env1 \<and>
      checksum_step env2 = checksum_step env1 \<and> new_OatHeader env2 = new_OatHeader env1 \<and>
      arch_alignment env2 = arch_alignment env1 \<and>
      (\<forall>dex_file method_idx.
         GetCompiledMethod env2 dex_file method_idx
           = map_option (rename_method \<rho>) (GetCompiledMethod env1 dex_file method_idx)) \<and>
      (\<forall>is_static shorty.
         FindInvokeStub env2 is_static shorty = map_option \<rho> (FindInvokeStub env1 is_static shorty)) \<and>
      (\<forall>a. bytes_at env2 (\<rho> a) = bytes_at env1 a) \<and>
      (\<forall>a. words_at env2 (\<rho> a) = words_at env1 a) \<and>
      (\<forall>a. halfs_at env2 (\<rho> a) = halfs_at env1 a))"

definition same_writer :: "(addr \<Rightarrow> addr) \<Rightarrow> OatWriter \<Rightarrow> OatWriter \<Rightarrow> bool" where
  "same_writer \<rho> w1 w2 =
     (oat_header' w2 = oat_header' w1 \<and> oat_dex_files' w2 = oat_dex_files' w1 \<and>
      oat_classes' w2 = oat_classes' w1 \<and> oat_methods' w2 = oat_methods' w1 \<and>
      executable_offset_padding_length' w2 = executable_offset_padding_length' w1 \<and>
      (\<forall>a. code_offsets' w2 (\<rho> a) = code_offsets' w1 a) \<and>
      (\<forall>a. mapping_table_offsets' w2 (\<rho> a) = mapping_table_offsets' w1 a) \<and>
      (\<forall>a. vmap_table_offsets' w2 (\<rho> a) = vmap_table_offsets' w1 a))"

text \<open>The small input with every vector 1000 addresses further, and a file with a log.\<close>

definition ex_moved_env :: Env where
  "ex_moved_env =
     ex_env\<lparr>GetCompiledMethod :=
              (\<lambda>dex_file method_idx.
                 map_option (rename_method (\<lambda>a. a + 1000))
                   (GetCompiledMethod ex_env dex_file method_idx)),
            FindInvokeStub :=
              (\<lambda>is_static shorty. map_option (\<lambda>a. a + 1000) (FindInvokeStub ex_env is_static shorty)),
            bytes_at := (\<lambda>a. bytes_at ex_env (a - 1000)),
            words_at := (\<lambda>a. words_at ex_env (a - 1000)),
            halfs_at := (\<lambda>a. halfs_at ex_env (a - 1000))\<rparr>"

definition ex_used_file :: File where
  "ex_used_file = \<lparr>contents = [], pos = 0, io_results = [], log = [Error ''earlier'']\<rparr>"

subsection \<open>The cursor as a machine integer\<close>

text \<open>
  The cursor of the source is a \<^verbatim>\<open>size_t\<close>, and an addition to it wraps; on the 32-bit
  targets of the compiler it has 32 bits. The layout functions above carry the cursor as a
  natural number, which is the cursor of the source as long as it stays below \<open>2 ^ 32\<close>.
  This is the cursor of the loop of \<^verbatim>\<open>InitOatDexFiles\<close> (lines 55 to 65) as the 32-bit word
  that it is there.
\<close>

fun InitOatDexFiles_size_t :: "DexFile list \<Rightarrow> u32 \<Rightarrow> u32" where
  "InitOatDexFiles_size_t [] offset = offset"
| "InitOatDexFiles_size_t (dex_file # rest) offset =
     InitOatDexFiles_size_t rest (offset + of_nat (OatDexFile_SizeOf (OatDexFile_new dex_file)))"

section \<open>Properties of the layout pass\<close>

subsection \<open>Rounding up\<close>

lemma RoundUp_ge: "0 < n \<Longrightarrow> x \<le> RoundUp x n"
proof -
  assume n: "0 < n"
  have "x + n - 1 = (x + n - 1) div n * n + (x + n - 1) mod n" by simp
  moreover have "(x + n - 1) mod n < n" using n by simp
  ultimately have "x + n - 1 < (x + n - 1) div n * n + n" by linarith
  then show ?thesis using n by (simp add: RoundUp_def)
qed

lemma RoundUp_dvd: "n dvd RoundUp x n"
  by (simp add: RoundUp_def)

subsection \<open>The cursor never moves back\<close>

lemma InitOatDexFiles_mono: "offset \<le> fst (InitOatDexFiles ds offset w)"
proof (induction ds arbitrary: offset w)
  case Nil show ?case by simp
next
  case (Cons d ds)
  have "offset + OatDexFile_SizeOf (OatDexFile_new d)
          \<le> fst (InitOatDexFiles ds (offset + OatDexFile_SizeOf (OatDexFile_new d))
                 (w\<lparr>oat_dex_files' := oat_dex_files' w @ [OatDexFile_new d]\<rparr>))"
    by (rule Cons.IH)
  then show ?case by (simp add: Let_def)
qed

lemma InitOatClasses_mono: "offset \<le> fst (InitOatClasses env ds i offset w)"
proof (induction ds arbitrary: i offset w)
  case Nil show ?case by simp
next
  case (Cons d ds)
  show ?case
    apply (simp add: Let_def)
    apply (rule order_trans [OF _ Cons.IH])
    apply simp
    done
qed

lemma InitOatMethods_classes_mono:
  "offset \<le> fst (InitOatMethods_classes cs i k offset w)"
proof (induction cs arbitrary: k offset w)
  case Nil show ?case by simp
next
  case (Cons c cs)
  show ?case
    apply (simp add: Let_def)
    apply (rule order_trans [OF _ Cons.IH])
    apply simp
    done
qed

lemma InitOatMethods_mono: "offset \<le> fst (InitOatMethods env ds i offset w)"
proof (induction ds arbitrary: i offset w)
  case Nil show ?case by simp
next
  case (Cons d ds)
  obtain o1 w1 where r: "InitOatMethods_classes (class_defs d) i 0 offset w = (o1, w1)"
    by (cases "InitOatMethods_classes (class_defs d) i 0 offset w")
  have "offset \<le> o1"
    using InitOatMethods_classes_mono [of offset "class_defs d" i 0 w] r by simp
  also have "o1 \<le> fst (InitOatMethods env ds (i + 1) o1
      (w1\<lparr>oat_header' :=
            UpdateChecksum env (OatClasses_bytes (oat_classes' w1 ! i)) (oat_header' w1)\<rparr>))"
    by (rule Cons.IH)
  finally show ?case using r by simp
qed

lemma InitOatCode_mono: "0 < kPageSize env \<Longrightarrow> offset \<le> fst (InitOatCode env offset w)"
  by (simp add: InitOatCode_def Let_def RoundUp_ge)

lemma InitOatCodeMethod_code_mono:
  "0 < code_alignment cm \<Longrightarrow> offset \<le> fst (snd (InitOatCodeMethod_code env cm offset w))"
  using RoundUp_ge [of "code_alignment cm" offset]
  by (simp add: InitOatCodeMethod_code_def Let_def AlignCode_def split: option.splits)

lemma InitOatCodeMethod_frame_mono:
  "offset \<le> fst (InitOatCodeMethod_frame env a b c offset w)"
  by (simp add: InitOatCodeMethod_frame_def)

lemma InitOatCodeMethod_mapping_table_mono:
  "offset \<le> fst (snd (InitOatCodeMethod_mapping_table env cm offset w))"
  by (simp add: InitOatCodeMethod_mapping_table_def Let_def split: option.splits)

lemma InitOatCodeMethod_vmap_table_mono:
  "offset \<le> fst (snd (InitOatCodeMethod_vmap_table env cm offset w))"
  by (simp add: InitOatCodeMethod_vmap_table_def Let_def split: option.splits)

lemma InitOatCodeMethod_invoke_stub_mono:
  "0 < arch_alignment env \<Longrightarrow>
   offset \<le> fst (snd (InitOatCodeMethod_invoke_stub env stub offset w))"
  using RoundUp_ge [of "arch_alignment env" offset]
  by (simp add: InitOatCodeMethod_invoke_stub_def Let_def split: option.splits)

lemma InitOatCodeMethod_stub_mono:
  "0 < arch_alignment env \<Longrightarrow>
   offset \<le> fst (snd (InitOatCodeMethod_stub env is_static idx d offset w))"
  using InitOatCodeMethod_invoke_stub_mono [of env offset _ w]
  by (simp add: InitOatCodeMethod_stub_def split: option.splits)

text \<open>The method without and with a compiled method, as a chain of its blocks.\<close>

lemma InitOatCodeMethod_offsets_None:
  "GetCompiledMethod env dex_file method_idx = None \<Longrightarrow>
   InitOatCodeMethod_offsets env offset w is_static method_idx dex_file =
     (case InitOatCodeMethod_frame env (kStackAlignment env) 0 0 offset w of (offset2, w2) \<Rightarrow>
      case InitOatCodeMethod_stub env is_static method_idx dex_file offset2 w2 of
        (invoke_stub_offset, offset5, w5) \<Rightarrow>
      (\<lparr>code_offset' = 0, frame_size_in_bytes' = kStackAlignment env,
        core_spill_mask' = 0, fp_spill_mask' = 0,
        mapping_table_offset' = 0, vmap_table_offset' = 0,
        invoke_stub_offset' = invoke_stub_offset\<rparr>, offset5, w5))"
  by (simp add: InitOatCodeMethod_offsets_def Let_def split: prod.splits)

lemma InitOatCodeMethod_offsets_Some:
  "GetCompiledMethod env dex_file method_idx = Some cm \<Longrightarrow>
   InitOatCodeMethod_offsets env offset w is_static method_idx dex_file =
     (case InitOatCodeMethod_code env cm offset w of (code_offset, offset1, w1) \<Rightarrow>
      case InitOatCodeMethod_frame env (GetFrameSizeInBytes cm) (GetCoreSpillMask cm)
             (GetFpSpillMask cm) offset1 w1 of (offset2, w2) \<Rightarrow>
      case InitOatCodeMethod_mapping_table env cm offset2 w2 of
        (mapping_table_offset, offset3, w3) \<Rightarrow>
      case InitOatCodeMethod_vmap_table env cm offset3 w3 of
        (vmap_table_offset, offset4, w4) \<Rightarrow>
      case InitOatCodeMethod_stub env is_static method_idx dex_file offset4 w4 of
        (invoke_stub_offset, offset5, w5) \<Rightarrow>
      (\<lparr>code_offset' = code_offset, frame_size_in_bytes' = GetFrameSizeInBytes cm,
        core_spill_mask' = GetCoreSpillMask cm, fp_spill_mask' = GetFpSpillMask cm,
        mapping_table_offset' = mapping_table_offset, vmap_table_offset' = vmap_table_offset,
        invoke_stub_offset' = invoke_stub_offset\<rparr>, offset5, w5))"
  by (simp add: InitOatCodeMethod_offsets_def Let_def split: prod.splits)

lemma InitOatCodeMethod_offsets_mono:
  assumes "alignments_positive env"
  shows "offset \<le> fst (snd (InitOatCodeMethod_offsets env offset w is_static method_idx dex_file))"
proof -
  have arch: "0 < arch_alignment env" using assms by (simp add: alignments_positive_def)
  show ?thesis
  proof (cases "GetCompiledMethod env dex_file method_idx")
    case None
    obtain o2 w2 where
      f: "InitOatCodeMethod_frame env (kStackAlignment env) 0 0 offset w = (o2, w2)"
      by (cases "InitOatCodeMethod_frame env (kStackAlignment env) 0 0 offset w")
    obtain so o5 w5 where
      s: "InitOatCodeMethod_stub env is_static method_idx dex_file o2 w2 = (so, o5, w5)"
      by (cases "InitOatCodeMethod_stub env is_static method_idx dex_file o2 w2") auto
    have "offset \<le> o2"
      using InitOatCodeMethod_frame_mono [of offset env "kStackAlignment env" 0 0 w] f by simp
    moreover have "o2 \<le> o5"
      using InitOatCodeMethod_stub_mono [OF arch, of o2 is_static method_idx dex_file w2] s
      by simp
    ultimately show ?thesis by (simp add: InitOatCodeMethod_offsets_None [OF None] f s)
  next
    case (Some cm)
    have al: "0 < code_alignment cm" using assms Some by (auto simp: alignments_positive_def)
    obtain co o1 w1 where c: "InitOatCodeMethod_code env cm offset w = (co, o1, w1)"
      by (cases "InitOatCodeMethod_code env cm offset w") auto
    obtain o2 w2 where
      f: "InitOatCodeMethod_frame env (GetFrameSizeInBytes cm) (GetCoreSpillMask cm)
             (GetFpSpillMask cm) o1 w1 = (o2, w2)"
      by (cases "InitOatCodeMethod_frame env (GetFrameSizeInBytes cm) (GetCoreSpillMask cm)
             (GetFpSpillMask cm) o1 w1")
    obtain mo o3 w3 where m: "InitOatCodeMethod_mapping_table env cm o2 w2 = (mo, o3, w3)"
      by (cases "InitOatCodeMethod_mapping_table env cm o2 w2") auto
    obtain vo o4 w4 where v: "InitOatCodeMethod_vmap_table env cm o3 w3 = (vo, o4, w4)"
      by (cases "InitOatCodeMethod_vmap_table env cm o3 w3") auto
    obtain so o5 w5 where
      s: "InitOatCodeMethod_stub env is_static method_idx dex_file o4 w4 = (so, o5, w5)"
      by (cases "InitOatCodeMethod_stub env is_static method_idx dex_file o4 w4") auto
    have "offset \<le> o1" using InitOatCodeMethod_code_mono [OF al, of offset env w] c by simp
    moreover have "o1 \<le> o2"
      using InitOatCodeMethod_frame_mono [of o1 env "GetFrameSizeInBytes cm"
          "GetCoreSpillMask cm" "GetFpSpillMask cm" w1] f by simp
    moreover have "o2 \<le> o3"
      using InitOatCodeMethod_mapping_table_mono [of o2 env cm w2] m by simp
    moreover have "o3 \<le> o4"
      using InitOatCodeMethod_vmap_table_mono [of o3 env cm w3] v by simp
    moreover have "o4 \<le> o5"
      using InitOatCodeMethod_stub_mono [OF arch, of o4 is_static method_idx dex_file w4] s
      by simp
    ultimately show ?thesis by (simp add: InitOatCodeMethod_offsets_Some [OF Some] c f m v s)
  qed
qed

lemma InitOatCodeMethod_mono:
  assumes "alignments_positive env"
  shows "offset \<le> fst (InitOatCodeMethod env offset w oci cdmi is_static is_direct method_idx
                        dex_file)"
proof -
  obtain mo o1 w1 where
    r: "InitOatCodeMethod_offsets env offset w is_static method_idx dex_file = (mo, o1, w1)"
    by (cases "InitOatCodeMethod_offsets env offset w is_static method_idx dex_file") auto
  show ?thesis
    using InitOatCodeMethod_offsets_mono [OF assms, of offset w is_static method_idx dex_file]
    by (simp add: InitOatCodeMethod_def r)
qed

lemma InitOatCodeClassDef_methods_mono:
  assumes "alignments_positive env"
  shows "offset \<le> fst (InitOatCodeClassDef_methods env d oci ms cdmi offset w)"
proof (induction ms arbitrary: cdmi offset w)
  case Nil show ?case by simp
next
  case (Cons m ms)
  obtain is_static is_direct idx where m: "m = (is_static, is_direct, idx)" by (cases m) auto
  obtain o1 w1 where
    r: "InitOatCodeMethod env offset w oci cdmi is_static is_direct idx d = (o1, w1)"
    by (cases "InitOatCodeMethod env offset w oci cdmi is_static is_direct idx d")
  have "offset \<le> o1"
    using InitOatCodeMethod_mono [OF assms, of offset w oci cdmi is_static is_direct idx d] r
    by simp
  also have "o1 \<le> fst (InitOatCodeClassDef_methods env d oci ms (cdmi + 1) o1 w1)"
    by (rule Cons.IH)
  finally show ?case by (simp add: m r)
qed

lemma InitOatCodeClassDef_mono:
  assumes "alignments_positive env"
  shows "offset \<le> fst (InitOatCodeClassDef env offset w oci d c)"
proof (cases c)
  case None then show ?thesis by (simp add: InitOatCodeClassDef_def)
next
  case (Some cd)
  obtain o1 w1 where
    r: "InitOatCodeClassDef_methods env d oci (direct_entries cd) 0 offset w = (o1, w1)"
    by (cases "InitOatCodeClassDef_methods env d oci (direct_entries cd) 0 offset w")
  have "offset \<le> o1"
    using InitOatCodeClassDef_methods_mono [OF assms, of offset d oci "direct_entries cd" 0 w] r
    by simp
  also have "o1 \<le> fst (InitOatCodeClassDef_methods env d oci (virtual_entries cd)
                         (length (direct_methods cd)) o1 w1)"
    by (rule InitOatCodeClassDef_methods_mono [OF assms])
  finally show ?thesis by (simp add: InitOatCodeClassDef_def Some r)
qed

lemma InitOatCodeDexFile_mono:
  assumes "alignments_positive env"
  shows "offset \<le> fst (snd (InitOatCodeDexFile env d cs oci offset w))"
proof (induction cs arbitrary: oci offset w)
  case Nil show ?case by simp
next
  case (Cons c cs)
  obtain o1 w1 where r: "InitOatCodeClassDef env offset w oci d c = (o1, w1)"
    by (cases "InitOatCodeClassDef env offset w oci d c")
  have "offset \<le> o1" using InitOatCodeClassDef_mono [OF assms, of offset w oci d c] r by simp
  also have "o1 \<le> fst (snd (InitOatCodeDexFile env d cs (oci + 1) o1
      (w1\<lparr>oat_header' :=
            UpdateChecksum env (OatMethods_bytes (oat_methods' w1 ! oci)) (oat_header' w1)\<rparr>)))"
    by (rule Cons.IH)
  finally show ?case by (simp add: r)
qed

lemma InitOatCodeDexFiles_mono:
  assumes "alignments_positive env"
  shows "offset \<le> fst (InitOatCodeDexFiles env ds oci offset w)"
proof (induction ds arbitrary: oci offset w)
  case Nil show ?case by simp
next
  case (Cons d ds)
  obtain k1 o1 w1 where r: "InitOatCodeDexFile env d (class_defs d) oci offset w = (k1, o1, w1)"
    by (cases "InitOatCodeDexFile env d (class_defs d) oci offset w") auto
  have "offset \<le> o1"
    using InitOatCodeDexFile_mono [OF assms, of offset d "class_defs d" oci w] r by simp
  also have "o1 \<le> fst (InitOatCodeDexFiles env ds k1 o1 w1)" by (rule Cons.IH)
  finally show ?case by (simp add: r)
qed

lemma alignments_positive_ex_env: "alignments_positive ex_env"
  by (auto simp: alignments_positive_def ex_env_def ex_method_def ex_empty_method_def
      split: if_splits)

lemma code_layout_frame_refl [simp]: "code_layout_frame w w"
  by (simp add: code_layout_frame_def)

lemma code_layout_frame_trans:
  "code_layout_frame w w1 \<Longrightarrow> code_layout_frame w1 w2 \<Longrightarrow> code_layout_frame w w2"
  by (simp add: code_layout_frame_def)

lemma UpdateChecksum_fields [simp]:
  "executable_offset' (UpdateChecksum env bs h) = executable_offset' h"
  "magic' (UpdateChecksum env bs h) = magic' h"
  "version' (UpdateChecksum env bs h) = version' h"
  "adler32_checksum' (UpdateChecksum env bs h) = foldl (checksum_step env) (adler32_checksum' h) bs"
  by (simp_all add: UpdateChecksum_def)

lemma UpdateChecksum_append:
  "UpdateChecksum env ys (UpdateChecksum env xs h) = UpdateChecksum env (xs @ ys) h"
  by (simp add: UpdateChecksum_def)

text \<open>The blocks of a method leave the methods table as it is.\<close>

lemma InitOatCodeMethod_code_frame:
  "code_layout_frame w (snd (snd (InitOatCodeMethod_code env cm offset w))) \<and>
   oat_methods' (snd (snd (InitOatCodeMethod_code env cm offset w))) = oat_methods' w"
  by (simp add: InitOatCodeMethod_code_def Let_def code_layout_frame_def split: option.splits)

lemma InitOatCodeMethod_frame_frame:
  "code_layout_frame w (snd (InitOatCodeMethod_frame env a b c offset w)) \<and>
   oat_methods' (snd (InitOatCodeMethod_frame env a b c offset w)) = oat_methods' w"
  by (simp add: InitOatCodeMethod_frame_def code_layout_frame_def)

lemma InitOatCodeMethod_mapping_table_frame:
  "code_layout_frame w (snd (snd (InitOatCodeMethod_mapping_table env cm offset w))) \<and>
   oat_methods' (snd (snd (InitOatCodeMethod_mapping_table env cm offset w))) = oat_methods' w"
  by (simp add: InitOatCodeMethod_mapping_table_def Let_def code_layout_frame_def
      split: option.splits)

lemma InitOatCodeMethod_vmap_table_frame:
  "code_layout_frame w (snd (snd (InitOatCodeMethod_vmap_table env cm offset w))) \<and>
   oat_methods' (snd (snd (InitOatCodeMethod_vmap_table env cm offset w))) = oat_methods' w"
  by (simp add: InitOatCodeMethod_vmap_table_def Let_def code_layout_frame_def
      split: option.splits)

lemma InitOatCodeMethod_stub_frame:
  "code_layout_frame w (snd (snd (InitOatCodeMethod_stub env is_static idx d offset w))) \<and>
   oat_methods' (snd (snd (InitOatCodeMethod_stub env is_static idx d offset w))) = oat_methods' w"
  by (simp add: InitOatCodeMethod_stub_def InitOatCodeMethod_invoke_stub_def Let_def
      code_layout_frame_def split: option.splits)

lemma InitOatCodeMethod_offsets_frame:
  "code_layout_frame w (snd (snd (InitOatCodeMethod_offsets env offset w is_static idx d))) \<and>
   oat_methods' (snd (snd (InitOatCodeMethod_offsets env offset w is_static idx d))) = oat_methods' w"
proof (cases "GetCompiledMethod env d idx")
  case None
  obtain o2 w2 where
    f: "InitOatCodeMethod_frame env (kStackAlignment env) 0 0 offset w = (o2, w2)"
    by (cases "InitOatCodeMethod_frame env (kStackAlignment env) 0 0 offset w")
  obtain so o5 w5 where
    s: "InitOatCodeMethod_stub env is_static idx d o2 w2 = (so, o5, w5)"
    by (cases "InitOatCodeMethod_stub env is_static idx d o2 w2") auto
  have 1: "code_layout_frame w w2 \<and> oat_methods' w2 = oat_methods' w"
    using InitOatCodeMethod_frame_frame [of w env "kStackAlignment env" 0 0 offset] f by simp
  have 2: "code_layout_frame w2 w5 \<and> oat_methods' w5 = oat_methods' w2"
    using InitOatCodeMethod_stub_frame [of w2 env is_static idx d o2] s by simp
  show ?thesis
    using 1 2 code_layout_frame_trans [of w w2 w5]
    by (simp add: InitOatCodeMethod_offsets_None [OF None] f s)
next
  case (Some cm)
  obtain co o1 w1 where c: "InitOatCodeMethod_code env cm offset w = (co, o1, w1)"
    by (cases "InitOatCodeMethod_code env cm offset w") auto
  obtain o2 w2 where
    f: "InitOatCodeMethod_frame env (GetFrameSizeInBytes cm) (GetCoreSpillMask cm)
           (GetFpSpillMask cm) o1 w1 = (o2, w2)"
    by (cases "InitOatCodeMethod_frame env (GetFrameSizeInBytes cm) (GetCoreSpillMask cm)
           (GetFpSpillMask cm) o1 w1")
  obtain mo o3 w3 where m: "InitOatCodeMethod_mapping_table env cm o2 w2 = (mo, o3, w3)"
    by (cases "InitOatCodeMethod_mapping_table env cm o2 w2") auto
  obtain vo o4 w4 where v: "InitOatCodeMethod_vmap_table env cm o3 w3 = (vo, o4, w4)"
    by (cases "InitOatCodeMethod_vmap_table env cm o3 w3") auto
  obtain so o5 w5 where
    s: "InitOatCodeMethod_stub env is_static idx d o4 w4 = (so, o5, w5)"
    by (cases "InitOatCodeMethod_stub env is_static idx d o4 w4") auto
  have 1: "code_layout_frame w w1 \<and> oat_methods' w1 = oat_methods' w"
    using InitOatCodeMethod_code_frame [of w env cm offset] c by simp
  have 2: "code_layout_frame w1 w2 \<and> oat_methods' w2 = oat_methods' w1"
    using InitOatCodeMethod_frame_frame [of w1 env "GetFrameSizeInBytes cm"
        "GetCoreSpillMask cm" "GetFpSpillMask cm" o1] f by simp
  have 3: "code_layout_frame w2 w3 \<and> oat_methods' w3 = oat_methods' w2"
    using InitOatCodeMethod_mapping_table_frame [of w2 env cm o2] m by simp
  have 4: "code_layout_frame w3 w4 \<and> oat_methods' w4 = oat_methods' w3"
    using InitOatCodeMethod_vmap_table_frame [of w3 env cm o3] v by simp
  have 5: "code_layout_frame w4 w5 \<and> oat_methods' w5 = oat_methods' w4"
    using InitOatCodeMethod_stub_frame [of w4 env is_static idx d o4] s by simp
  have "code_layout_frame w w5"
    using 1 2 3 4 5 by (meson code_layout_frame_trans)
  then show ?thesis
    using 1 2 3 4 5 by (simp add: InitOatCodeMethod_offsets_Some [OF Some] c f m v s)
qed

text \<open>The value a method stores is the one its blocks computed.\<close>

lemma InitOatCodeMethod_stored:
  assumes "oci < length (oat_methods' w)" and "cdmi < length (oat_methods' w ! oci)"
  shows "oat_methods' (snd (InitOatCodeMethod env offset w oci cdmi is_static is_direct idx d))
           ! oci ! cdmi
         = fst (InitOatCodeMethod_offsets env offset w is_static idx d)"
proof -
  obtain mo o1 w1 where
    r: "InitOatCodeMethod_offsets env offset w is_static idx d = (mo, o1, w1)"
    by (cases "InitOatCodeMethod_offsets env offset w is_static idx d") auto
  have "oat_methods' w1 = oat_methods' w"
    using InitOatCodeMethod_offsets_frame [of w env offset is_static idx d] r by simp
  then show ?thesis using assms by (simp add: InitOatCodeMethod_def r)
qed

lemma map_length_update2:
  "map length (xss[i := (xss ! i)[j := v]]) = map length xss"
  by (cases "i < length xss") (simp_all add: map_update list_update_same_conv list_update_beyond)

lemma InitOatCodeMethod_frame_code:
  "code_layout_frame w (snd (InitOatCodeMethod env offset w oci cdmi is_static is_direct idx d))"
proof -
  obtain mo o1 w1 where
    r: "InitOatCodeMethod_offsets env offset w is_static idx d = (mo, o1, w1)"
    by (cases "InitOatCodeMethod_offsets env offset w is_static idx d") auto
  have "code_layout_frame w w1"
    using InitOatCodeMethod_offsets_frame [of w env offset is_static idx d] r by simp
  then show ?thesis
    by (simp add: InitOatCodeMethod_def r code_layout_frame_def map_length_update2)
qed

lemma le32_eq_0: "le32 x = le32 0 \<Longrightarrow> x = 0"
proof -
  assume a: "le32 x = le32 0"
  have b0: "(ucast x :: byte) = 0" and b1: "(ucast (drop_bit 8 x) :: byte) = 0"
    and b2: "(ucast (drop_bit 16 x) :: byte) = 0" and b3: "(ucast (drop_bit 24 x) :: byte) = 0"
    using a by (simp_all add: le32_def)
  show ?thesis
  proof (rule bit_word_eqI)
    fix n assume n: "n < LENGTH(32)"
    have c0: "n < 8 \<Longrightarrow> \<not> bit x n"
      using b0 by (auto simp: bit_eq_iff bit_ucast_iff dest: spec [of _ n])
    have c1: "8 \<le> n \<Longrightarrow> n < 16 \<Longrightarrow> \<not> bit x n"
      using b1 by (auto simp: bit_eq_iff bit_ucast_iff bit_drop_bit_eq dest!: spec [of _ "n - 8"])
    have c2: "16 \<le> n \<Longrightarrow> n < 24 \<Longrightarrow> \<not> bit x n"
      using b2 by (auto simp: bit_eq_iff bit_ucast_iff bit_drop_bit_eq dest!: spec [of _ "n - 16"])
    have c3: "24 \<le> n \<Longrightarrow> n < 32 \<Longrightarrow> \<not> bit x n"
      using b3 by (auto simp: bit_eq_iff bit_ucast_iff bit_drop_bit_eq dest!: spec [of _ "n - 24"])
    show "bit x n = bit (0 :: u32) n"
      using c0 c1 c2 c3 n by (cases "n < 8"; cases "n < 16"; cases "n < 24") auto
  qed
qed

lemma length_le32 [simp]: "length (le32 x) = 4" by (simp add: le32_def)
lemma length_le16 [simp]: "length (le16 x) = 2" by (simp add: le16_def)

lemmas ex_defs =
  OatWriter_new_def InitOatTables_def InitOatHeader_def ex_env_def ex_dex_def ex_header_def
  sizeof_OatHeader_def OatHeader_bytes_def le32_def le16_def OatDexFile_new_def
  OatDexFile_SizeOf_def OatClasses_new_def OatClasses_SizeOf_def OatMethods_new_def
  OatMethods_SizeOf_def num_methods_def InitOatCode_def RoundUp_def direct_entries_def
  virtual_entries_def InitOatCodeClassDef_def InitOatCodeMethod_def
  InitOatCodeMethod_offsets_def InitOatCodeMethod_code_def InitOatCodeMethod_frame_def
  InitOatCodeMethod_mapping_table_def InitOatCodeMethod_vmap_table_def
  InitOatCodeMethod_stub_def InitOatCodeMethod_invoke_stub_def AlignCode_def ex_method_def
  ex_empty_method_def Let_def OatMethodOffsets_zero_def SetExecutableOffset_def
  UpdateChecksum_def OatDexFile_UpdateChecksum_def OatDexFile_location_def
  OatClasses_bytes_def OatMethods_bytes_def OatMethodOffsets_bytes_def
  mapping_table_bytes_def vmap_table_bytes_def

text \<open>
  Claim C3, as the code has it. A method for which \<^verbatim>\<open>GetCompiledMethod\<close> gives nothing
  stores 0 for \<^verbatim>\<open>code_offset\<close>, the two spill masks, \<^verbatim>\<open>mapping_table_offset\<close> and
  \<^verbatim>\<open>vmap_table_offset\<close>, and \<^verbatim>\<open>kStackAlignment\<close> for \<^verbatim>\<open>frame_size_in_bytes\<close> (line 189);
  \<^verbatim>\<open>invoke_stub_offset\<close> is what the stub step gives after the three frame words.
\<close>

theorem abstract_method_layout:
  assumes "GetCompiledMethod env dex_file method_idx = None"
    and "oat_class_index < length (oat_methods' w)"
    and "class_def_method_index < length (oat_methods' w ! oat_class_index)"
  shows "oat_methods' (snd (InitOatCodeMethod env offset w oat_class_index class_def_method_index
                              is_static is_direct method_idx dex_file))
           ! oat_class_index ! class_def_method_index
         = \<lparr>code_offset' = 0, frame_size_in_bytes' = kStackAlignment env,
            core_spill_mask' = 0, fp_spill_mask' = 0,
            mapping_table_offset' = 0, vmap_table_offset' = 0,
            invoke_stub_offset' =
              fst (case InitOatCodeMethod_frame env (kStackAlignment env) 0 0 offset w of
                     (offset2, w2) \<Rightarrow>
                       InitOatCodeMethod_stub env is_static method_idx dex_file offset2 w2)\<rparr>"
proof -
  obtain o2 w2 where
    f: "InitOatCodeMethod_frame env (kStackAlignment env) 0 0 offset w = (o2, w2)"
    by (cases "InitOatCodeMethod_frame env (kStackAlignment env) 0 0 offset w")
  obtain so o5 w5 where
    s: "InitOatCodeMethod_stub env is_static method_idx dex_file o2 w2 = (so, o5, w5)"
    by (cases "InitOatCodeMethod_stub env is_static method_idx dex_file o2 w2") auto
  have "fst (InitOatCodeMethod_offsets env offset w is_static method_idx dex_file)
        = \<lparr>code_offset' = 0, frame_size_in_bytes' = kStackAlignment env,
            core_spill_mask' = 0, fp_spill_mask' = 0,
            mapping_table_offset' = 0, vmap_table_offset' = 0, invoke_stub_offset' = so\<rparr>"
    by (simp add: InitOatCodeMethod_offsets_None [OF assms(1)] f s)
  then show ?thesis
    by (simp add: InitOatCodeMethod_stored [OF assms(2,3)] f s)
qed

theorem abstract_method_layout_witness:
  "GetCompiledMethod ex_env ex_dex 3 = None \<and>
   0 < length (oat_methods' (snd (InitOatTables ex_env [ex_dex]))) \<and>
   3 < length (oat_methods' (snd (InitOatTables ex_env [ex_dex])) ! 0) \<and>
   oat_methods' (snd (InitOatCodeMethod ex_env 4164 (snd (InitOatTables ex_env [ex_dex])) 0 3
                        False False 3 ex_dex)) ! 0 ! 3
     = \<lparr>code_offset' = 0, frame_size_in_bytes' = 16, core_spill_mask' = 0, fp_spill_mask' = 0,
        mapping_table_offset' = 0, vmap_table_offset' = 0, invoke_stub_offset' = 0\<rparr>"
proof -
  have 1: "GetCompiledMethod ex_env ex_dex 3 = None" by (simp add: ex_env_def)
  have 2: "0 < length (oat_methods' (snd (InitOatTables ex_env [ex_dex])))"
    by (simp add: ex_defs)
  have 3: "3 < length (oat_methods' (snd (InitOatTables ex_env [ex_dex])) ! 0)"
    by (simp add: ex_defs)
  show ?thesis
    using abstract_method_layout [OF 1 2 3, of 4164 False False] 1 2 3
    by (simp add: InitOatCodeMethod_frame_def InitOatCodeMethod_stub_def ex_env_def)
qed

text \<open>
  Claim C3 as the spec states it fails: the last method of the small input has no compiled
  method, and the layout stores the frame size 16, the value of \<^verbatim>\<open>kStackAlignment\<close>.
\<close>

theorem abstract_method_fields_counterexample:
  "GetCompiledMethod ex_env ex_dex 3 = None \<and>
   frame_size_in_bytes' (oat_methods' (snd (OatWriter_new ex_env [ex_dex])) ! 0 ! 3) = 16 \<and>
   frame_size_in_bytes' (oat_methods' (snd (OatWriter_new ex_env [ex_dex])) ! 0 ! 3) \<noteq> 0"
  by (simp add: ex_defs)

subsection \<open>The executable section starts on a page boundary\<close>

lemma InitOatCodeClassDef_methods_frame:
  "code_layout_frame w (snd (InitOatCodeClassDef_methods env d oci ms cdmi offset w))"
proof (induction ms arbitrary: cdmi offset w)
  case Nil show ?case by simp
next
  case (Cons m ms)
  obtain is_static is_direct idx where m: "m = (is_static, is_direct, idx)" by (cases m) auto
  obtain o1 w1 where
    r: "InitOatCodeMethod env offset w oci cdmi is_static is_direct idx d = (o1, w1)"
    by (cases "InitOatCodeMethod env offset w oci cdmi is_static is_direct idx d")
  have a: "code_layout_frame w w1"
    using InitOatCodeMethod_frame_code [of w env offset oci cdmi is_static is_direct idx d] r
    by simp
  have b: "code_layout_frame w1 (snd (InitOatCodeClassDef_methods env d oci ms (cdmi + 1) o1 w1))"
    by (rule Cons.IH)
  show ?case using code_layout_frame_trans [OF a b] by (simp add: m r)
qed

lemma InitOatCodeClassDef_frame:
  "code_layout_frame w (snd (InitOatCodeClassDef env offset w oci d c))"
proof (cases c)
  case None then show ?thesis by (simp add: InitOatCodeClassDef_def)
next
  case (Some cd)
  obtain o1 w1 where
    r: "InitOatCodeClassDef_methods env d oci (direct_entries cd) 0 offset w = (o1, w1)"
    by (cases "InitOatCodeClassDef_methods env d oci (direct_entries cd) 0 offset w")
  have a: "code_layout_frame w w1"
    using InitOatCodeClassDef_methods_frame [of w env d oci "direct_entries cd" 0 offset] r
    by simp
  have b: "code_layout_frame w1
      (snd (InitOatCodeClassDef_methods env d oci (virtual_entries cd)
              (length (direct_methods cd)) o1 w1))"
    by (rule InitOatCodeClassDef_methods_frame)
  show ?thesis
    using code_layout_frame_trans [OF a b] by (simp add: InitOatCodeClassDef_def Some r)
qed

lemma code_layout_frame_checksum:
  "code_layout_frame w (w\<lparr>oat_header' := UpdateChecksum env bs (oat_header' w)\<rparr>)"
  by (simp add: code_layout_frame_def)

lemma InitOatCodeDexFile_frame:
  "code_layout_frame w (snd (snd (InitOatCodeDexFile env d cs oci offset w)))"
proof (induction cs arbitrary: oci offset w)
  case Nil show ?case by simp
next
  case (Cons c cs)
  obtain o1 w1 where r: "InitOatCodeClassDef env offset w oci d c = (o1, w1)"
    by (cases "InitOatCodeClassDef env offset w oci d c")
  define w2 where
    "w2 = w1\<lparr>oat_header' :=
                UpdateChecksum env (OatMethods_bytes (oat_methods' w1 ! oci)) (oat_header' w1)\<rparr>"
  have a: "code_layout_frame w w1"
    using InitOatCodeClassDef_frame [of w env offset oci d c] r by simp
  have b: "code_layout_frame w1 w2" unfolding w2_def by (rule code_layout_frame_checksum)
  have c: "code_layout_frame w2 (snd (snd (InitOatCodeDexFile env d cs (oci + 1) o1 w2)))"
    by (rule Cons.IH)
  have "InitOatCodeDexFile env d (c # cs) oci offset w
          = InitOatCodeDexFile env d cs (oci + 1) o1 w2"
    by (simp add: r w2_def)
  then show ?case
    using code_layout_frame_trans [OF code_layout_frame_trans [OF a b] c] by simp
qed

lemma InitOatCodeDexFiles_frame:
  "code_layout_frame w (snd (InitOatCodeDexFiles env ds oci offset w))"
proof (induction ds arbitrary: oci offset w)
  case Nil show ?case by simp
next
  case (Cons d ds)
  obtain k1 o1 w1 where r: "InitOatCodeDexFile env d (class_defs d) oci offset w = (k1, o1, w1)"
    by (cases "InitOatCodeDexFile env d (class_defs d) oci offset w") auto
  have a: "code_layout_frame w w1"
    using InitOatCodeDexFile_frame [of w env d "class_defs d" oci offset] r by simp
  have b: "code_layout_frame w1 (snd (InitOatCodeDexFiles env ds k1 o1 w1))"
    by (rule Cons.IH)
  show ?case using code_layout_frame_trans [OF a b] by (simp add: r)
qed

lemma OatWriter_new_tables:
  "OatWriter_new env dex_files =
     (case InitOatTables env dex_files of (offset3, w3) \<Rightarrow>
      case InitOatCode env offset3 w3 of (offset4, w4) \<Rightarrow>
      InitOatCodeDexFiles env dex_files 0 offset4 w4)"
  by (simp add: OatWriter_new_def InitOatTables_def split: prod.splits)

text \<open>The cursor of the tables is the byte length of the header and of the tables.\<close>

lemma sizeof_OatHeader_UpdateChecksum [simp]:
  "sizeof_OatHeader (UpdateChecksum env bs h) = sizeof_OatHeader h"
  by (simp add: sizeof_OatHeader_def OatHeader_bytes_def)

lemma sizeof_OatHeader_OatDexFile_UpdateChecksum [simp]:
  "sizeof_OatHeader (OatDexFile_UpdateChecksum env d h) = sizeof_OatHeader h"
  by (simp add: OatDexFile_UpdateChecksum_def)

lemma map_update_same:
  "f v = f (xs ! i) \<Longrightarrow> map f (xs[i := v]) = map f xs"
  by (cases "i < length xs") (simp_all add: map_update list_update_same_conv list_update_beyond)

lemma InitOatDexFiles_size:
  "fst (InitOatDexFiles ds offset w) + tables_size w
     = offset + tables_size (snd (InitOatDexFiles ds offset w))"
proof (induction ds arbitrary: offset w)
  case Nil show ?case by simp
next
  case (Cons d ds)
  show ?case
    using Cons.IH [of "offset + OatDexFile_SizeOf (OatDexFile_new d)"
        "w\<lparr>oat_dex_files' := oat_dex_files' w @ [OatDexFile_new d]\<rparr>"]
    by (simp add: Let_def tables_size_def)
qed

lemma InitOatClasses_size:
  "fst (InitOatClasses env ds i offset w) + tables_size w
     = offset + tables_size (snd (InitOatClasses env ds i offset w))"
proof (induction ds arbitrary: i offset w)
  case Nil show ?case by simp
next
  case (Cons d ds)
  let ?d = "(oat_dex_files' w ! i)\<lparr>classes_offset' := of_nat offset\<rparr>"
  let ?w = "w\<lparr>oat_dex_files' := (oat_dex_files' w)[i := ?d],
              oat_header' := OatDexFile_UpdateChecksum env ?d (oat_header' w),
              oat_classes' := oat_classes' w @ [OatClasses_new d]\<rparr>"
  have "map OatDexFile_SizeOf ((oat_dex_files' w)[i := ?d]) = map OatDexFile_SizeOf (oat_dex_files' w)"
    by (rule map_update_same) (simp add: OatDexFile_SizeOf_def)
  then have "tables_size ?w = tables_size w + OatClasses_SizeOf (OatClasses_new d)"
    by (simp add: tables_size_def)
  then show ?case
    using Cons.IH [of "i + 1" "offset + OatClasses_SizeOf (OatClasses_new d)" ?w]
    by (simp add: Let_def)
qed

lemma InitOatMethods_classes_size:
  "fst (InitOatMethods_classes cs i k offset w) + tables_size w
     = offset + tables_size (snd (InitOatMethods_classes cs i k offset w))"
proof (induction cs arbitrary: k offset w)
  case Nil show ?case by simp
next
  case (Cons c cs)
  let ?m = "OatMethods_new (num_methods c)"
  let ?w = "w\<lparr>oat_classes' :=
                 (oat_classes' w)[i := (oat_classes' w ! i)[k := of_nat offset]],
              oat_methods' := oat_methods' w @ [?m]\<rparr>"
  have "map OatClasses_SizeOf ((oat_classes' w)[i := (oat_classes' w ! i)[k := of_nat offset]])
        = map OatClasses_SizeOf (oat_classes' w)"
    by (rule map_update_same) (simp add: OatClasses_SizeOf_def)
  then have "tables_size ?w = tables_size w + OatMethods_SizeOf ?m"
    by (simp add: tables_size_def)
  then show ?case
    using Cons.IH [of "k + 1" "offset + OatMethods_SizeOf ?m" ?w]
    by (simp add: Let_def)
qed

lemma InitOatMethods_size:
  "fst (InitOatMethods env ds i offset w) + tables_size w
     = offset + tables_size (snd (InitOatMethods env ds i offset w))"
proof (induction ds arbitrary: i offset w)
  case Nil show ?case by simp
next
  case (Cons d ds)
  obtain o1 w1 where r: "InitOatMethods_classes (class_defs d) i 0 offset w = (o1, w1)"
    by (cases "InitOatMethods_classes (class_defs d) i 0 offset w")
  let ?w = "w1\<lparr>oat_header' :=
                  UpdateChecksum env (OatClasses_bytes (oat_classes' w1 ! i)) (oat_header' w1)\<rparr>"
  have 1: "o1 + tables_size w = offset + tables_size w1"
    using InitOatMethods_classes_size [of "class_defs d" i 0 offset w] r by simp
  have 2: "tables_size ?w = tables_size w1" by (simp add: tables_size_def)
  show ?case
    using Cons.IH [of "i + 1" o1 ?w] 1 2 by (simp add: r)
qed

lemma InitOatTables_size:
  "fst (InitOatTables env dex_files) = tables_size (snd (InitOatTables env dex_files))"
proof -
  obtain o0 w0 where h: "InitOatHeader env dex_files = (o0, w0)"
    by (cases "InitOatHeader env dex_files")
  obtain o1 w1 where d: "InitOatDexFiles dex_files o0 w0 = (o1, w1)"
    by (cases "InitOatDexFiles dex_files o0 w0")
  obtain o2 w2 where c: "InitOatClasses env dex_files 0 o1 w1 = (o2, w2)"
    by (cases "InitOatClasses env dex_files 0 o1 w1")
  obtain o3 w3 where m: "InitOatMethods env dex_files 0 o2 w2 = (o3, w3)"
    by (cases "InitOatMethods env dex_files 0 o2 w2")
  have 0: "o0 = tables_size w0"
    using h by (auto simp: InitOatHeader_def Let_def tables_size_def)
  have 1: "o1 + tables_size w0 = o0 + tables_size w1"
    using InitOatDexFiles_size [of dex_files o0 w0] d by simp
  have 2: "o2 + tables_size w1 = o1 + tables_size w2"
    using InitOatClasses_size [of env dex_files 0 o1 w1] c by simp
  have 3: "o3 + tables_size w2 = o2 + tables_size w3"
    using InitOatMethods_size [of env dex_files 0 o2 w2] m by simp
  have "o3 = tables_size w3" using 0 1 2 3 by simp
  then show ?thesis by (simp add: InitOatTables_def h d c m)
qed

lemma code_layout_frame_tables_size:
  "code_layout_frame w w1 \<Longrightarrow> tables_size w1 = tables_size w"
proof -
  assume a: "code_layout_frame w w1"
  have "map OatMethods_SizeOf (oat_methods' w1) = map (\<lambda>n. 28 * n) (map length (oat_methods' w1))"
    by (simp add: OatMethods_SizeOf_def comp_def)
  also have "\<dots> = map (\<lambda>n. 28 * n) (map length (oat_methods' w))"
    using a by (simp add: code_layout_frame_def)
  also have "\<dots> = map OatMethods_SizeOf (oat_methods' w)"
    by (simp add: OatMethods_SizeOf_def comp_def)
  finally show ?thesis
    using a by (simp add: tables_size_def code_layout_frame_def sizeof_OatHeader_def
        OatHeader_bytes_def le32_def)
qed

lemma OatWriter_new_header:
  assumes "InitOatTables env dex_files = (offset3, w3)"
  shows "executable_offset' (oat_header' (snd (OatWriter_new env dex_files)))
           = of_nat (RoundUp offset3 (kPageSize env)) \<and>
         executable_offset_padding_length' (snd (OatWriter_new env dex_files))
           = RoundUp offset3 (kPageSize env) - offset3 \<and>
         tables_size (snd (OatWriter_new env dex_files)) = offset3"
proof -
  let ?e = "RoundUp offset3 (kPageSize env)"
  let ?w4 = "w3\<lparr>oat_header' := SetExecutableOffset ?e (oat_header' w3),
                executable_offset_padding_length' := ?e - offset3\<rparr>"
  have n: "OatWriter_new env dex_files = InitOatCodeDexFiles env dex_files 0 ?e ?w4"
    by (simp add: OatWriter_new_tables assms InitOatCode_def Let_def)
  have f: "code_layout_frame ?w4 (snd (OatWriter_new env dex_files))"
    unfolding n by (rule InitOatCodeDexFiles_frame)
  have t3: "tables_size w3 = offset3"
    using InitOatTables_size [of env dex_files] assms by simp
  have "tables_size ?w4 = tables_size w3"
    by (simp add: tables_size_def SetExecutableOffset_def sizeof_OatHeader_def
        OatHeader_bytes_def le32_def)
  then have "tables_size (snd (OatWriter_new env dex_files)) = offset3"
    using code_layout_frame_tables_size [OF f] t3 by simp
  then show ?thesis
    using f by (simp add: code_layout_frame_def SetExecutableOffset_def)
qed

lemma unat_of_nat_u32: "n < 2 ^ 32 \<Longrightarrow> unat (of_nat n :: u32) = n"
  by (simp add: unat_of_nat)

text \<open>
  Claim C5. Where the page size is positive and the rounded cursor fits the 32-bit field of
  the header, the offset of the executable section in the header after the layout is a
  multiple of the page size, is at least the cursor at the end of the last table, which is
  the byte length of the header and of all the tables, and the padding length is the
  rounded offset minus that cursor.
\<close>

theorem executable_offset_page_aligned:
  assumes "0 < kPageSize env"
    and "RoundUp (fst (InitOatTables env dex_files)) (kPageSize env) < 2 ^ 32"
  shows "kPageSize env dvd unat (executable_offset' (oat_header' (snd (OatWriter_new env dex_files)))) \<and>
         fst (InitOatTables env dex_files)
           \<le> unat (executable_offset' (oat_header' (snd (OatWriter_new env dex_files)))) \<and>
         executable_offset_padding_length' (snd (OatWriter_new env dex_files))
           = unat (executable_offset' (oat_header' (snd (OatWriter_new env dex_files))))
             - fst (InitOatTables env dex_files) \<and>
         fst (InitOatTables env dex_files) = tables_size (snd (OatWriter_new env dex_files))"
proof -
  obtain offset3 w3 where t: "InitOatTables env dex_files = (offset3, w3)"
    by (cases "InitOatTables env dex_files")
  have e: "unat (executable_offset' (oat_header' (snd (OatWriter_new env dex_files))))
             = RoundUp offset3 (kPageSize env)"
    using OatWriter_new_header [OF t] assms(2) t by (simp add: unat_of_nat_u32)
  show ?thesis
    using e OatWriter_new_header [OF t] RoundUp_ge [OF assms(1), of offset3]
      RoundUp_dvd [of "kPageSize env" offset3] t
    by simp
qed

theorem executable_offset_page_aligned_witness:
  "0 < kPageSize ex_env \<and>
   RoundUp (fst (InitOatTables ex_env [ex_dex])) (kPageSize ex_env) < 2 ^ 32 \<and>
   fst (InitOatTables ex_env [ex_dex]) = 149 \<and>
   kPageSize ex_env dvd unat (executable_offset' (oat_header' (snd (OatWriter_new ex_env [ex_dex])))) \<and>
   149 \<le> unat (executable_offset' (oat_header' (snd (OatWriter_new ex_env [ex_dex])))) \<and>
   executable_offset_padding_length' (snd (OatWriter_new ex_env [ex_dex]))
     = unat (executable_offset' (oat_header' (snd (OatWriter_new ex_env [ex_dex])))) - 149 \<and>
   149 = tables_size (snd (OatWriter_new ex_env [ex_dex]))"
proof -
  have 1: "0 < kPageSize ex_env" by (simp add: ex_env_def)
  have 3: "fst (InitOatTables ex_env [ex_dex]) = 149" by (simp add: ex_defs)
  have 2: "RoundUp (fst (InitOatTables ex_env [ex_dex])) (kPageSize ex_env) < 2 ^ 32"
    unfolding 3 by (simp add: RoundUp_def ex_env_def)
  show ?thesis
    using executable_offset_page_aligned [OF 1 2] 1 2 3 by simp
qed

subsection \<open>A failed call ends the emit pass\<close>

lemma io_ok_refl [simp]: "io_ok f f"
  by (simp add: io_ok_def)

lemma io_ok_trans: "io_ok f g \<Longrightarrow> io_ok g h \<Longrightarrow> io_ok f h"
  by (fastforce simp: io_ok_def)

lemma io_ok_failed: "io_ok f g \<Longrightarrow> io_failed g h \<Longrightarrow> io_failed f h"
proof -
  assume "io_ok f g" and "io_failed g h"
  then obtain u1 u2 where 1: "io_results f = u1 @ io_results g" "False \<notin> set u1"
    and 2: "io_results g = u2 @ False # io_results h" "False \<notin> set u2"
    by (auto simp: io_ok_def io_failed_def)
  have "io_results f = (u1 @ u2) @ False # io_results h \<and> False \<notin> set (u1 @ u2)"
    using 1 2 by simp
  then show ?thesis unfolding io_failed_def by blast
qed

lemma emit_result_refl [simp]: "emit_result f s f"
  by (simp add: emit_result_def)

lemma emit_result_seq:
  assumes "emit_result f True g" and "emit_result g s h"
  shows "emit_result f s h"
proof -
  have ok: "io_ok f g" and p1: "prefix (log f) (log g)"
    using assms(1) by (simp_all add: emit_result_def)
  have p2: "prefix (log g) (log h)" using assms(2) by (simp add: emit_result_def)
  have p: "prefix (log f) (log h)" using p1 p2 by (rule prefix_order.trans)
  show ?thesis
  proof (cases "io_ok g h")
    case True
    then show ?thesis using io_ok_trans [OF ok True] p by (simp add: emit_result_def)
  next
    case False
    then have f: "\<not> s" "io_failed g h" "log h \<noteq> log g"
      using assms(2) by (auto simp: emit_result_def)
    obtain zs where zs: "log h = log g @ zs" using p2 by (auto elim: prefixE)
    have "length (log g) < length (log h)" using zs f(3) by (cases zs) auto
    moreover have "length (log f) \<le> length (log g)" using p1 by (rule prefix_length_le)
    ultimately have "log h \<noteq> log f" by auto
    then show ?thesis using io_ok_failed [OF ok f(2)] f(1) p by (simp add: emit_result_def)
  qed
qed

lemma emit_result_PLOG: "emit_result f s g \<Longrightarrow> emit_result f False (PLOG d g)"
proof -
  assume a: "emit_result f s g"
  have p: "prefix (log f) (log g)" using a by (simp add: emit_result_def)
  have "length (log f) \<le> length (log g)" using p by (rule prefix_length_le)
  moreover have "length (log (PLOG d g)) = Suc (length (log g))" by (simp add: PLOG_def)
  ultimately have "length (log (PLOG d g)) \<noteq> length (log f)" by simp
  then have ne: "log (PLOG d g) \<noteq> log f" by auto
  have p': "prefix (log f) (log (PLOG d g))" using p by (simp add: PLOG_def)
  have io: "io_ok f (PLOG d g) = io_ok f g" "io_failed f (PLOG d g) = io_failed f g"
    by (simp_all add: io_ok_def io_failed_def PLOG_def)
  show ?thesis using a ne p' io by (auto simp: emit_result_def)
qed

lemma emit_result_weaken: "emit_result f s g \<Longrightarrow> emit_result f False g"
  by (auto simp: emit_result_def)

lemma io_ok_tl: "\<not> next_call_fails f \<Longrightarrow> io_results g = tl (io_results f) \<Longrightarrow> io_ok f g"
  by (cases "io_results f") (auto simp: io_ok_def next_call_fails_def intro: exI [of _ "[True]"])

lemma io_failed_tl: "next_call_fails f \<Longrightarrow> io_results g = tl (io_results f) \<Longrightarrow> io_failed f g"
  by (cases "io_results f") (auto simp: io_failed_def next_call_fails_def)

lemma WriteFully_result:
  "WriteFully bs f = (ok, g) \<Longrightarrow>
   log g = log f \<and> (if ok then io_ok f g else io_failed f g)"
  by (auto simp: WriteFully_def io_ok_tl io_failed_tl split: if_splits)

lemma WriteFully_or_result: "WriteFully_or d bs f = (ok, g) \<Longrightarrow> emit_result f ok g"
proof -
  assume a: "WriteFully_or d bs f = (ok, g)"
  obtain ok1 g1 where w: "WriteFully bs f = (ok1, g1)" by (cases "WriteFully bs f")
  show ?thesis
  proof (cases ok1)
    case True
    then show ?thesis
      using a w WriteFully_result [OF w] by (auto simp: WriteFully_or_def emit_result_def)
  next
    case False
    then have g: "g = PLOG d g1" "\<not> ok" using a w by (auto simp: WriteFully_or_def)
    have "io_failed f g" using WriteFully_result [OF w] False g
      by (simp add: io_failed_def PLOG_def)
    moreover have "log g = log f @ [d]" using WriteFully_result [OF w] g by (simp add: PLOG_def)
    ultimately show ?thesis using g by (simp add: emit_result_def)
  qed
qed


lemma lseek_cur_result:
  "lseek_cur delta f = (n, g) \<Longrightarrow>
   log g = log f \<and>
   (if next_call_fails f then n = - 1 \<and> io_failed f g
    else n = int (pos f + delta) \<and> io_ok f g)"
  by (auto simp: lseek_cur_def io_ok_tl io_failed_tl split: if_splits)

lemma RoundUp_pow2_not_minus1:
  assumes "(of_nat (RoundUp c (2 ^ k)) :: u32) \<noteq> of_nat c"
  shows "(of_nat (RoundUp c (2 ^ k)) :: u32) \<noteq> - 1"
proof (cases k)
  case 0
  then show ?thesis using assms by (simp add: RoundUp_def)
next
  case (Suc j)
  have "RoundUp c (2 ^ k) = 2 * ((c + 2 ^ k - 1) div 2 ^ k * 2 ^ j)"
    by (simp add: RoundUp_def Suc)
  then have "even (of_nat (RoundUp c (2 ^ k)) :: u32)" by simp
  moreover have "odd (- 1 :: u32)" by simp
  ultimately show ?thesis by metis
qed

lemma WriteCodeMethod_align_result:
  assumes "WriteCodeMethod_align (2 ^ k) d c f = (r, g)"
  shows "emit_result f (r \<noteq> None) g"
proof (cases "(of_nat (RoundUp c (2 ^ k)) :: u32) - of_nat c = 0")
  case True
  then show ?thesis using assms by (simp add: WriteCodeMethod_align_def Let_def)
next
  case False
  then have ne: "(of_nat (RoundUp c (2 ^ k)) :: u32) \<noteq> of_nat c" by simp
  obtain n g1 where
    l: "lseek_cur (unat ((of_nat (RoundUp c (2 ^ k)) :: u32) - of_nat c)) f = (n, g1)"
    by (cases "lseek_cur (unat ((of_nat (RoundUp c (2 ^ k)) :: u32) - of_nat c)) f")
  note lr = lseek_cur_result [OF l]
  show ?thesis
  proof (cases "next_call_fails f")
    case True
    then have n: "n = - 1" and io: "io_failed f g1" using lr by simp_all
    have "(word_of_int n :: u32) \<noteq> of_nat (RoundUp c (2 ^ k))"
      using RoundUp_pow2_not_minus1 [OF ne] n by simp
    then have g: "r = None" "g = PLOG d g1"
      using assms False l by (simp_all add: WriteCodeMethod_align_def Let_def)
    have "log g \<noteq> log f" using lr g by (simp add: PLOG_def)
    moreover have "io_failed f g" using io g by (simp add: io_failed_def PLOG_def)
    moreover have "prefix (log f) (log g)" using lr g by (simp add: PLOG_def)
    ultimately show ?thesis using g by (simp add: emit_result_def)
  next
    case nf: False
    then have io: "io_ok f g1" using lr by simp
    have e1: "emit_result f True g1" using io lr by (simp add: emit_result_def)
    show ?thesis
    proof (cases "(word_of_int n :: u32) \<noteq> of_nat (RoundUp c (2 ^ k))")
      case True
      then have g: "r = None" "g = PLOG d g1"
        using assms False l by (simp_all add: WriteCodeMethod_align_def Let_def)
      show ?thesis using emit_result_PLOG [OF e1, of d] g by simp
    next
      case False
      then have g: "r \<noteq> None" "g = g1"
        using assms \<open>(of_nat (RoundUp c (2 ^ k)) :: u32) - of_nat c \<noteq> 0\<close> l
        by (auto simp: WriteCodeMethod_align_def Let_def)
      show ?thesis using e1 g by simp
    qed
  qed
qed

lemma WriteCodeMethod_dedup_result:
  assumes "WriteCodeMethod_dedup iter offset stored bs d c f = (r, g)"
  shows "emit_result f (r \<noteq> None) g"
proof (cases "iter \<noteq> None \<and> offset \<noteq> unat stored")
  case True
  then show ?thesis using assms by (auto simp: WriteCodeMethod_dedup_def)
next
  case False
  obtain ok g1 where w: "WriteFully bs f = (ok, g1)" by (cases "WriteFully bs f")
  have wo: "WriteFully_or d bs f = (ok, if ok then g1 else PLOG d g1)"
    by (simp add: WriteFully_or_def w)
  have "r \<noteq> None \<longleftrightarrow> ok" "g = (if ok then g1 else PLOG d g1)"
    using assms False w by (auto simp: WriteCodeMethod_dedup_def split: if_splits)
  then show ?thesis using WriteFully_or_result [OF wo] by simp
qed

lemma and_then_result:
  assumes "emit_result f (fst r \<noteq> None) (snd r)"
    and "\<And>c g. r = (Some c, g) \<Longrightarrow> emit_result g (fst (k c g) \<noteq> None) (snd (k c g))"
  shows "emit_result f (fst (and_then r k) \<noteq> None) (snd (and_then r k))"
proof (cases r)
  case (Pair a g)
  show ?thesis
  proof (cases a)
    case None
    then show ?thesis using assms(1) Pair by (simp add: and_then_def)
  next
    case (Some c)
    have 1: "emit_result f True g" using assms(1) Pair Some by simp
    have 2: "emit_result g (fst (k c g) \<noteq> None) (snd (k c g))"
      using assms(2) Pair Some by simp
    show ?thesis using emit_result_seq [OF 1 2] Pair Some by (simp add: and_then_def)
  qed
qed

lemma WriteCodeMethod_align_result2:
  "emit_result f (fst (WriteCodeMethod_align (2 ^ k) d c f) \<noteq> None)
     (snd (WriteCodeMethod_align (2 ^ k) d c f))"
  by (rule WriteCodeMethod_align_result) simp

lemma WriteCodeMethod_dedup_result2:
  "emit_result f (fst (WriteCodeMethod_dedup iter offset stored bs d c f) \<noteq> None)
     (snd (WriteCodeMethod_dedup iter offset stored bs d c f))"
  by (rule WriteCodeMethod_dedup_result) simp

lemma WriteCodeMethod_code_result:
  assumes "code_alignment cm = 2 ^ k"
  shows "emit_result f (fst (WriteCodeMethod_code env w cm mo idx c f) \<noteq> None)
           (snd (WriteCodeMethod_code env w cm mo idx c f))"
  unfolding WriteCodeMethod_code_def assms
  apply (rule and_then_result)
   apply (rule WriteCodeMethod_align_result2)
  apply (rule WriteCodeMethod_dedup_result2)
  done

lemma WriteCodeMethod_invoke_stub_result:
  assumes "arch_alignment env = 2 ^ k"
  shows "emit_result f (fst (WriteCodeMethod_invoke_stub env w stub mo idx c f) \<noteq> None)
           (snd (WriteCodeMethod_invoke_stub env w stub mo idx c f))"
  unfolding WriteCodeMethod_invoke_stub_def assms
  apply (rule and_then_result)
   apply (rule WriteCodeMethod_align_result2)
  apply (rule WriteCodeMethod_dedup_result2)
  done

lemma WriteCodeMethod_stub_result:
  assumes "arch_alignment env = 2 ^ k"
  shows "emit_result f (fst (WriteCodeMethod_stub env w is_static idx d mo c f) \<noteq> None)
           (snd (WriteCodeMethod_stub env w is_static idx d mo c f))"
proof (cases "FindInvokeStub env is_static (GetMethodShorty d idx)")
  case None
  then show ?thesis by (simp add: WriteCodeMethod_stub_def)
next
  case (Some stub)
  show ?thesis
    using WriteCodeMethod_invoke_stub_result [OF assms, of f w stub mo idx c]
    by (simp add: WriteCodeMethod_stub_def Some)
qed

lemma WriteCodeMethod_mapping_table_result:
  "emit_result f (fst (WriteCodeMethod_mapping_table env w cm mo idx c f) \<noteq> None)
     (snd (WriteCodeMethod_mapping_table env w cm mo idx c f))"
  unfolding WriteCodeMethod_mapping_table_def by (rule WriteCodeMethod_dedup_result2)

lemma WriteCodeMethod_vmap_table_result:
  "emit_result f (fst (WriteCodeMethod_vmap_table env w cm mo idx c f) \<noteq> None)
     (snd (WriteCodeMethod_vmap_table env w cm mo idx c f))"
  unfolding WriteCodeMethod_vmap_table_def by (rule WriteCodeMethod_dedup_result2)

lemma WriteCodeMethod_frame_result:
  "emit_result f (fst (WriteCodeMethod_frame a b c idx code_offset f) \<noteq> None)
     (snd (WriteCodeMethod_frame a b c idx code_offset f))"
proof -
  obtain ok1 f1 where
    1: "WriteFully_or (WriteFailure ''method frame size'' idx) (le32 a) f = (ok1, f1)"
    by (cases "WriteFully_or (WriteFailure ''method frame size'' idx) (le32 a) f")
  obtain ok2 f2 where
    2: "WriteFully_or (WriteFailure ''method core spill mask'' idx) (le32 b) f1 = (ok2, f2)"
    by (cases "WriteFully_or (WriteFailure ''method core spill mask'' idx) (le32 b) f1")
  obtain ok3 f3 where
    3: "WriteFully_or (WriteFailure ''method fp spill mask'' idx) (le32 c) f2 = (ok3, f3)"
    by (cases "WriteFully_or (WriteFailure ''method fp spill mask'' idx) (le32 c) f2")
  note r1 = WriteFully_or_result [OF 1] and r2 = WriteFully_or_result [OF 2]
    and r3 = WriteFully_or_result [OF 3]
  show ?thesis
  proof (cases ok1)
    case False
    then show ?thesis using r1 by (simp add: WriteCodeMethod_frame_def 1)
  next
    case t1: True
    show ?thesis
    proof (cases ok2)
      case False
      have "emit_result f False f2" using emit_result_seq [of f f1 ok2 f2] r1 r2 t1 False by simp
      then show ?thesis using t1 False by (simp add: WriteCodeMethod_frame_def 1 2)
    next
      case t2: True
      have "emit_result f True f2" using emit_result_seq [of f f1 ok2 f2] r1 r2 t1 t2 by simp
      then have "emit_result f ok3 f3" using emit_result_seq [of f f2 ok3 f3] r3 by simp
      then show ?thesis using t1 t2 by (cases ok3) (simp_all add: WriteCodeMethod_frame_def 1 2 3)
    qed
  qed
qed

lemma pow2_code_alignment:
  "pow2_alignments env \<Longrightarrow> GetCompiledMethod env d idx = Some cm \<Longrightarrow>
   \<exists>k. code_alignment cm = 2 ^ k"
  unfolding pow2_alignments_def by blast

lemma WriteCodeMethod_blocks_result:
  assumes "pow2_alignments env"
  shows "emit_result f
           (fst (WriteCodeMethod_blocks env w c oci cdmi is_static idx d f) \<noteq> None)
           (snd (WriteCodeMethod_blocks env w c oci cdmi is_static idx d f))"
proof -
  obtain k where arch: "arch_alignment env = 2 ^ k"
    using assms by (auto simp: pow2_alignments_def)
  show ?thesis
  proof (cases "GetCompiledMethod env d idx")
    case None
    show ?thesis
      unfolding WriteCodeMethod_blocks_def Let_def None option.case
      apply (rule and_then_result)
       apply simp
      apply (rule and_then_result)
       apply (rule WriteCodeMethod_frame_result)
      apply (rule and_then_result)
       apply simp
      apply (rule and_then_result)
       apply simp
      apply (rule WriteCodeMethod_stub_result [OF arch])
      done
  next
    case (Some cm)
    obtain j where al: "code_alignment cm = 2 ^ j"
      using pow2_code_alignment [OF assms Some] by blast
    show ?thesis
      unfolding WriteCodeMethod_blocks_def Let_def Some option.case
      apply (rule and_then_result)
       apply (rule WriteCodeMethod_code_result [OF al])
      apply (rule and_then_result)
       apply (rule WriteCodeMethod_frame_result)
      apply (rule and_then_result)
       apply (rule WriteCodeMethod_mapping_table_result)
      apply (rule and_then_result)
       apply (rule WriteCodeMethod_vmap_table_result)
      apply (rule WriteCodeMethod_stub_result [OF arch])
      done
  qed
qed

lemma WriteCodeMethod_result:
  assumes "pow2_alignments env"
  shows "emit_result f (fst (WriteCodeMethod env w c oci cdmi is_static idx d f) \<noteq> 0)
           (snd (WriteCodeMethod env w c oci cdmi is_static idx d f))"
proof -
  obtain r g where b: "WriteCodeMethod_blocks env w c oci cdmi is_static idx d f = (r, g)"
    by (cases "WriteCodeMethod_blocks env w c oci cdmi is_static idx d f")
  have e: "emit_result f (r \<noteq> None) g"
    using WriteCodeMethod_blocks_result [OF assms, of f w c oci cdmi is_static idx d] b by simp
  show ?thesis
  proof (cases r)
    case None
    then show ?thesis using e by (simp add: WriteCodeMethod_def b)
  next
    case (Some c5)
    then have "emit_result f True g" using e by simp
    then show ?thesis
      using emit_result_weaken [of f True g] by (cases "c5 = 0") (simp_all add: WriteCodeMethod_def b Some)
  qed
qed


lemma WriteCodeClassDef_methods_result:
  assumes "pow2_alignments env"
  shows "emit_result f (fst (WriteCodeClassDef_methods env w d oci ms cdmi c f) \<noteq> 0)
           (snd (WriteCodeClassDef_methods env w d oci ms cdmi c f))"
proof (induction ms arbitrary: cdmi c f)
  case Nil
  show ?case using emit_result_weaken [of f True f] by (cases "c = 0") simp_all
next
  case (Cons m ms)
  obtain is_static is_direct idx where m: "m = (is_static, is_direct, idx)" by (cases m) auto
  obtain c1 f1 where r: "WriteCodeMethod env w c oci cdmi is_static idx d f = (c1, f1)"
    by (cases "WriteCodeMethod env w c oci cdmi is_static idx d f")
  have e: "emit_result f (c1 \<noteq> 0) f1"
    using WriteCodeMethod_result [OF assms, of f w c oci cdmi is_static idx d] r by simp
  show ?case
  proof (cases "c1 = 0")
    case True
    then show ?thesis using e by (simp add: m r)
  next
    case False
    then have e1: "emit_result f True f1" using e by simp
    show ?thesis
      using emit_result_seq [OF e1 Cons.IH [of f1 "cdmi + 1" c1]] False by (simp add: m r)
  qed
qed

lemma WriteCodeClassDef_result:
  assumes "pow2_alignments env"
  shows "emit_result f (fst (WriteCodeClassDef env w c oci d cd f) \<noteq> 0)
           (snd (WriteCodeClassDef env w c oci d cd f))"
proof (cases cd)
  case None
  show ?thesis
    using emit_result_weaken [of f True f] by (cases "c = 0") (simp_all add: WriteCodeClassDef_def None)
next
  case (Some x)
  obtain c1 f1 where
    r: "WriteCodeClassDef_methods env w d oci (direct_entries x) 0 c f = (c1, f1)"
    by (cases "WriteCodeClassDef_methods env w d oci (direct_entries x) 0 c f")
  have e: "emit_result f (c1 \<noteq> 0) f1"
    using WriteCodeClassDef_methods_result [OF assms, of f w d oci "direct_entries x" 0 c] r
    by simp
  show ?thesis
  proof (cases "c1 = 0")
    case True
    then show ?thesis using e by (simp add: WriteCodeClassDef_def Some r)
  next
    case False
    then have e1: "emit_result f True f1" using e by simp
    show ?thesis
      using emit_result_seq [OF e1 WriteCodeClassDef_methods_result [OF assms, of f1 w d oci
            "virtual_entries x" "length (direct_methods x)" c1]] False
      by (simp add: WriteCodeClassDef_def Some r)
  qed
qed

lemma WriteCodeDexFile_result:
  assumes "pow2_alignments env"
  shows "emit_result f (fst (snd (WriteCodeDexFile env w d cs oci c f)) \<noteq> 0)
           (snd (snd (WriteCodeDexFile env w d cs oci c f)))"
proof (induction cs arbitrary: oci c f)
  case Nil
  show ?case using emit_result_weaken [of f True f] by (cases "c = 0") simp_all
next
  case (Cons x cs)
  obtain c1 f1 where r: "WriteCodeClassDef env w c oci d x f = (c1, f1)"
    by (cases "WriteCodeClassDef env w c oci d x f")
  have e: "emit_result f (c1 \<noteq> 0) f1"
    using WriteCodeClassDef_result [OF assms, of f w c oci d x] r by simp
  show ?case
  proof (cases "c1 = 0")
    case True
    then show ?thesis using e by (simp add: r)
  next
    case False
    then have e1: "emit_result f True f1" using e by simp
    show ?thesis
      using emit_result_seq [OF e1 Cons.IH [of f1 "oci + 1" c1]] False by (simp add: r)
  qed
qed

lemma WriteCodeDexFiles_result:
  assumes "pow2_alignments env"
  shows "emit_result f (fst (WriteCodeDexFiles env w ds oci c f) \<noteq> 0)
           (snd (WriteCodeDexFiles env w ds oci c f))"
proof (induction ds arbitrary: oci c f)
  case Nil
  show ?case using emit_result_weaken [of f True f] by (cases "c = 0") simp_all
next
  case (Cons d ds)
  obtain k1 c1 f1 where r: "WriteCodeDexFile env w d (class_defs d) oci c f = (k1, c1, f1)"
    by (cases "WriteCodeDexFile env w d (class_defs d) oci c f") auto
  have e: "emit_result f (c1 \<noteq> 0) f1"
    using WriteCodeDexFile_result [OF assms, of f w d "class_defs d" oci c] r by simp
  show ?case
  proof (cases "c1 = 0")
    case True
    then show ?thesis using e by (simp add: r)
  next
    case False
    then have e1: "emit_result f True f1" using e by simp
    show ?thesis
      using emit_result_seq [OF e1 Cons.IH [of f1 k1 c1]] False by (simp add: r)
  qed
qed

lemma OatDexFile_Write_result:
  "emit_result f (fst (OatDexFile_Write d f)) (snd (OatDexFile_Write d f))"
proof -
  obtain ok1 f1 where
    1: "WriteFully_or (Error ''Failed to write dex file location length'')
          (le32 (dex_file_location_size' d)) f = (ok1, f1)"
    by (cases "WriteFully_or (Error ''Failed to write dex file location length'')
          (le32 (dex_file_location_size' d)) f")
  obtain ok2 f2 where
    2: "WriteFully_or (Error ''Failed to write dex file location data'')
          (OatDexFile_location d) f1 = (ok2, f2)"
    by (cases "WriteFully_or (Error ''Failed to write dex file location data'')
          (OatDexFile_location d) f1")
  obtain ok3 f3 where
    3: "WriteFully_or (Error ''Failed to write dex file checksum'')
          (le32 (dex_file_checksum' d)) f2 = (ok3, f3)"
    by (cases "WriteFully_or (Error ''Failed to write dex file checksum'')
          (le32 (dex_file_checksum' d)) f2")
  obtain ok4 f4 where
    4: "WriteFully_or (Error ''Failed to write classes offset'')
          (le32 (classes_offset' d)) f3 = (ok4, f4)"
    by (cases "WriteFully_or (Error ''Failed to write classes offset'')
          (le32 (classes_offset' d)) f3")
  note r1 = WriteFully_or_result [OF 1] and r2 = WriteFully_or_result [OF 2]
    and r3 = WriteFully_or_result [OF 3] and r4 = WriteFully_or_result [OF 4]
  show ?thesis
  proof (cases ok1)
    case False
    then show ?thesis using r1 by (simp add: OatDexFile_Write_def 1)
  next
    case t1: True
    have e2: "emit_result f ok2 f2" using emit_result_seq [of f f1 ok2 f2] r1 r2 t1 by simp
    show ?thesis
    proof (cases ok2)
      case False
      then show ?thesis using e2 t1 by (simp add: OatDexFile_Write_def 1 2)
    next
      case t2: True
      have e3: "emit_result f ok3 f3" using emit_result_seq [of f f2 ok3 f3] e2 r3 t2 by simp
      show ?thesis
      proof (cases ok3)
        case False
        then show ?thesis using e3 t1 t2 by (simp add: OatDexFile_Write_def 1 2 3)
      next
        case t3: True
        have "emit_result f ok4 f4" using emit_result_seq [of f f3 ok4 f4] e3 r4 t3 by simp
        then show ?thesis using t1 t2 t3 by (simp add: OatDexFile_Write_def 1 2 3 4)
      qed
    qed
  qed
qed

lemma OatClasses_Write_result:
  "emit_result f (fst (OatClasses_Write x f)) (snd (OatClasses_Write x f))"
  unfolding OatClasses_Write_def by (rule WriteFully_or_result) simp

lemma OatMethods_Write_result:
  "emit_result f (fst (OatMethods_Write x f)) (snd (OatMethods_Write x f))"
  unfolding OatMethods_Write_def by (rule WriteFully_or_result) simp

lemma WriteTables_loop_result:
  assumes "\<And>x f. emit_result f (fst (wr x f)) (snd (wr x f))"
  shows "emit_result f (fst (WriteTables_loop wr d xs f)) (snd (WriteTables_loop wr d xs f))"
proof (induction xs arbitrary: f)
  case Nil show ?case by simp
next
  case (Cons x xs)
  obtain ok f1 where r: "wr x f = (ok, f1)" by (cases "wr x f")
  have e: "emit_result f ok f1" using assms [of f x] r by simp
  show ?case
  proof (cases ok)
    case False
    then show ?thesis using emit_result_PLOG [OF e, of d] by (simp add: r)
  next
    case True
    then have e1: "emit_result f True f1" using e by simp
    show ?thesis using emit_result_seq [OF e1 Cons.IH [of f1]] True by (simp add: r)
  qed
qed

lemma WriteTables_result:
  "emit_result f (fst (WriteTables w f)) (snd (WriteTables w f))"
proof -
  let ?l1 = "WriteTables_loop OatDexFile_Write (Error ''Failed to write oat dex information'')
               (oat_dex_files' w) f"
  obtain ok1 f1 where 1: "?l1 = (ok1, f1)" by (cases ?l1)
  let ?l2 = "WriteTables_loop OatClasses_Write (Error ''Failed to write oat classes information'')
               (oat_classes' w) f1"
  obtain ok2 f2 where 2: "?l2 = (ok2, f2)" by (cases ?l2)
  let ?l3 = "WriteTables_loop OatMethods_Write (Error ''Failed to write oat methods information'')
               (oat_methods' w) f2"
  have "emit_result f (fst ?l1) (snd ?l1)"
    by (rule WriteTables_loop_result [OF OatDexFile_Write_result])
  then have r1: "emit_result f ok1 f1" using 1 by simp
  have "emit_result f1 (fst ?l2) (snd ?l2)"
    by (rule WriteTables_loop_result [OF OatClasses_Write_result])
  then have r2: "emit_result f1 ok2 f2" using 2 by simp
  have r3: "emit_result f2 (fst ?l3) (snd ?l3)"
    by (rule WriteTables_loop_result [OF OatMethods_Write_result])
  show ?thesis
  proof (cases ok1)
    case False
    then show ?thesis using r1 by (simp add: WriteTables_def 1)
  next
    case t1: True
    have e2: "emit_result f ok2 f2" using emit_result_seq [of f f1 ok2 f2] r1 r2 t1 by simp
    show ?thesis
    proof (cases ok2)
      case False
      then show ?thesis using e2 t1 by (simp add: WriteTables_def 1 2)
    next
      case t2: True
      have "emit_result f (fst ?l3) (snd ?l3)"
        using emit_result_seq [of f f2 "fst ?l3" "snd ?l3"] e2 r3 t2 by simp
      then show ?thesis using t1 t2 by (simp add: WriteTables_def 1 2)
    qed
  qed
qed

lemma WriteCode_result:
  assumes "executable_offset' (oat_header' w) \<noteq> - 1"
  shows "emit_result f (fst (WriteCode w f) \<noteq> 0) (snd (WriteCode w f))"
proof -
  obtain n g1 where l: "lseek_cur (executable_offset_padding_length' w) f = (n, g1)"
    by (cases "lseek_cur (executable_offset_padding_length' w) f")
  note lr = lseek_cur_result [OF l]
  let ?d = "Error ''Failed to seek to oat code section''"
  show ?thesis
  proof (cases "next_call_fails f")
    case True
    then have n: "n = - 1" and io: "io_failed f g1" using lr by simp_all
    have "(word_of_int n :: u32) \<noteq> executable_offset' (oat_header' w)"
      using assms n by simp
    then have g: "WriteCode w f = (0, PLOG ?d g1)"
      using l by (simp add: WriteCode_def Let_def)
    have "log (PLOG ?d g1) \<noteq> log f" using lr by (simp add: PLOG_def)
    moreover have "io_failed f (PLOG ?d g1)" using io by (simp add: io_failed_def PLOG_def)
    moreover have "prefix (log f) (log (PLOG ?d g1))" using lr by (simp add: PLOG_def)
    ultimately show ?thesis using g by (simp add: emit_result_def)
  next
    case False
    then have io: "io_ok f g1" using lr by simp
    have e1: "emit_result f True g1" using io lr by (simp add: emit_result_def)
    show ?thesis
    proof (cases "(word_of_int n :: u32) \<noteq> executable_offset' (oat_header' w)")
      case True
      then have g: "WriteCode w f = (0, PLOG ?d g1)"
        using l by (simp add: WriteCode_def Let_def)
      show ?thesis using emit_result_PLOG [OF e1, of ?d] g by simp
    next
      case False
      then have g: "WriteCode w f = (unat (executable_offset' (oat_header' w)), g1)"
        using l by (simp add: WriteCode_def Let_def)
      show ?thesis
        using e1 emit_result_weaken [OF e1] g
        by (cases "unat (executable_offset' (oat_header' w)) = 0") simp_all
    qed
  qed
qed

lemma Write_result:
  assumes "pow2_alignments env" and "executable_offset' (oat_header' w) \<noteq> - 1"
  shows "emit_result f (fst (Write env ds w f)) (snd (Write env ds w f))"
proof -
  let ?h = "WriteFully_or (Error ''Failed to write oat header'') (OatHeader_bytes (oat_header' w)) f"
  obtain ok0 f0 where 0: "?h = (ok0, f0)" by (cases ?h)
  obtain ok1 f1 where 1: "WriteTables w f0 = (ok1, f1)" by (cases "WriteTables w f0")
  obtain c2 f2 where 2: "WriteCode w f1 = (c2, f2)" by (cases "WriteCode w f1")
  obtain c3 f3 where 3: "WriteCodeDexFiles env w ds 0 c2 f2 = (c3, f3)"
    by (cases "WriteCodeDexFiles env w ds 0 c2 f2")
  have r0: "emit_result f ok0 f0" using WriteFully_or_result [OF 0] .
  have r1: "emit_result f0 ok1 f1" using WriteTables_result [of f0 w] 1 by simp
  have r2: "emit_result f1 (c2 \<noteq> 0) f2" using WriteCode_result [OF assms(2), of f1] 2 by simp
  have r3: "emit_result f2 (c3 \<noteq> 0) f3"
    using WriteCodeDexFiles_result [OF assms(1), of f2 w ds 0 c2] 3 by simp
  show ?thesis
  proof (cases ok0)
    case False
    then show ?thesis using r0 by (simp add: Write_def 0)
  next
    case t0: True
    have e1: "emit_result f ok1 f1" using emit_result_seq [of f f0 ok1 f1] r0 r1 t0 by simp
    show ?thesis
    proof (cases ok1)
      case False
      then show ?thesis
        using emit_result_PLOG [OF e1, of "Error ''Failed to write oat tables''"] t0
        by (simp add: Write_def 0 1)
    next
      case t1: True
      have e2: "emit_result f (c2 \<noteq> 0) f2"
        using emit_result_seq [of f f1 "c2 \<noteq> 0" f2] e1 r2 t1 by simp
      show ?thesis
      proof (cases "c2 = 0")
        case True
        then show ?thesis
          using emit_result_PLOG [OF e2, of "Error ''Failed to write oat code''"] t0 t1
          by (simp add: Write_def 0 1 2)
      next
        case n2: False
        have e3: "emit_result f (c3 \<noteq> 0) f3"
          using emit_result_seq [of f f2 "c3 \<noteq> 0" f3] e2 r3 n2 by simp
        show ?thesis
        proof (cases "c3 = 0")
          case True
          then show ?thesis
            using emit_result_PLOG [OF e3, of "Error ''Failed to write oat code for dex files''"]
              t0 t1 n2
            by (simp add: Write_def 0 1 2 3)
        next
          case False
          then show ?thesis using e3 t0 t1 n2 by (simp add: Write_def 0 1 2 3)
        qed
      qed
    qed
  qed
qed


lemma io_ok_no_failure:
  assumes "io_ok f g" and "io_results f = used @ io_results g"
  shows "False \<notin> set used"
proof -
  obtain u where u: "io_results f = u @ io_results g" "False \<notin> set u"
    using assms(1) by (auto simp: io_ok_def)
  have "length u = length used" using u(1) assms(2) by (metis add_right_cancel length_append)
  then have "u = used" using u(1) assms(2) by (metis append_eq_append_conv)
  then show ?thesis using u(2) by simp
qed

lemma io_failed_last:
  assumes "io_failed f g" and "io_results f = used @ io_results g"
  shows "\<exists>before. used = before @ [False] \<and> False \<notin> set before"
proof -
  obtain u where u: "io_results f = u @ False # io_results g" "False \<notin> set u"
    using assms(1) by (auto simp: io_failed_def)
  have "(u @ [False]) @ io_results g = used @ io_results g" using u(1) assms(2) by simp
  then have "used = u @ [False]" by simp
  then show ?thesis using u(2) by blast
qed

lemma pow2_executable_offset:
  assumes "pow2_alignments env"
  shows "executable_offset' (oat_header' (snd (OatWriter_new env dex_files))) \<noteq> - 1"
proof -
  obtain offset3 w3 where t: "InitOatTables env dex_files = (offset3, w3)"
    by (cases "InitOatTables env dex_files")
  obtain k where k: "kPageSize env = 2 ^ Suc k"
    using assms by (auto simp: pow2_alignments_def)
  have "RoundUp offset3 (kPageSize env) = 2 * ((offset3 + 2 ^ Suc k - 1) div 2 ^ Suc k * 2 ^ k)"
    by (simp add: RoundUp_def k)
  then have "even (of_nat (RoundUp offset3 (kPageSize env)) :: u32)" by simp
  moreover have "odd (- 1 :: u32)" by simp
  ultimately have "(of_nat (RoundUp offset3 (kPageSize env)) :: u32) \<noteq> - 1" by metis
  then show ?thesis using OatWriter_new_header [OF t] by simp
qed

text \<open>
  Where the alignments are powers of two, for every file: when a call of the emit pass fails
  (the outcomes \<open>used\<close> that \<^verbatim>\<open>Write\<close> has consumed hold a \<open>False\<close>), the failing call is
  the last system call the writer makes, the log has grown, and \<^verbatim>\<open>Write\<close> gives \<^verbatim>\<open>false\<close>.
\<close>

lemma failed_call_is_last:
  assumes "pow2_alignments env"
    and "Create env dex_files f = (ok, f1)"
    and "io_results f = used @ io_results f1"
    and "False \<in> set used"
  shows "\<not> ok \<and> (\<exists>before. used = before @ [False] \<and> False \<notin> set before) \<and>
         strict_prefix (log f) (log f1)"
proof -
  let ?w = "snd (OatWriter_new env dex_files)"
  have e: "emit_result f ok f1"
    using Write_result [OF assms(1) pow2_executable_offset [OF assms(1)], of f dex_files dex_files]
      assms(2)
    by (simp add: Create_def)
  have nok: "\<not> io_ok f f1" using io_ok_no_failure [OF _ assms(3)] assms(4) by blast
  then have f: "\<not> ok" "io_failed f f1" "log f1 \<noteq> log f" "prefix (log f) (log f1)"
    using e by (auto simp: emit_result_def)
  show ?thesis using f io_failed_last [OF f(2) assms(3)] by (auto simp: strict_prefix_def)
qed

lemmas emit_defs =
  Create_def Write_def WriteTables_def WriteCode_def WriteFully_or_def WriteFully_def
  lseek_cur_def next_call_fails_def PLOG_def OatDexFile_Write_def OatClasses_Write_def
  OatMethods_Write_def WriteCodeClassDef_def WriteCodeMethod_def WriteCodeMethod_blocks_def
  WriteCodeMethod_code_def WriteCodeMethod_frame_def WriteCodeMethod_mapping_table_def
  WriteCodeMethod_vmap_table_def WriteCodeMethod_stub_def WriteCodeMethod_invoke_stub_def
  WriteCodeMethod_align_def WriteCodeMethod_dedup_def and_then_def

lemma ex_layout_value:
  "OatWriter_new ex_env [ex_dex] =
     (4176,
      \<lparr>oat_header' = \<lparr>magic' = [0x6F, 0x61, 0x74, 0x0A], version' = [0x30, 0x30, 0x31, 0x00],
                       adler32_checksum' = 2007, executable_offset' = 4096\<rparr>,
       oat_dex_files' = [\<lparr>dex_file_location_size' = 1, dex_file_location_data' = [0x61],
                          dex_file_checksum' = 5, classes_offset' = 29\<rparr>],
       oat_classes' = [[37, 149]],
       oat_methods' =
         [[\<lparr>code_offset' = 4097, frame_size_in_bytes' = 32, core_spill_mask' = 0x4DE0,
            fp_spill_mask' = 0, mapping_table_offset' = 4114, vmap_table_offset' = 4118,
            invoke_stub_offset' = 4128\<rparr>,
           \<lparr>code_offset' = 4097, frame_size_in_bytes' = 32, core_spill_mask' = 0x4DE0,
            fp_spill_mask' = 0, mapping_table_offset' = 4114, vmap_table_offset' = 4118,
            invoke_stub_offset' = 0\<rparr>,
           \<lparr>code_offset' = 0, frame_size_in_bytes' = 16, core_spill_mask' = 0,
            fp_spill_mask' = 0, mapping_table_offset' = 0, vmap_table_offset' = 0,
            invoke_stub_offset' = 0\<rparr>,
           \<lparr>code_offset' = 0, frame_size_in_bytes' = 16, core_spill_mask' = 0,
            fp_spill_mask' = 0, mapping_table_offset' = 0, vmap_table_offset' = 0,
            invoke_stub_offset' = 0\<rparr>], []],
       executable_offset_padding_length' = 3947,
       code_offsets' = [100 \<mapsto> 4097, 400 \<mapsto> 4128, 101 \<mapsto> 0],
       mapping_table_offsets' = [200 \<mapsto> 4114, 201 \<mapsto> 0],
       vmap_table_offsets' = [300 \<mapsto> 4118, 301 \<mapsto> 0]\<rparr>)"
  by (simp add: ex_defs)

lemma ex_failing_run:
  "fst (Create ex_env [ex_dex] ex_failing_file) = False \<and>
   io_results (snd (Create ex_env [ex_dex] ex_failing_file)) = [True] \<and>
   log (snd (Create ex_env [ex_dex] ex_failing_file)) =
     [WriteFailure ''mapping table'' 0, Error ''Failed to write oat code for dex files'']"
  unfolding Create_def ex_layout_value snd_conv
  by (simp add: emit_defs ex_failing_file_def ex_defs)


lemma pow2_alignments_ex_env: "pow2_alignments ex_env"
proof -
  have "(4096 :: nat) = 2 ^ Suc 11" by simp
  moreover have "(8 :: nat) = 2 ^ 3" by simp
  ultimately show ?thesis
    unfolding pow2_alignments_def
    by (auto simp: ex_env_def ex_method_def ex_empty_method_def split: if_splits
        simp del: power_Suc intro: exI [of _ 11] exI [of _ 3])
qed


subsection \<open>The two passes as runs over the methods\<close>

lemma layout_run_Nil [simp]: "layout_run env s [] = s"
  by (simp add: layout_run_def)

lemma layout_run_Cons [simp]:
  "layout_run env s (x # xs) = layout_run env (layout_step env s x) xs"
  by (simp add: layout_run_def)

lemma layout_run_append [simp]:
  "layout_run env s (xs @ ys) = layout_run env (layout_run env s xs) ys"
  by (simp add: layout_run_def)

lemma class_items_append:
  "class_items d oci (xs @ ys) k = class_items d oci xs k @ class_items d oci ys (k + length xs)"
  by (induction xs arbitrary: k) auto

lemma InitOatCodeClassDef_methods_run:
  "InitOatCodeClassDef_methods env d oci ms cdmi offset w
     = layout_run env (offset, w) (class_items d oci ms cdmi)"
proof (induction ms arbitrary: cdmi offset w)
  case Nil show ?case by simp
next
  case (Cons m ms)
  obtain is_static is_direct idx where m: "m = (is_static, is_direct, idx)" by (cases m) auto
  obtain o1 w1 where
    r: "InitOatCodeMethod env offset w oci cdmi is_static is_direct idx d = (o1, w1)"
    by (cases "InitOatCodeMethod env offset w oci cdmi is_static is_direct idx d")
  show ?case using Cons.IH [of "cdmi + 1" o1 w1] by (simp add: m r)
qed

lemma InitOatCodeClassDef_run:
  "InitOatCodeClassDef env offset w oci d c
     = layout_run env (offset, w) (class_items d oci (class_entries c) 0)"
proof (cases c)
  case None then show ?thesis by (simp add: InitOatCodeClassDef_def class_entries_def)
next
  case (Some cd)
  obtain o1 w1 where
    r: "layout_run env (offset, w) (class_items d oci (direct_entries cd) 0) = (o1, w1)"
    by (cases "layout_run env (offset, w) (class_items d oci (direct_entries cd) 0)")
  have l: "length (direct_entries cd) = length (direct_methods cd)"
    by (simp add: direct_entries_def)
  show ?thesis
    by (simp add: InitOatCodeClassDef_def Some class_entries_def class_items_append
        InitOatCodeClassDef_methods_run r l)
qed

lemma InitOatCodeDexFile_run:
  "InitOatCodeDexFile env d cs oci offset w
     = (oci + length cs, layout_run env (offset, w) (dex_items d cs oci))"
proof (induction cs arbitrary: oci offset w)
  case Nil show ?case by simp
next
  case (Cons c cs)
  obtain o1 w1 where
    r: "layout_run env (offset, w) (class_items d oci (class_entries c) 0) = (o1, w1)"
    by (cases "layout_run env (offset, w) (class_items d oci (class_entries c) 0)")
  show ?case by (simp add: InitOatCodeClassDef_run r Cons.IH)
qed

lemma InitOatCodeDexFiles_run:
  "InitOatCodeDexFiles env ds oci offset w = layout_run env (offset, w) (all_items ds oci)"
proof (induction ds arbitrary: oci offset w)
  case Nil show ?case by simp
next
  case (Cons d ds)
  obtain o1 w1 where
    r: "layout_run env (offset, w) (dex_items d (class_defs d) oci) = (o1, w1)"
    by (cases "layout_run env (offset, w) (dex_items d (class_defs d) oci)")
  show ?case by (simp add: InitOatCodeDexFile_run r Cons.IH)
qed

lemma OatWriter_new_run:
  "OatWriter_new env dex_files = layout_run env (code_start env dex_files) (all_items dex_files 0)"
  by (simp add: OatWriter_new_tables code_start_def InitOatCodeDexFiles_run split: prod.splits)

lemma emit_run_Nil [simp]: "emit_run env w s [] = s"
  by (simp add: emit_run_def)

lemma emit_run_Cons [simp]:
  "emit_run env w s (x # xs) = emit_run env w (emit_step env w s x) xs"
  by (simp add: emit_run_def)

lemma emit_run_append [simp]:
  "emit_run env w s (xs @ ys) = emit_run env w (emit_run env w s xs) ys"
  by (simp add: emit_run_def)

lemma emit_run_failed [simp]: "emit_run env w (0, f) items = (0, f)"
proof (induction items)
  case Nil show ?case by simp
next
  case (Cons x xs)
  then show ?case by (cases x) simp_all
qed

lemma WriteCodeClassDef_methods_run:
  "c \<noteq> 0 \<Longrightarrow>
   WriteCodeClassDef_methods env w d oci ms cdmi c f
     = emit_run env w (c, f) (class_items d oci ms cdmi)"
proof (induction ms arbitrary: cdmi c f)
  case Nil show ?case by simp
next
  case (Cons m ms)
  obtain is_static is_direct idx where m: "m = (is_static, is_direct, idx)" by (cases m) auto
  obtain c1 f1 where r: "WriteCodeMethod env w c oci cdmi is_static idx d f = (c1, f1)"
    by (cases "WriteCodeMethod env w c oci cdmi is_static idx d f")
  show ?case
  proof (cases "c1 = 0")
    case True
    then show ?thesis using Cons.prems by (simp add: m r)
  next
    case False
    then show ?thesis using Cons.prems Cons.IH [of c1 "cdmi + 1" f1] by (simp add: m r)
  qed
qed

lemma WriteCodeClassDef_run:
  "c \<noteq> 0 \<Longrightarrow>
   WriteCodeClassDef env w c oci d cd f
     = emit_run env w (c, f) (class_items d oci (class_entries cd) 0)"
proof (cases cd)
  case None
  then show ?thesis by (simp add: WriteCodeClassDef_def class_entries_def)
next
  case (Some x)
  assume c: "c \<noteq> 0"
  obtain c1 f1 where
    r: "emit_run env w (c, f) (class_items d oci (direct_entries x) 0) = (c1, f1)"
    by (cases "emit_run env w (c, f) (class_items d oci (direct_entries x) 0)")
  have l: "length (direct_entries x) = length (direct_methods x)"
    by (simp add: direct_entries_def)
  show ?thesis
  proof (cases "c1 = 0")
    case True
    then show ?thesis
      using c by (simp add: WriteCodeClassDef_def Some class_entries_def class_items_append
          WriteCodeClassDef_methods_run r)
  next
    case False
    then show ?thesis
      using c by (simp add: WriteCodeClassDef_def Some class_entries_def class_items_append
          WriteCodeClassDef_methods_run r l)
  qed
qed

lemma WriteCodeDexFile_run:
  "c \<noteq> 0 \<Longrightarrow>
   snd (WriteCodeDexFile env w d cs oci c f) = emit_run env w (c, f) (dex_items d cs oci) \<and>
   (fst (snd (WriteCodeDexFile env w d cs oci c f)) \<noteq> 0 \<longrightarrow>
      fst (WriteCodeDexFile env w d cs oci c f) = oci + length cs)"
proof (induction cs arbitrary: oci c f)
  case Nil show ?case by simp
next
  case (Cons x cs)
  obtain c1 f1 where
    r: "emit_run env w (c, f) (class_items d oci (class_entries x) 0) = (c1, f1)"
    by (cases "emit_run env w (c, f) (class_items d oci (class_entries x) 0)")
  show ?case
  proof (cases "c1 = 0")
    case True
    then show ?thesis using Cons.prems by (simp add: WriteCodeClassDef_run r)
  next
    case False
    then show ?thesis
      using Cons.prems Cons.IH [of c1 "oci + 1" f1] by (simp add: WriteCodeClassDef_run r)
  qed
qed

lemma WriteCodeDexFiles_run:
  "c \<noteq> 0 \<Longrightarrow> WriteCodeDexFiles env w ds oci c f = emit_run env w (c, f) (all_items ds oci)"
proof (induction ds arbitrary: oci c f)
  case Nil show ?case by simp
next
  case (Cons d ds)
  obtain k1 c1 f1 where r: "WriteCodeDexFile env w d (class_defs d) oci c f = (k1, c1, f1)"
    by (cases "WriteCodeDexFile env w d (class_defs d) oci c f") auto
  note l = WriteCodeDexFile_run [OF Cons.prems, of env w d "class_defs d" oci f]
  have e: "emit_run env w (c, f) (dex_items d (class_defs d) oci) = (c1, f1)"
    using l r by simp
  show ?case
  proof (cases "c1 = 0")
    case True
    then show ?thesis by (simp add: r e)
  next
    case False
    then have k1: "k1 = oci + length (class_defs d)" using l r by simp
    show ?thesis using False Cons.IH [OF False, of k1 f1] by (simp add: r e k1)
  qed
qed

subsection \<open>The file when no call fails\<close>

lemma no_failures_next [simp]: "no_failures f \<Longrightarrow> \<not> next_call_fails f"
  by (cases "io_results f") (auto simp: no_failures_def next_call_fails_def)

lemma no_failures_tl: "no_failures f \<Longrightarrow> False \<notin> set (tl (io_results f))"
  by (cases "io_results f") (auto simp: no_failures_def)

lemma file_extends_refl: "file_ok f \<Longrightarrow> file_extends f f"
  by (simp add: file_extends_def)

lemma file_extends_trans: "file_extends f g \<Longrightarrow> file_extends g h \<Longrightarrow> file_extends f h"
  by (auto simp: file_extends_def)

lemma has_bytes_extends: "has_bytes f p bs \<Longrightarrow> file_extends f g \<Longrightarrow> has_bytes g p bs"
  by (auto simp: has_bytes_def file_extends_def prefix_def)

lemma length_padded: "file_ok f \<Longrightarrow> length (padded f) = pos f"
  by (simp add: padded_def file_ok_def)

lemma synced_WriteFully:
  assumes "synced c f"
  shows "WriteFully bs f = (True, snd (WriteFully bs f)) \<and>
         synced (c + length bs) (snd (WriteFully bs f)) \<and>
         log (snd (WriteFully bs f)) = log f \<and>
         padded (snd (WriteFully bs f)) = padded f @ bs \<and>
         file_extends f (snd (WriteFully bs f)) \<and>
         (bs \<noteq> [] \<longrightarrow> has_bytes (snd (WriteFully bs f)) c bs)"
proof (cases "bs = []")
  case True
  then show ?thesis using assms by (simp add: WriteFully_def synced_def file_extends_def)
next
  case False
  have nf: "no_failures f" and ok: "length (contents f) \<le> pos f" and p: "pos f = c"
    using assms by (simp_all add: synced_def file_ok_def)
  define g where
    "g = f\<lparr>contents := padded f @ bs, pos := pos f + length bs, io_results := tl (io_results f)\<rparr>"
  have w: "WriteFully bs f = (True, g)"
    using False nf ok by (simp add: WriteFully_def g_def padded_def)
  have "synced (c + length bs) g"
    using no_failures_tl [OF nf] ok p
    by (simp add: synced_def g_def no_failures_def file_ok_def padded_def)
  moreover have "padded g = padded f @ bs"
    using ok by (simp add: g_def padded_def)
  moreover have "file_extends f g"
    using ok by (simp add: file_extends_def g_def padded_def file_ok_def)
  moreover have "has_bytes g c bs"
    using ok p by (simp add: has_bytes_def g_def padded_def)
  ultimately show ?thesis by (simp add: w g_def)
qed

lemma synced_lseek_cur:
  assumes "synced c f"
  shows "lseek_cur n f = (int (c + n), snd (lseek_cur n f)) \<and>
         synced (c + n) (snd (lseek_cur n f)) \<and>
         log (snd (lseek_cur n f)) = log f \<and>
         padded (snd (lseek_cur n f)) = padded f @ replicate n 0 \<and>
         file_extends f (snd (lseek_cur n f))"
proof -
  have nf: "no_failures f" and ok: "length (contents f) \<le> pos f" and p: "pos f = c"
    using assms by (simp_all add: synced_def file_ok_def)
  have "pos f + n - length (contents f) = (pos f - length (contents f)) + n" using ok by simp
  then have "replicate (pos f + n - length (contents f)) (0 :: byte)
             = replicate (pos f - length (contents f)) 0 @ replicate n 0"
    by (simp add: replicate_add)
  then show ?thesis
    using nf ok p no_failures_tl [OF nf]
    by (simp add: lseek_cur_def synced_def no_failures_def file_ok_def padded_def
        file_extends_def)
qed

lemma of_nat_diff_u32:
  assumes "c \<le> a" and "a < 2 ^ 32"
  shows "unat ((of_nat a :: u32) - of_nat c) = a - c"
proof -
  have "(of_nat a :: u32) - of_nat c = of_nat (a - c)" using assms(1) by simp
  moreover have "a - c < 2 ^ 32" using assms by simp
  ultimately show ?thesis by (simp add: unat_of_nat_u32)
qed

lemma align_sync:
  assumes "synced c f" and "0 < a" and "RoundUp c a < 2 ^ 32"
  shows "WriteCodeMethod_align a d c f = (Some (RoundUp c a), snd (WriteCodeMethod_align a d c f)) \<and>
         synced (RoundUp c a) (snd (WriteCodeMethod_align a d c f)) \<and>
         log (snd (WriteCodeMethod_align a d c f)) = log f \<and>
         padded (snd (WriteCodeMethod_align a d c f)) = padded f @ replicate (RoundUp c a - c) 0 \<and>
         file_extends f (snd (WriteCodeMethod_align a d c f))"
proof -
  have ge: "c \<le> RoundUp c a" using assms(2) by (rule RoundUp_ge)
  have delta: "unat ((of_nat (RoundUp c a) :: u32) - of_nat c) = RoundUp c a - c"
    using of_nat_diff_u32 [OF ge assms(3)] .
  have ok: "file_ok f" using assms(1) by (simp add: synced_def)
  show ?thesis
  proof (cases "RoundUp c a = c")
    case True
    then show ?thesis
      using assms(1) file_extends_refl [OF ok] by (simp add: WriteCodeMethod_align_def)
  next
    case False
    then have "RoundUp c a - c \<noteq> 0" using ge by simp
    then have nz: "(of_nat (RoundUp c a) :: u32) - of_nat c \<noteq> 0"
      using delta by (metis unat_0)
    define g where "g = snd (lseek_cur (RoundUp c a - c) f)"
    note l = synced_lseek_cur [OF assms(1), of "RoundUp c a - c"]
    have c: "c + (RoundUp c a - c) = RoundUp c a" using ge by simp
    have l1: "lseek_cur (RoundUp c a - c) f = (int (RoundUp c a), g)"
      using l c by (simp add: g_def)
    have r: "WriteCodeMethod_align a d c f = (Some (RoundUp c a), g)"
      using nz by (simp add: WriteCodeMethod_align_def Let_def delta l1 c)
    show ?thesis using l c by (simp add: r g_def [symmetric])
  qed
qed

lemma dedup_skip:
  "iter \<noteq> None \<Longrightarrow> offset \<noteq> unat stored \<Longrightarrow>
   WriteCodeMethod_dedup iter offset stored bs d c f = (Some c, f)"
  by (simp add: WriteCodeMethod_dedup_def)

lemma dedup_write:
  assumes "synced c f" and "offset = unat stored"
  shows "WriteCodeMethod_dedup iter offset stored bs d c f
           = (Some (c + length bs), snd (WriteFully bs f)) \<and>
         synced (c + length bs) (snd (WriteFully bs f)) \<and>
         log (snd (WriteFully bs f)) = log f \<and>
         padded (snd (WriteFully bs f)) = padded f @ bs \<and>
         file_extends f (snd (WriteFully bs f)) \<and>
         (bs \<noteq> [] \<longrightarrow> has_bytes (snd (WriteFully bs f)) c bs)"
proof -
  note w = synced_WriteFully [OF assms(1), of bs]
  have w1: "WriteFully bs f = (True, snd (WriteFully bs f))" using w by simp
  have "WriteCodeMethod_dedup iter offset stored bs d c f
          = (Some (c + length bs), snd (WriteFully bs f))"
    unfolding WriteCodeMethod_dedup_def using assms(2) by (subst w1) simp
  then show ?thesis using w by simp
qed

subsection \<open>A deduplicated vector in the two passes\<close>

lemma length_first_bytes_None [simp]: "m k = None \<Longrightarrow> first_bytes m k bs = bs"
  by (simp add: first_bytes_def)

lemma length_first_bytes_Some [simp]: "m k = Some v \<Longrightarrow> first_bytes m k bs = []"
  by (simp add: first_bytes_def)

text \<open>
  The stored offset of a vector whose map is \<open>m\<close> when the layout reaches it at the cursor
  \<open>c\<close>: the offset found in the map, or 0 for an empty vector, or the cursor (with the
  delta).
\<close>

lemma dedup_sync:
  assumes f: "synced c f" and cpos: "0 < c"
    and below: "\<And>v. m k = Some v \<Longrightarrow> unat v < c"
    and key: "iter \<noteq> None"
    and stored: "stored = (case m k of Some v \<Rightarrow> v
                           | None \<Rightarrow> if bs = [] then 0 else of_nat (c + delta))"
    and fits: "m k = None \<Longrightarrow> bs \<noteq> [] \<Longrightarrow> c + delta < 2 ^ 32"
  shows "\<exists>g. WriteCodeMethod_dedup iter (c + delta) stored bs d c f
               = (Some (c + length (first_bytes m k bs)), g) \<and>
             synced (c + length (first_bytes m k bs)) g \<and> log g = log f \<and>
             padded g = padded f @ first_bytes m k bs \<and> file_extends f g \<and>
             (m k = None \<longrightarrow> bs \<noteq> [] \<longrightarrow> has_bytes g c bs \<and> unat stored = c + delta)"
proof -
  have ok: "file_ok f" using f by (simp add: synced_def)
  show ?thesis
  proof (cases "m k")
    case (Some v)
    have "c + delta \<noteq> unat stored" using below [OF Some] stored Some by simp
    then show ?thesis
      using dedup_skip [OF key, of "c + delta" stored bs d c f] f file_extends_refl [OF ok] Some
      by simp
  next
    case None
    show ?thesis
    proof (cases "bs = []")
      case True
      have "c + delta \<noteq> unat stored" using stored None True cpos by simp
      then show ?thesis
        using dedup_skip [OF key, of "c + delta" stored bs d c f] f file_extends_refl [OF ok]
          None True
        by simp
    next
      case False
      have "unat (of_nat (c + delta) :: u32) = c + delta"
        by (rule unat_of_nat_u32 [OF fits [OF None False]])
      then have "unat stored = c + delta"
        using stored None False by (simp del: of_nat_add)
      then show ?thesis
        using dedup_write [OF f, of "c + delta" stored iter bs d] None False by simp
    qed
  qed
qed

text \<open>What each block of the layout computes.\<close>

lemma InitOatCodeMethod_code_eq:
  "InitOatCodeMethod_code env cm offset w =
     (case code_offsets' w (GetCode cm) of
        Some v \<Rightarrow> v
      | None \<Rightarrow> if bytes_at env (GetCode cm) = [] then 0
                else of_nat (AlignCode cm offset + unat (CodeDelta cm)),
      AlignCode cm offset
        + length (first_bytes (code_offsets' w) (GetCode cm) (bytes_at env (GetCode cm))),
      snd (snd (InitOatCodeMethod_code env cm offset w)))"
  by (simp add: InitOatCodeMethod_code_def Let_def split: option.splits)

lemma length_mapping_table_bytes:
  "length (mapping_table_bytes env cm) = length (words_at env (GetMappingTable cm)) * 4"
  by (simp add: mapping_table_bytes_def length_concat comp_def sum_list_triv)

lemma length_vmap_table_bytes:
  "length (vmap_table_bytes env cm) = length (halfs_at env (GetVmapTable cm)) * 2"
  by (simp add: vmap_table_bytes_def length_concat comp_def sum_list_triv)

lemma mapping_table_bytes_Nil:
  "mapping_table_bytes env cm = [] \<longleftrightarrow> words_at env (GetMappingTable cm) = []"
  using length_mapping_table_bytes [of env cm] by (metis length_0_conv mult_is_0 zero_neq_numeral)

lemma vmap_table_bytes_Nil:
  "vmap_table_bytes env cm = [] \<longleftrightarrow> halfs_at env (GetVmapTable cm) = []"
  using length_vmap_table_bytes [of env cm] by (metis length_0_conv mult_is_0 zero_neq_numeral)

lemma InitOatCodeMethod_mapping_table_eq:
  "InitOatCodeMethod_mapping_table env cm offset w =
     (case mapping_table_offsets' w (GetMappingTable cm) of
        Some v \<Rightarrow> v
      | None \<Rightarrow> if mapping_table_bytes env cm = [] then 0 else of_nat offset,
      offset + length (first_bytes (mapping_table_offsets' w) (GetMappingTable cm)
                         (mapping_table_bytes env cm)),
      snd (snd (InitOatCodeMethod_mapping_table env cm offset w)))"
  by (simp add: InitOatCodeMethod_mapping_table_def Let_def length_mapping_table_bytes
      mapping_table_bytes_Nil split: option.splits)

lemma InitOatCodeMethod_vmap_table_eq:
  "InitOatCodeMethod_vmap_table env cm offset w =
     (case vmap_table_offsets' w (GetVmapTable cm) of
        Some v \<Rightarrow> v
      | None \<Rightarrow> if vmap_table_bytes env cm = [] then 0 else of_nat offset,
      offset + length (first_bytes (vmap_table_offsets' w) (GetVmapTable cm)
                         (vmap_table_bytes env cm)),
      snd (snd (InitOatCodeMethod_vmap_table env cm offset w)))"
  by (simp add: InitOatCodeMethod_vmap_table_def Let_def length_vmap_table_bytes
      vmap_table_bytes_Nil split: option.splits)

lemma InitOatCodeMethod_invoke_stub_eq:
  "InitOatCodeMethod_invoke_stub env stub offset w =
     (case code_offsets' w stub of
        Some v \<Rightarrow> v
      | None \<Rightarrow> if bytes_at env stub = [] then 0
                else of_nat (RoundUp offset (arch_alignment env)),
      RoundUp offset (arch_alignment env)
        + length (first_bytes (code_offsets' w) stub (bytes_at env stub)),
      snd (snd (InitOatCodeMethod_invoke_stub env stub offset w)))"
  by (simp add: InitOatCodeMethod_invoke_stub_def Let_def split: option.splits)

text \<open>The maps after each block.\<close>

lemma InitOatCodeMethod_code_maps:
  "code_offsets' (snd (snd (InitOatCodeMethod_code env cm offset w))) =
     (case code_offsets' w (GetCode cm) of
        Some v \<Rightarrow> code_offsets' w
      | None \<Rightarrow> (code_offsets' w)(GetCode cm \<mapsto> fst (InitOatCodeMethod_code env cm offset w)))"
  "mapping_table_offsets' (snd (snd (InitOatCodeMethod_code env cm offset w)))
     = mapping_table_offsets' w"
  "vmap_table_offsets' (snd (snd (InitOatCodeMethod_code env cm offset w)))
     = vmap_table_offsets' w"
  by (simp_all add: InitOatCodeMethod_code_def Let_def split: option.splits)

lemma InitOatCodeMethod_frame_maps:
  "code_offsets' (snd (InitOatCodeMethod_frame env a b c offset w)) = code_offsets' w"
  "mapping_table_offsets' (snd (InitOatCodeMethod_frame env a b c offset w))
     = mapping_table_offsets' w"
  "vmap_table_offsets' (snd (InitOatCodeMethod_frame env a b c offset w))
     = vmap_table_offsets' w"
  "fst (InitOatCodeMethod_frame env a b c offset w) = offset + 12"
  by (simp_all add: InitOatCodeMethod_frame_def)

lemma InitOatCodeMethod_mapping_table_maps:
  "mapping_table_offsets' (snd (snd (InitOatCodeMethod_mapping_table env cm offset w))) =
     (case mapping_table_offsets' w (GetMappingTable cm) of
        Some v \<Rightarrow> mapping_table_offsets' w
      | None \<Rightarrow> (mapping_table_offsets' w)
                  (GetMappingTable cm \<mapsto> fst (InitOatCodeMethod_mapping_table env cm offset w)))"
  "code_offsets' (snd (snd (InitOatCodeMethod_mapping_table env cm offset w)))
     = code_offsets' w"
  "vmap_table_offsets' (snd (snd (InitOatCodeMethod_mapping_table env cm offset w)))
     = vmap_table_offsets' w"
  by (simp_all add: InitOatCodeMethod_mapping_table_def Let_def split: option.splits)

lemma InitOatCodeMethod_vmap_table_maps:
  "vmap_table_offsets' (snd (snd (InitOatCodeMethod_vmap_table env cm offset w))) =
     (case vmap_table_offsets' w (GetVmapTable cm) of
        Some v \<Rightarrow> vmap_table_offsets' w
      | None \<Rightarrow> (vmap_table_offsets' w)
                  (GetVmapTable cm \<mapsto> fst (InitOatCodeMethod_vmap_table env cm offset w)))"
  "code_offsets' (snd (snd (InitOatCodeMethod_vmap_table env cm offset w)))
     = code_offsets' w"
  "mapping_table_offsets' (snd (snd (InitOatCodeMethod_vmap_table env cm offset w)))
     = mapping_table_offsets' w"
  by (simp_all add: InitOatCodeMethod_vmap_table_def Let_def split: option.splits)

lemma InitOatCodeMethod_invoke_stub_maps:
  "code_offsets' (snd (snd (InitOatCodeMethod_invoke_stub env stub offset w))) =
     (case code_offsets' w stub of
        Some v \<Rightarrow> code_offsets' w
      | None \<Rightarrow> (code_offsets' w)(stub \<mapsto> fst (InitOatCodeMethod_invoke_stub env stub offset w)))"
  "mapping_table_offsets' (snd (snd (InitOatCodeMethod_invoke_stub env stub offset w)))
     = mapping_table_offsets' w"
  "vmap_table_offsets' (snd (snd (InitOatCodeMethod_invoke_stub env stub offset w)))
     = vmap_table_offsets' w"
  by (simp_all add: InitOatCodeMethod_invoke_stub_def Let_def split: option.splits)


subsection \<open>The offsets in the maps stay below the cursor\<close>

lemma unat_of_nat_le: "unat (of_nat n :: u32) \<le> n"
  by (simp add: unat_of_nat)

lemma offsets_below_mono: "offsets_below c w \<Longrightarrow> c \<le> c1 \<Longrightarrow> offsets_below c1 w"
  by (fastforce simp: offsets_below_def)

lemma offsets_below_maps:
  "offsets_below c w \<Longrightarrow> code_offsets' w1 = code_offsets' w \<Longrightarrow>
   mapping_table_offsets' w1 = mapping_table_offsets' w \<Longrightarrow>
   vmap_table_offsets' w1 = vmap_table_offsets' w \<Longrightarrow> offsets_below c w1"
  by (simp add: offsets_below_def)

lemma code_frame_below:
  assumes "offsets_below offset w" and "0 < code_alignment cm" and "unat (CodeDelta cm) \<le> 1"
  shows "offsets_below (fst (snd (InitOatCodeMethod_code env cm offset w)) + 12)
           (snd (snd (InitOatCodeMethod_code env cm offset w)))"
proof -
  let ?a = "AlignCode cm offset"
  let ?bs = "bytes_at env (GetCode cm)"
  have ge: "offset \<le> ?a" using assms(2) by (simp add: AlignCode_def RoundUp_ge)
  have new: "unat (if ?bs = [] then 0 else of_nat (?a + unat (CodeDelta cm)) :: u32)
               < ?a + length ?bs + 12"
    using unat_of_nat_le [of "?a + unat (CodeDelta cm)"] assms(3) by (cases "?bs = []") auto
  show ?thesis
  proof (cases "code_offsets' w (GetCode cm)")
    case (Some v)
    have "InitOatCodeMethod_code env cm offset w = (v, ?a, w)"
      by (simp add: InitOatCodeMethod_code_def Let_def Some)
    then show ?thesis using offsets_below_mono [OF assms(1), of "?a + 12"] ge by simp
  next
    case None
    have o1: "fst (snd (InitOatCodeMethod_code env cm offset w)) = ?a + length ?bs"
      by (subst InitOatCodeMethod_code_eq) (simp add: None)
    have co: "fst (InitOatCodeMethod_code env cm offset w)
                = (if ?bs = [] then 0 else of_nat (?a + unat (CodeDelta cm)))"
      by (subst InitOatCodeMethod_code_eq) (simp add: None)
    show ?thesis
      using assms(1) ge new
      unfolding offsets_below_def InitOatCodeMethod_code_maps o1 co None option.case
      by (auto simp del: of_nat_add split: if_splits) fastforce+
  qed
qed

lemma mapping_table_below:
  assumes "offsets_below offset w"
  shows "offsets_below (fst (snd (InitOatCodeMethod_mapping_table env cm offset w)))
           (snd (snd (InitOatCodeMethod_mapping_table env cm offset w)))"
proof (cases "mapping_table_offsets' w (GetMappingTable cm)")
  case (Some v)
  then have "InitOatCodeMethod_mapping_table env cm offset w = (v, offset, w)"
    by (simp add: InitOatCodeMethod_mapping_table_def Let_def)
  then show ?thesis using assms by simp
next
  case None
  let ?bs = "mapping_table_bytes env cm"
  let ?v = "if ?bs = [] then 0 else of_nat offset :: u32"
  have p: "0 < offset" using assms by (simp add: offsets_below_def)
  have new: "unat ?v < offset + length ?bs"
    using unat_of_nat_le [of offset] p by (cases ?bs) auto
  have b: "offsets_below (offset + length ?bs) w" using offsets_below_mono [OF assms] by simp
  have o: "fst (snd (InitOatCodeMethod_mapping_table env cm offset w)) = offset + length ?bs"
    and v: "fst (InitOatCodeMethod_mapping_table env cm offset w) = ?v"
    by (subst InitOatCodeMethod_mapping_table_eq, simp add: None)+
  show ?thesis
    unfolding offsets_below_def InitOatCodeMethod_mapping_table_maps o v None option.case
    using b new by (auto simp: offsets_below_def)
qed

lemma vmap_table_below:
  assumes "offsets_below offset w"
  shows "offsets_below (fst (snd (InitOatCodeMethod_vmap_table env cm offset w)))
           (snd (snd (InitOatCodeMethod_vmap_table env cm offset w)))"
proof (cases "vmap_table_offsets' w (GetVmapTable cm)")
  case (Some v)
  then have "InitOatCodeMethod_vmap_table env cm offset w = (v, offset, w)"
    by (simp add: InitOatCodeMethod_vmap_table_def Let_def)
  then show ?thesis using assms by simp
next
  case None
  let ?bs = "vmap_table_bytes env cm"
  let ?v = "if ?bs = [] then 0 else of_nat offset :: u32"
  have p: "0 < offset" using assms by (simp add: offsets_below_def)
  have new: "unat ?v < offset + length ?bs"
    using unat_of_nat_le [of offset] p by (cases ?bs) auto
  have b: "offsets_below (offset + length ?bs) w" using offsets_below_mono [OF assms] by simp
  have o: "fst (snd (InitOatCodeMethod_vmap_table env cm offset w)) = offset + length ?bs"
    and v: "fst (InitOatCodeMethod_vmap_table env cm offset w) = ?v"
    by (subst InitOatCodeMethod_vmap_table_eq, simp add: None)+
  show ?thesis
    unfolding offsets_below_def InitOatCodeMethod_vmap_table_maps o v None option.case
    using b new by (auto simp: offsets_below_def)
qed

lemma invoke_stub_below:
  assumes "offsets_below offset w" and "0 < arch_alignment env"
  shows "offsets_below (fst (snd (InitOatCodeMethod_invoke_stub env stub offset w)))
           (snd (snd (InitOatCodeMethod_invoke_stub env stub offset w)))"
proof -
  let ?a = "RoundUp offset (arch_alignment env)"
  have ge: "offset \<le> ?a" using assms(2) by (rule RoundUp_ge)
  have ba: "offsets_below ?a w" using offsets_below_mono [OF assms(1) ge] .
  show ?thesis
  proof (cases "code_offsets' w stub")
    case (Some v)
    then have "InitOatCodeMethod_invoke_stub env stub offset w = (v, ?a, w)"
      by (simp add: InitOatCodeMethod_invoke_stub_def Let_def)
    then show ?thesis using ba by simp
  next
    case None
    let ?bs = "bytes_at env stub"
    let ?v = "if ?bs = [] then 0 else of_nat ?a :: u32"
    have p: "0 < ?a" using ba by (simp add: offsets_below_def)
    have new: "unat ?v < ?a + length ?bs"
      using unat_of_nat_le [of ?a] p by (cases ?bs) auto
    have b: "offsets_below (?a + length ?bs) w" using offsets_below_mono [OF ba] by simp
    have o: "fst (snd (InitOatCodeMethod_invoke_stub env stub offset w)) = ?a + length ?bs"
      and v: "fst (InitOatCodeMethod_invoke_stub env stub offset w) = ?v"
      by (subst InitOatCodeMethod_invoke_stub_eq, simp add: None)+
    show ?thesis
      unfolding offsets_below_def InitOatCodeMethod_invoke_stub_maps o v None option.case
      using b new by (auto simp: offsets_below_def)
  qed
qed

lemma stub_below:
  assumes "offsets_below offset w" and "0 < arch_alignment env"
  shows "offsets_below (fst (snd (InitOatCodeMethod_stub env is_static idx d offset w)))
           (snd (snd (InitOatCodeMethod_stub env is_static idx d offset w)))"
  using assms invoke_stub_below [OF assms]
  by (simp add: InitOatCodeMethod_stub_def split: option.splits)


subsection \<open>The maps hold what the methods store\<close>

lemma maps_le_refl [simp]: "maps_le w w"
  by (simp add: maps_le_def)

lemma maps_le_trans: "maps_le w w1 \<Longrightarrow> maps_le w1 w2 \<Longrightarrow> maps_le w w2"
  by (auto simp: maps_le_def intro: map_le_trans)

lemma dedup_map_le:
  "m \<subseteq>\<^sub>m (case m k of Some v \<Rightarrow> m | None \<Rightarrow> m(k \<mapsto> x))"
  by (cases "m k") (auto simp: map_le_def)

lemma dedup_map_key:
  "(case m k of Some v \<Rightarrow> m | None \<Rightarrow> m(k \<mapsto> (case m k of Some v \<Rightarrow> v | None \<Rightarrow> x))) k
     = Some (case m k of Some v \<Rightarrow> v | None \<Rightarrow> x)"
  by (cases "m k") auto

lemma code_keys:
  "maps_le w (snd (snd (InitOatCodeMethod_code env cm offset w))) \<and>
   code_offsets' (snd (snd (InitOatCodeMethod_code env cm offset w))) (GetCode cm)
     = Some (fst (InitOatCodeMethod_code env cm offset w))"
  by (cases "code_offsets' w (GetCode cm)")
     (auto simp: InitOatCodeMethod_code_def Let_def maps_le_def map_le_def)

lemma frame_keys: "maps_le w (snd (InitOatCodeMethod_frame env a b c offset w))"
  by (simp add: maps_le_def InitOatCodeMethod_frame_maps)

lemma mapping_table_keys:
  "maps_le w (snd (snd (InitOatCodeMethod_mapping_table env cm offset w))) \<and>
   mapping_table_offsets' (snd (snd (InitOatCodeMethod_mapping_table env cm offset w)))
     (GetMappingTable cm) = Some (fst (InitOatCodeMethod_mapping_table env cm offset w))"
  by (cases "mapping_table_offsets' w (GetMappingTable cm)")
     (auto simp: InitOatCodeMethod_mapping_table_def Let_def maps_le_def map_le_def)

lemma vmap_table_keys:
  "maps_le w (snd (snd (InitOatCodeMethod_vmap_table env cm offset w))) \<and>
   vmap_table_offsets' (snd (snd (InitOatCodeMethod_vmap_table env cm offset w)))
     (GetVmapTable cm) = Some (fst (InitOatCodeMethod_vmap_table env cm offset w))"
  by (cases "vmap_table_offsets' w (GetVmapTable cm)")
     (auto simp: InitOatCodeMethod_vmap_table_def Let_def maps_le_def map_le_def)

lemma invoke_stub_keys:
  "maps_le w (snd (snd (InitOatCodeMethod_invoke_stub env stub offset w))) \<and>
   code_offsets' (snd (snd (InitOatCodeMethod_invoke_stub env stub offset w))) stub
     = Some (fst (InitOatCodeMethod_invoke_stub env stub offset w))"
  by (cases "code_offsets' w stub")
     (auto simp: InitOatCodeMethod_invoke_stub_def Let_def maps_le_def map_le_def)

lemma stub_keys:
  "maps_le w (snd (snd (InitOatCodeMethod_stub env is_static idx d offset w))) \<and>
   (\<forall>stub. FindInvokeStub env is_static (GetMethodShorty d idx) = Some stub \<longrightarrow>
      code_offsets' (snd (snd (InitOatCodeMethod_stub env is_static idx d offset w))) stub
        = Some (fst (InitOatCodeMethod_stub env is_static idx d offset w)))"
  using invoke_stub_keys [of w env _ offset]
  by (simp add: InitOatCodeMethod_stub_def split: option.splits)

lemma maps_le_code: "maps_le w w1 \<Longrightarrow> code_offsets' w k = Some v \<Longrightarrow> code_offsets' w1 k = Some v"
  by (auto simp: maps_le_def map_le_def dom_def)

lemma maps_le_mapping:
  "maps_le w w1 \<Longrightarrow> mapping_table_offsets' w k = Some v \<Longrightarrow> mapping_table_offsets' w1 k = Some v"
  by (auto simp: maps_le_def map_le_def dom_def)

lemma maps_le_vmap:
  "maps_le w w1 \<Longrightarrow> vmap_table_offsets' w k = Some v \<Longrightarrow> vmap_table_offsets' w1 k = Some v"
  by (auto simp: maps_le_def map_le_def dom_def)

text \<open>
  After a method, each of its vectors is in its map with the offset the method stores, and
  the maps have only grown.
\<close>

lemma method_keys:
  assumes "InitOatCodeMethod_offsets env offset w is_static idx d = (mo, offset1, w1)"
  shows "maps_le w w1 \<and>
         (\<forall>cm. GetCompiledMethod env d idx = Some cm \<longrightarrow>
            code_offsets' w1 (GetCode cm) = Some (code_offset' mo) \<and>
            mapping_table_offsets' w1 (GetMappingTable cm) = Some (mapping_table_offset' mo) \<and>
            vmap_table_offsets' w1 (GetVmapTable cm) = Some (vmap_table_offset' mo)) \<and>
         (\<forall>stub. FindInvokeStub env is_static (GetMethodShorty d idx) = Some stub \<longrightarrow>
            code_offsets' w1 stub = Some (invoke_stub_offset' mo))"
proof (cases "GetCompiledMethod env d idx")
  case None
  obtain o2 w2 where
    f: "InitOatCodeMethod_frame env (kStackAlignment env) 0 0 offset w = (o2, w2)"
    by (cases "InitOatCodeMethod_frame env (kStackAlignment env) 0 0 offset w")
  obtain so o5 w5 where
    s: "InitOatCodeMethod_stub env is_static idx d o2 w2 = (so, o5, w5)"
    by (cases "InitOatCodeMethod_stub env is_static idx d o2 w2") auto
  have r: "mo = \<lparr>code_offset' = 0, frame_size_in_bytes' = kStackAlignment env,
        core_spill_mask' = 0, fp_spill_mask' = 0,
        mapping_table_offset' = 0, vmap_table_offset' = 0,
        invoke_stub_offset' = so\<rparr>" "w1 = w5"
    using assms by (simp_all add: InitOatCodeMethod_offsets_None [OF None] f s)
  have 1: "maps_le w w2" using frame_keys [of w env "kStackAlignment env" 0 0 offset] f by simp
  note 2 = stub_keys [of w2 env is_static idx d o2, unfolded s, simplified]
  show ?thesis using maps_le_trans [OF 1] 2 None r by simp
next
  case (Some cm)
  obtain co o1 w1a where c: "InitOatCodeMethod_code env cm offset w = (co, o1, w1a)"
    by (cases "InitOatCodeMethod_code env cm offset w") auto
  obtain o2 w2 where
    f: "InitOatCodeMethod_frame env (GetFrameSizeInBytes cm) (GetCoreSpillMask cm)
           (GetFpSpillMask cm) o1 w1a = (o2, w2)"
    by (cases "InitOatCodeMethod_frame env (GetFrameSizeInBytes cm) (GetCoreSpillMask cm)
           (GetFpSpillMask cm) o1 w1a")
  obtain mp o3 w3 where m: "InitOatCodeMethod_mapping_table env cm o2 w2 = (mp, o3, w3)"
    by (cases "InitOatCodeMethod_mapping_table env cm o2 w2") auto
  obtain vo o4 w4 where v: "InitOatCodeMethod_vmap_table env cm o3 w3 = (vo, o4, w4)"
    by (cases "InitOatCodeMethod_vmap_table env cm o3 w3") auto
  obtain so o5 w5 where
    s: "InitOatCodeMethod_stub env is_static idx d o4 w4 = (so, o5, w5)"
    by (cases "InitOatCodeMethod_stub env is_static idx d o4 w4") auto
  have r: "mo = \<lparr>code_offset' = co, frame_size_in_bytes' = GetFrameSizeInBytes cm,
        core_spill_mask' = GetCoreSpillMask cm, fp_spill_mask' = GetFpSpillMask cm,
        mapping_table_offset' = mp, vmap_table_offset' = vo,
        invoke_stub_offset' = so\<rparr>" "w1 = w5"
    using assms by (simp_all add: InitOatCodeMethod_offsets_Some [OF Some] c f m v s)
  note 1 = code_keys [of w env cm offset, unfolded c, simplified]
  have 2: "maps_le w1a w2"
    using frame_keys [of w1a env "GetFrameSizeInBytes cm" "GetCoreSpillMask cm"
        "GetFpSpillMask cm" o1] f by simp
  note 3 = mapping_table_keys [of w2 env cm o2, unfolded m, simplified]
  note 4 = vmap_table_keys [of w3 env cm o3, unfolded v, simplified]
  note 5 = stub_keys [of w4 env is_static idx d o4, unfolded s, simplified]
  have l12: "maps_le w w2" using maps_le_trans 1 2 by blast
  have l15: "maps_le w1a w5" using maps_le_trans 2 3 4 5 by blast
  have l35: "maps_le w3 w5" using maps_le_trans 4 5 by blast
  have l45: "maps_le w4 w5" using 5 by blast
  have l05: "maps_le w w5" using maps_le_trans 1 l15 by blast
  have "code_offsets' w5 (GetCode cm) = Some co" using maps_le_code [OF l15] 1 by simp
  moreover have "mapping_table_offsets' w5 (GetMappingTable cm) = Some mp"
    using maps_le_mapping [OF l35] 3 by simp
  moreover have "vmap_table_offsets' w5 (GetVmapTable cm) = Some vo"
    using maps_le_vmap [OF l45] 4 by simp
  ultimately show ?thesis using l05 5 Some r by simp
qed


subsection \<open>The emit pass follows the layout, block by block\<close>

lemma has_bytes_append:
  "has_bytes f p xs \<Longrightarrow> has_bytes f (p + length xs) ys \<Longrightarrow> has_bytes f p (xs @ ys)"
  by (simp add: has_bytes_def take_add add.commute add.left_commute)

lemma synced_WriteFully_or:
  assumes "synced c f"
  shows "WriteFully_or d bs f = (True, snd (WriteFully bs f))"
  using synced_WriteFully [OF assms, of bs]
  by (cases "WriteFully bs f") (auto simp: WriteFully_or_def)

lemma frame_sync:
  assumes "synced c f"
  shows "\<exists>g. WriteCodeMethod_frame a b x idx c f = (Some (c + 12), g) \<and>
             synced (c + 12) g \<and> log g = log f \<and>
             padded g = padded f @ le32 a @ le32 b @ le32 x \<and> file_extends f g \<and>
             has_bytes g c (le32 a @ le32 b @ le32 x)"
proof -
  define g1 where "g1 = snd (WriteFully (le32 a) f)"
  define g2 where "g2 = snd (WriteFully (le32 b) g1)"
  define g3 where "g3 = snd (WriteFully (le32 x) g2)"
  note w1 = synced_WriteFully [OF assms, of "le32 a", folded g1_def]
  have s1: "synced (c + 4) g1" using w1 by simp
  note w2 = synced_WriteFully [OF s1, of "le32 b", folded g2_def]
  have s2: "synced (c + 4 + 4) g2" using w2 by simp
  note w3 = synced_WriteFully [OF s2, of "le32 x", folded g3_def]
  have r: "WriteCodeMethod_frame a b x idx c f = (Some (c + 12), g3)"
    using synced_WriteFully_or [OF assms, of _ "le32 a"] synced_WriteFully_or [OF s1, of _ "le32 b"]
      synced_WriteFully_or [OF s2, of _ "le32 x"]
    by (simp add: WriteCodeMethod_frame_def g1_def g2_def g3_def)
  have ne: "le32 a \<noteq> []" "le32 b \<noteq> []" "le32 x \<noteq> []" by (simp_all add: le32_def)
  have e12: "file_extends g1 g2" and e23: "file_extends g2 g3" using w2 w3 by simp_all
  have h1: "has_bytes g3 c (le32 a)"
    using w1 ne has_bytes_extends [OF _ file_extends_trans [OF e12 e23]] by simp
  have h2: "has_bytes g3 (c + 4) (le32 b)"
    using w2 ne has_bytes_extends [OF _ e23] by (simp add: add.commute)
  have h3: "has_bytes g3 (c + 8) (le32 x)" using w3 ne by (simp add: add.commute)
  have l: "c + 4 + length (le32 b) = c + 8" "c + length (le32 a) = c + 4"
    by (simp_all add: length_le32)
  have h23: "has_bytes g3 (c + 4) (le32 b @ le32 x)"
    by (rule has_bytes_append [OF h2]) (simp only: l h3)
  have h: "has_bytes g3 c (le32 a @ le32 b @ le32 x)"
    by (rule has_bytes_append [OF h1]) (simp only: l h23)
  have "file_extends f g3"
    using w1 file_extends_trans [OF _ file_extends_trans [OF e12 e23]] by simp
  moreover have "synced (c + 12) g3" using w3 by (simp add: add.commute)
  ultimately show ?thesis using r w1 w2 w3 h by simp
qed

lemma aligned_dedup_sync:
  assumes f: "synced c f" and cpos: "0 < c" and a: "0 < al"
    and below: "\<forall>v. m k = Some v \<longrightarrow> unat v < c"
    and key: "iter \<noteq> None"
    and stored: "stored = (case m k of Some v \<Rightarrow> v
                           | None \<Rightarrow> if bs = [] then 0 else of_nat (RoundUp c al + delta))"
    and fits: "RoundUp c al + length (first_bytes m k bs) < 2 ^ 32" and dl: "delta \<le> 1"
  shows "\<exists>g. and_then (WriteCodeMethod_align al d1 c f)
               (\<lambda>code_offset f1.
                  WriteCodeMethod_dedup iter (code_offset + delta) stored bs d2 code_offset f1)
               = (Some (RoundUp c al + length (first_bytes m k bs)), g) \<and>
             synced (RoundUp c al + length (first_bytes m k bs)) g \<and> log g = log f \<and>
             padded g = padded f @ replicate (RoundUp c al - c) 0 @ first_bytes m k bs \<and>
             file_extends f g \<and>
             (m k = None \<longrightarrow> bs \<noteq> [] \<longrightarrow>
                has_bytes g (RoundUp c al) bs \<and> unat stored = RoundUp c al + delta)"
proof -
  let ?a = "RoundUp c al"
  have ge: "c \<le> ?a" using a by (rule RoundUp_ge)
  have lt: "?a < 2 ^ 32" using fits by simp
  define g1 where "g1 = snd (WriteCodeMethod_align al d1 c f)"
  note al = align_sync [OF f a lt, of d1, folded g1_def]
  have s1: "synced ?a g1" using al by simp
  have b1: "\<And>v. m k = Some v \<Longrightarrow> unat v < ?a" using below ge by fastforce
  have p1: "0 < ?a" using cpos ge by simp
  have fits1: "m k = None \<Longrightarrow> bs \<noteq> [] \<Longrightarrow> ?a + delta < 2 ^ 32"
  proof -
    assume "m k = None" and "bs \<noteq> []"
    then have "?a + 1 \<le> ?a + length (first_bytes m k bs)" by (cases bs) simp_all
    then show "?a + delta < 2 ^ 32" using fits dl by simp
  qed
  have "\<exists>g. WriteCodeMethod_dedup iter (?a + delta) stored bs d2 ?a g1
               = (Some (?a + length (first_bytes m k bs)), g) \<and>
             synced (?a + length (first_bytes m k bs)) g \<and> log g = log g1 \<and>
             padded g = padded g1 @ first_bytes m k bs \<and> file_extends g1 g \<and>
             (m k = None \<longrightarrow> bs \<noteq> [] \<longrightarrow>
                has_bytes g ?a bs \<and> unat stored = ?a + delta)"
  proof (rule dedup_sync [where m = m and k = k and f = g1 and iter = iter and d = d2])
    show "synced ?a g1" by (rule s1)
    show "0 < ?a" by (rule p1)
    show "\<And>v. m k = Some v \<Longrightarrow> unat v < ?a" by (rule b1)
    show "iter \<noteq> None" by (rule key)
    show "stored = (case m k of Some v \<Rightarrow> v
                    | None \<Rightarrow> if bs = [] then 0 else of_nat (?a + delta))" by (rule stored)
    show "m k = None \<Longrightarrow> bs \<noteq> [] \<Longrightarrow> ?a + delta < 2 ^ 32" by (rule fits1)
  qed
  then obtain g where gg:
      "WriteCodeMethod_dedup iter (?a + delta) stored bs d2 ?a g1
         = (Some (?a + length (first_bytes m k bs)), g) \<and>
       synced (?a + length (first_bytes m k bs)) g \<and> log g = log g1 \<and>
       padded g = padded g1 @ first_bytes m k bs \<and> file_extends g1 g \<and>
       (m k = None \<longrightarrow> bs \<noteq> [] \<longrightarrow> has_bytes g ?a bs \<and> unat stored = ?a + delta)" ..
  have g:
      "WriteCodeMethod_dedup iter (?a + delta) stored bs d2 ?a g1
         = (Some (?a + length (first_bytes m k bs)), g)"
      "synced (?a + length (first_bytes m k bs)) g" "log g = log g1"
      "padded g = padded g1 @ first_bytes m k bs" "file_extends g1 g"
      "m k = None \<longrightarrow> bs \<noteq> [] \<longrightarrow> has_bytes g ?a bs \<and> unat stored = ?a + delta"
    using gg by simp_all
  have "and_then (WriteCodeMethod_align al d1 c f)
          (\<lambda>code_offset f1.
             WriteCodeMethod_dedup iter (code_offset + delta) stored bs d2 code_offset f1)
        = (Some (?a + length (first_bytes m k bs)), g)"
    using al g(1) by (simp add: and_then_def)
  moreover have "file_extends f g" using al g(5) file_extends_trans by blast
  ultimately show ?thesis using g al by simp
qed

lemma code_sync:
  assumes al: "0 < code_alignment cm" and dl: "unat (CodeDelta cm) \<le> 1"
    and inv: "offsets_below offset w" and f: "synced offset f"
    and lay: "InitOatCodeMethod_code env cm offset w = (co, o1, w1)"
    and fits: "o1 < 2 ^ 32"
    and key: "code_offsets' wl (GetCode cm) \<noteq> None" and st: "code_offset' mo = co"
  shows "\<exists>g. WriteCodeMethod_code env wl cm mo idx offset f = (Some o1, g) \<and>
             synced o1 g \<and> log g = log f \<and>
             padded g = padded f @ code_image env cm offset w \<and> file_extends f g \<and>
             (code_offsets' w (GetCode cm) = None \<longrightarrow> bytes_at env (GetCode cm) \<noteq> [] \<longrightarrow>
                has_bytes g (AlignCode cm offset) (bytes_at env (GetCode cm)) \<and>
                unat co = AlignCode cm offset + unat (CodeDelta cm))"
proof -
  let ?m = "code_offsets' w" and ?k = "GetCode cm" and ?bs = "bytes_at env (GetCode cm)"
  have e: "InitOatCodeMethod_code env cm offset w =
     (case ?m ?k of Some v \<Rightarrow> v
      | None \<Rightarrow> if ?bs = [] then 0 else of_nat (AlignCode cm offset + unat (CodeDelta cm)),
      AlignCode cm offset + length (first_bytes ?m ?k ?bs), w1)"
    using InitOatCodeMethod_code_eq [of env cm offset w] lay by simp
  have co: "code_offset' mo = (case ?m ?k of Some v \<Rightarrow> v
      | None \<Rightarrow> if ?bs = [] then 0
                else of_nat (RoundUp offset (code_alignment cm) + unat (CodeDelta cm)))"
    and o1: "o1 = RoundUp offset (code_alignment cm) + length (first_bytes ?m ?k ?bs)"
    using e lay st unfolding AlignCode_def by simp_all
  have p: "0 < offset" and b: "\<forall>v. ?m ?k = Some v \<longrightarrow> unat v < offset"
    using inv by (auto simp: offsets_below_def)
  have fits1: "RoundUp offset (code_alignment cm) + length (first_bytes ?m ?k ?bs) < 2 ^ 32"
    using fits o1 by simp
  show ?thesis
    using aligned_dedup_sync [OF f p al b key co fits1 dl,
        of "Error ''Failed to seek to align oat code''" "WriteFailure ''method code'' idx"]
    unfolding WriteCodeMethod_code_def code_image_def AlignCode_def o1 st [symmetric]
    by simp
qed

lemma invoke_stub_sync:
  assumes al: "0 < arch_alignment env"
    and inv: "offsets_below offset w" and f: "synced offset f"
    and lay: "InitOatCodeMethod_invoke_stub env stub offset w = (so, o1, w1)"
    and fits: "o1 < 2 ^ 32"
    and key: "code_offsets' wl stub \<noteq> None" and st: "invoke_stub_offset' mo = so"
  shows "\<exists>g. WriteCodeMethod_invoke_stub env wl stub mo idx offset f = (Some o1, g) \<and>
             synced o1 g \<and> log g = log f \<and>
             padded g = padded f @ replicate (RoundUp offset (arch_alignment env) - offset) 0 @
                          first_bytes (code_offsets' w) stub (bytes_at env stub) \<and>
             file_extends f g \<and>
             (code_offsets' w stub = None \<longrightarrow> bytes_at env stub \<noteq> [] \<longrightarrow>
                has_bytes g (RoundUp offset (arch_alignment env)) (bytes_at env stub) \<and>
                unat so = RoundUp offset (arch_alignment env))"
proof -
  let ?m = "code_offsets' w" and ?bs = "bytes_at env stub"
  have e: "InitOatCodeMethod_invoke_stub env stub offset w =
     (case ?m stub of Some v \<Rightarrow> v
      | None \<Rightarrow> if ?bs = [] then 0 else of_nat (RoundUp offset (arch_alignment env)),
      RoundUp offset (arch_alignment env) + length (first_bytes ?m stub ?bs), w1)"
    using InitOatCodeMethod_invoke_stub_eq [of env stub offset w] lay by simp
  have co: "invoke_stub_offset' mo = (case ?m stub of Some v \<Rightarrow> v
      | None \<Rightarrow> if ?bs = [] then 0 else of_nat (RoundUp offset (arch_alignment env) + 0))"
    and o1: "o1 = RoundUp offset (arch_alignment env) + length (first_bytes ?m stub ?bs)"
    using e lay st unfolding Nat.add_0_right by simp_all
  have p: "0 < offset" and b: "\<forall>v. ?m stub = Some v \<longrightarrow> unat v < offset"
    using inv by (auto simp: offsets_below_def)
  have fits1: "RoundUp offset (arch_alignment env) + length (first_bytes ?m stub ?bs) < 2 ^ 32"
    using fits o1 by simp
  have z: "(0 :: nat) \<le> 1" by simp
  show ?thesis
    using aligned_dedup_sync [OF f p al b key co fits1 z,
        of "Error ''Failed to seek to align invoke stub code''"
           "WriteFailure ''invoke stub code'' idx"]
    unfolding WriteCodeMethod_invoke_stub_def o1 st [symmetric]
    by simp
qed


lemma dedup_sync0:
  assumes f: "synced c f" and cpos: "0 < c"
    and below: "\<forall>v. m k = Some v \<longrightarrow> unat v < c"
    and key: "iter \<noteq> None"
    and stored: "stored = (case m k of Some v \<Rightarrow> v
                           | None \<Rightarrow> if bs = [] then 0 else of_nat c)"
    and fits: "c + length (first_bytes m k bs) < 2 ^ 32"
  shows "\<exists>g. WriteCodeMethod_dedup iter c stored bs d c f
               = (Some (c + length (first_bytes m k bs)), g) \<and>
             synced (c + length (first_bytes m k bs)) g \<and> log g = log f \<and>
             padded g = padded f @ first_bytes m k bs \<and> file_extends f g \<and>
             (m k = None \<longrightarrow> bs \<noteq> [] \<longrightarrow> has_bytes g c bs \<and> unat stored = c)"
proof -
  have "\<exists>g. WriteCodeMethod_dedup iter (c + 0) stored bs d c f
               = (Some (c + length (first_bytes m k bs)), g) \<and>
             synced (c + length (first_bytes m k bs)) g \<and> log g = log f \<and>
             padded g = padded f @ first_bytes m k bs \<and> file_extends f g \<and>
             (m k = None \<longrightarrow> bs \<noteq> [] \<longrightarrow> has_bytes g c bs \<and> unat stored = c + 0)"
  proof (rule dedup_sync [where m = m and k = k and f = f and iter = iter and d = d])
    show "synced c f" by (rule f)
    show "0 < c" by (rule cpos)
    show "\<And>v. m k = Some v \<Longrightarrow> unat v < c" using below by simp
    show "iter \<noteq> None" by (rule key)
    show "stored = (case m k of Some v \<Rightarrow> v
                    | None \<Rightarrow> if bs = [] then 0 else of_nat (c + 0))"
      unfolding Nat.add_0_right by (rule stored)
    show "m k = None \<Longrightarrow> bs \<noteq> [] \<Longrightarrow> c + 0 < 2 ^ 32" using fits by simp
  qed
  then show ?thesis unfolding Nat.add_0_right .
qed

lemma mapping_table_sync:
  assumes inv: "offsets_below offset w" and f: "synced offset f"
    and lay: "InitOatCodeMethod_mapping_table env cm offset w = (mp, o1, w1)"
    and fits: "o1 < 2 ^ 32"
    and key: "mapping_table_offsets' wl (GetMappingTable cm) \<noteq> None"
    and st: "mapping_table_offset' mo = mp"
  shows "\<exists>g. WriteCodeMethod_mapping_table env wl cm mo idx offset f = (Some o1, g) \<and>
             synced o1 g \<and> log g = log f \<and>
             padded g = padded f @ first_bytes (mapping_table_offsets' w) (GetMappingTable cm)
                                     (mapping_table_bytes env cm) \<and>
             file_extends f g \<and>
             (mapping_table_offsets' w (GetMappingTable cm) = None \<longrightarrow>
              mapping_table_bytes env cm \<noteq> [] \<longrightarrow>
                has_bytes g offset (mapping_table_bytes env cm) \<and> unat mp = offset)"
proof -
  let ?m = "mapping_table_offsets' w" and ?k = "GetMappingTable cm"
  let ?bs = "mapping_table_bytes env cm"
  have e: "(mp, o1, w1) =
     (case ?m ?k of Some v \<Rightarrow> v | None \<Rightarrow> if ?bs = [] then 0 else of_nat offset,
      offset + length (first_bytes ?m ?k ?bs), w1)"
    using InitOatCodeMethod_mapping_table_eq [of env cm offset w] lay by simp
  have co: "mapping_table_offset' mo =
              (case ?m ?k of Some v \<Rightarrow> v | None \<Rightarrow> if ?bs = [] then 0 else of_nat offset)"
    and o1: "o1 = offset + length (first_bytes ?m ?k ?bs)"
    using e st by simp_all
  have p: "0 < offset" and b: "\<forall>v. ?m ?k = Some v \<longrightarrow> unat v < offset"
    using inv by (auto simp: offsets_below_def)
  have fits1: "offset + length (first_bytes ?m ?k ?bs) < 2 ^ 32" using fits o1 by simp
  show ?thesis
    using dedup_sync0 [OF f p b key co fits1, of "WriteFailure ''mapping table'' idx"]
    unfolding WriteCodeMethod_mapping_table_def o1 st [symmetric]
    by simp
qed

lemma vmap_table_sync:
  assumes inv: "offsets_below offset w" and f: "synced offset f"
    and lay: "InitOatCodeMethod_vmap_table env cm offset w = (vo, o1, w1)"
    and fits: "o1 < 2 ^ 32"
    and key: "vmap_table_offsets' wl (GetVmapTable cm) \<noteq> None"
    and st: "vmap_table_offset' mo = vo"
  shows "\<exists>g. WriteCodeMethod_vmap_table env wl cm mo idx offset f = (Some o1, g) \<and>
             synced o1 g \<and> log g = log f \<and>
             padded g = padded f @ first_bytes (vmap_table_offsets' w) (GetVmapTable cm)
                                     (vmap_table_bytes env cm) \<and>
             file_extends f g \<and>
             (vmap_table_offsets' w (GetVmapTable cm) = None \<longrightarrow>
              vmap_table_bytes env cm \<noteq> [] \<longrightarrow>
                has_bytes g offset (vmap_table_bytes env cm) \<and> unat vo = offset)"
proof -
  let ?m = "vmap_table_offsets' w" and ?k = "GetVmapTable cm"
  let ?bs = "vmap_table_bytes env cm"
  have e: "(vo, o1, w1) =
     (case ?m ?k of Some v \<Rightarrow> v | None \<Rightarrow> if ?bs = [] then 0 else of_nat offset,
      offset + length (first_bytes ?m ?k ?bs), w1)"
    using InitOatCodeMethod_vmap_table_eq [of env cm offset w] lay by simp
  have co: "vmap_table_offset' mo =
              (case ?m ?k of Some v \<Rightarrow> v | None \<Rightarrow> if ?bs = [] then 0 else of_nat offset)"
    and o1: "o1 = offset + length (first_bytes ?m ?k ?bs)"
    using e st by simp_all
  have p: "0 < offset" and b: "\<forall>v. ?m ?k = Some v \<longrightarrow> unat v < offset"
    using inv by (auto simp: offsets_below_def)
  have fits1: "offset + length (first_bytes ?m ?k ?bs) < 2 ^ 32" using fits o1 by simp
  show ?thesis
    using dedup_sync0 [OF f p b key co fits1, of "WriteFailure ''vmap table'' idx"]
    unfolding WriteCodeMethod_vmap_table_def o1 st [symmetric]
    by simp
qed

lemma stub_sync:
  assumes al: "0 < arch_alignment env"
    and inv: "offsets_below offset w" and f: "synced offset f"
    and lay: "InitOatCodeMethod_stub env is_static idx d offset w = (so, o1, w1)"
    and fits: "o1 < 2 ^ 32"
    and key: "\<forall>stub. FindInvokeStub env is_static (GetMethodShorty d idx) = Some stub \<longrightarrow>
                code_offsets' wl stub \<noteq> None"
    and st: "invoke_stub_offset' mo = so"
  shows "\<exists>g. WriteCodeMethod_stub env wl is_static idx d mo offset f = (Some o1, g) \<and>
             synced o1 g \<and> log g = log f \<and>
             padded g = padded f @ stub_image env is_static idx d offset w \<and>
             file_extends f g \<and>
             (\<forall>stub. FindInvokeStub env is_static (GetMethodShorty d idx) = Some stub \<longrightarrow>
                code_offsets' w stub = None \<longrightarrow> bytes_at env stub \<noteq> [] \<longrightarrow>
                has_bytes g (RoundUp offset (arch_alignment env)) (bytes_at env stub) \<and>
                unat so = RoundUp offset (arch_alignment env))"
proof (cases "FindInvokeStub env is_static (GetMethodShorty d idx)")
  case None
  have "o1 = offset" using lay by (simp add: InitOatCodeMethod_stub_def None)
  moreover have "file_extends f f" using f by (simp add: synced_def file_extends_refl)
  ultimately show ?thesis
    using f by (simp add: WriteCodeMethod_stub_def stub_image_def None)
next
  case (Some stub)
  have l: "InitOatCodeMethod_invoke_stub env stub offset w = (so, o1, w1)"
    using lay by (simp add: InitOatCodeMethod_stub_def Some)
  have k: "code_offsets' wl stub \<noteq> None" using key Some by simp
  show ?thesis
    using invoke_stub_sync [OF al inv f l fits k st, of idx]
    by (simp add: WriteCodeMethod_stub_def stub_image_def Some)
qed


subsection \<open>The emit pass follows the layout, method by method\<close>

lemma stub_image_maps:
  "code_offsets' w2 = code_offsets' w \<Longrightarrow>
   stub_image env is_static idx d offset w2 = stub_image env is_static idx d offset w"
  by (simp add: stub_image_def first_bytes_def split: option.splits)

lemma method_sync_None:
  assumes none: "GetCompiledMethod env d idx = None"
    and al: "alignments_positive env"
    and inv: "offsets_below offset w" and f: "synced offset f"
    and lay: "InitOatCodeMethod_offsets env offset w is_static idx d = (mo, offset1, w1)"
    and fits: "offset1 < 2 ^ 32"
    and le: "maps_le w1 wl" and st: "oat_methods' wl ! oci ! cdmi = mo"
  shows "\<exists>g. WriteCodeMethod env wl offset oci cdmi is_static idx d f = (offset1, g) \<and>
             synced offset1 g \<and> log g = log f \<and> file_extends f g \<and>
             padded g = padded f @ method_image env offset w is_static idx d \<and>
             offsets_below offset1 w1 \<and>
             (\<forall>stub. FindInvokeStub env is_static (GetMethodShorty d idx) = Some stub \<longrightarrow>
                code_offsets' w stub = None \<longrightarrow> bytes_at env stub \<noteq> [] \<longrightarrow>
                has_bytes g (unat (invoke_stub_offset' mo)) (bytes_at env stub) \<and>
                unat (invoke_stub_offset' mo) = RoundUp (offset + 12) (arch_alignment env))"
proof -
  have arch: "0 < arch_alignment env" using al by (simp add: alignments_positive_def)
  obtain o2 w2 where
    fr: "InitOatCodeMethod_frame env (kStackAlignment env) 0 0 offset w = (o2, w2)"
    by (cases "InitOatCodeMethod_frame env (kStackAlignment env) 0 0 offset w")
  obtain so o5 w5 where
    s: "InitOatCodeMethod_stub env is_static idx d o2 w2 = (so, o5, w5)"
    by (cases "InitOatCodeMethod_stub env is_static idx d o2 w2") auto
  have r: "invoke_stub_offset' mo = so" "w1 = w5" "offset1 = o5"
    using lay by (auto simp: InitOatCodeMethod_offsets_None [OF none] fr s)
  have o2: "o2 = offset + 12" and m2: "code_offsets' w2 = code_offsets' w"
    "mapping_table_offsets' w2 = mapping_table_offsets' w"
    "vmap_table_offsets' w2 = vmap_table_offsets' w"
    using InitOatCodeMethod_frame_maps [of env "kStackAlignment env" 0 0 offset w] fr by simp_all
  have b2: "offsets_below o2 w2"
    using offsets_below_maps [OF offsets_below_mono [OF inv, of o2] m2] o2 by simp
  have b5: "offsets_below o5 w5" using stub_below [OF b2 arch, of is_static idx d] s by simp
  have keys: "\<forall>stub. FindInvokeStub env is_static (GetMethodShorty d idx) = Some stub \<longrightarrow>
                code_offsets' wl stub \<noteq> None"
    using method_keys [OF lay] maps_le_code [OF le] by fastforce
  obtain g2 where g2: "WriteCodeMethod_frame 0 0 0 idx offset f = (Some (offset + 12), g2) \<and>
      synced (offset + 12) g2 \<and> log g2 = log f \<and>
      padded g2 = padded f @ le32 0 @ le32 0 @ le32 0 \<and> file_extends f g2 \<and>
      has_bytes g2 offset (le32 0 @ le32 0 @ le32 0)"
    using frame_sync [OF f, of 0 0 0 idx] ..
  have s2: "synced o2 g2" using g2 o2 by simp
  have fits5: "o5 < 2 ^ 32" using fits r by simp
  obtain g5 where g5: "WriteCodeMethod_stub env wl is_static idx d mo o2 g2 = (Some o5, g5) \<and>
      synced o5 g5 \<and> log g5 = log g2 \<and>
      padded g5 = padded g2 @ stub_image env is_static idx d o2 w2 \<and> file_extends g2 g5 \<and>
      (\<forall>stub. FindInvokeStub env is_static (GetMethodShorty d idx) = Some stub \<longrightarrow>
         code_offsets' w2 stub = None \<longrightarrow> bytes_at env stub \<noteq> [] \<longrightarrow>
         has_bytes g5 (RoundUp o2 (arch_alignment env)) (bytes_at env stub) \<and>
         unat so = RoundUp o2 (arch_alignment env))"
    using stub_sync [OF arch b2 s2 s fits5 keys r(1)] ..
  have run: "WriteCodeMethod env wl offset oci cdmi is_static idx d f = (offset1, g5)"
    using g2 g5 by (simp add: WriteCodeMethod_def WriteCodeMethod_blocks_def Let_def none st
        and_then_def o2 r)
  have ext: "file_extends f g5" using file_extends_trans g2 g5 by blast
  have img: "padded g5 = padded f @ method_image env offset w is_static idx d"
    using g2 g5 stub_image_maps [OF m2(1), of env is_static idx d o2]
    by (simp add: method_image_def none o2)
  show ?thesis using run g5 g2 ext img b5 r m2 o2 by auto
qed


lemma method_sync_Some:
  assumes some: "GetCompiledMethod env d idx = Some cm"
    and al: "alignments_positive env" and td: "thumb_deltas env"
    and inv: "offsets_below offset w" and f: "synced offset f"
    and lay: "InitOatCodeMethod_offsets env offset w is_static idx d = (mo, offset1, w1)"
    and fits: "offset1 < 2 ^ 32"
    and le: "maps_le w1 wl" and st: "oat_methods' wl ! oci ! cdmi = mo"
  shows "\<exists>g. WriteCodeMethod env wl offset oci cdmi is_static idx d f = (offset1, g) \<and>
             synced offset1 g \<and> log g = log f \<and> file_extends f g \<and>
             padded g = padded f @ method_image env offset w is_static idx d \<and>
             offsets_below offset1 w1 \<and>
             (code_offsets' w (GetCode cm) = None \<longrightarrow> bytes_at env (GetCode cm) \<noteq> [] \<longrightarrow>
                has_bytes g (AlignCode cm offset) (bytes_at env (GetCode cm)) \<and>
                unat (code_offset' mo) = AlignCode cm offset + unat (CodeDelta cm)) \<and>
             (mapping_table_offsets' w (GetMappingTable cm) = None \<longrightarrow>
              mapping_table_bytes env cm \<noteq> [] \<longrightarrow>
                has_bytes g (unat (mapping_table_offset' mo)) (mapping_table_bytes env cm)) \<and>
             (vmap_table_offsets' w (GetVmapTable cm) = None \<longrightarrow>
              vmap_table_bytes env cm \<noteq> [] \<longrightarrow>
                has_bytes g (unat (vmap_table_offset' mo)) (vmap_table_bytes env cm)) \<and>
             (\<forall>stub. FindInvokeStub env is_static (GetMethodShorty d idx) = Some stub \<longrightarrow>
                code_offsets' w stub = None \<longrightarrow> stub \<noteq> GetCode cm \<longrightarrow>
                bytes_at env stub \<noteq> [] \<longrightarrow>
                has_bytes g (unat (invoke_stub_offset' mo)) (bytes_at env stub))"
proof -
  have arch: "0 < arch_alignment env" and ca: "0 < code_alignment cm"
    using al some by (auto simp: alignments_positive_def)
  have dl: "unat (CodeDelta cm) \<le> 1" using td some by (auto simp: thumb_deltas_def)
  obtain co o1 w1a where c: "InitOatCodeMethod_code env cm offset w = (co, o1, w1a)"
    by (cases "InitOatCodeMethod_code env cm offset w") auto
  obtain o2 w2 where
    fr: "InitOatCodeMethod_frame env (GetFrameSizeInBytes cm) (GetCoreSpillMask cm)
           (GetFpSpillMask cm) o1 w1a = (o2, w2)"
    by (cases "InitOatCodeMethod_frame env (GetFrameSizeInBytes cm) (GetCoreSpillMask cm)
           (GetFpSpillMask cm) o1 w1a")
  obtain mp o3 w3 where m: "InitOatCodeMethod_mapping_table env cm o2 w2 = (mp, o3, w3)"
    by (cases "InitOatCodeMethod_mapping_table env cm o2 w2") auto
  obtain vo o4 w4 where v: "InitOatCodeMethod_vmap_table env cm o3 w3 = (vo, o4, w4)"
    by (cases "InitOatCodeMethod_vmap_table env cm o3 w3") auto
  obtain so o5 w5 where
    s: "InitOatCodeMethod_stub env is_static idx d o4 w4 = (so, o5, w5)"
    by (cases "InitOatCodeMethod_stub env is_static idx d o4 w4") auto
  have r: "code_offset' mo = co" "frame_size_in_bytes' mo = GetFrameSizeInBytes cm"
    "core_spill_mask' mo = GetCoreSpillMask cm" "fp_spill_mask' mo = GetFpSpillMask cm"
    "mapping_table_offset' mo = mp" "vmap_table_offset' mo = vo"
    "invoke_stub_offset' mo = so" "w1 = w5" "offset1 = o5"
    using lay by (auto simp: InitOatCodeMethod_offsets_Some [OF some] c fr m v s)
  text \<open>The cursors grow, so each of them fits.\<close>
  have o2: "o2 = o1 + 12"
    using InitOatCodeMethod_frame_maps(4) [of env "GetFrameSizeInBytes cm"
        "GetCoreSpillMask cm" "GetFpSpillMask cm" o1 w1a] fr by simp
  have g23: "o2 \<le> o3" using InitOatCodeMethod_mapping_table_mono [of o2 env cm w2] m by simp
  have g34: "o3 \<le> o4" using InitOatCodeMethod_vmap_table_mono [of o3 env cm w3] v by simp
  have g45: "o4 \<le> o5"
    using InitOatCodeMethod_stub_mono [OF arch, of o4 is_static idx d w4] s by simp
  have fits5: "o5 < 2 ^ 32" using fits r by simp
  have fits1: "o1 < 2 ^ 32" and fits3: "o3 < 2 ^ 32" and fits4: "o4 < 2 ^ 32"
    using fits5 o2 g23 g34 g45 by simp_all
  text \<open>The maps between the blocks.\<close>
  have m1: "mapping_table_offsets' w1a = mapping_table_offsets' w"
    "vmap_table_offsets' w1a = vmap_table_offsets' w"
    and c1: "code_offsets' w1a =
      (case code_offsets' w (GetCode cm) of Some v \<Rightarrow> code_offsets' w
       | None \<Rightarrow> (code_offsets' w)(GetCode cm \<mapsto> co))"
    using InitOatCodeMethod_code_maps [of env cm offset w, unfolded c fst_conv snd_conv]
    by simp_all
  have m2: "code_offsets' w2 = code_offsets' w1a"
    "mapping_table_offsets' w2 = mapping_table_offsets' w1a"
    "vmap_table_offsets' w2 = vmap_table_offsets' w1a"
    using InitOatCodeMethod_frame_maps [of env "GetFrameSizeInBytes cm"
        "GetCoreSpillMask cm" "GetFpSpillMask cm" o1 w1a] fr by simp_all
  have m3: "code_offsets' w3 = code_offsets' w2" "vmap_table_offsets' w3 = vmap_table_offsets' w2"
    using InitOatCodeMethod_mapping_table_maps [of env cm o2 w2] m by simp_all
  have m4: "code_offsets' w4 = code_offsets' w3"
    using InitOatCodeMethod_vmap_table_maps [of env cm o3 w3] v by simp_all
  text \<open>The invariant between the blocks.\<close>
  have b1: "offsets_below (o1 + 12) w1a" using code_frame_below [OF inv ca dl, of env] c by simp
  have b2: "offsets_below o2 w2" using offsets_below_maps [OF b1 m2] o2 by simp
  have b3: "offsets_below o3 w3" using mapping_table_below [OF b2, of env cm] m by simp
  have b4: "offsets_below o4 w4" using vmap_table_below [OF b3, of env cm] v by simp
  have b5: "offsets_below o5 w5" using stub_below [OF b4 arch, of is_static idx d] s by simp
  text \<open>The vectors of the method are in the final maps.\<close>
  note mk = method_keys [OF lay]
  have k1: "code_offsets' wl (GetCode cm) \<noteq> None"
    using mk maps_le_code [OF le] some by fastforce
  have k3: "mapping_table_offsets' wl (GetMappingTable cm) \<noteq> None"
    using mk maps_le_mapping [OF le] some by fastforce
  have k4: "vmap_table_offsets' wl (GetVmapTable cm) \<noteq> None"
    using mk maps_le_vmap [OF le] some by fastforce
  have k5: "\<forall>stub. FindInvokeStub env is_static (GetMethodShorty d idx) = Some stub \<longrightarrow>
                code_offsets' wl stub \<noteq> None"
    using mk maps_le_code [OF le] by fastforce
  text \<open>The blocks of the emit pass.\<close>
  obtain g1 where g1: "WriteCodeMethod_code env wl cm mo idx offset f = (Some o1, g1) \<and>
      synced o1 g1 \<and> log g1 = log f \<and>
      padded g1 = padded f @ code_image env cm offset w \<and> file_extends f g1 \<and>
      (code_offsets' w (GetCode cm) = None \<longrightarrow> bytes_at env (GetCode cm) \<noteq> [] \<longrightarrow>
         has_bytes g1 (AlignCode cm offset) (bytes_at env (GetCode cm)) \<and>
         unat co = AlignCode cm offset + unat (CodeDelta cm))"
    using code_sync [OF ca dl inv f c fits1 k1 r(1), of idx] ..
  have s1: "synced o1 g1" using g1 by simp
  obtain g2 where g2: "WriteCodeMethod_frame (GetFrameSizeInBytes cm) (GetCoreSpillMask cm)
        (GetFpSpillMask cm) idx o1 g1 = (Some (o1 + 12), g2) \<and>
      synced (o1 + 12) g2 \<and> log g2 = log g1 \<and>
      padded g2 = padded g1 @ le32 (GetFrameSizeInBytes cm) @ le32 (GetCoreSpillMask cm) @
                    le32 (GetFpSpillMask cm) \<and>
      file_extends g1 g2 \<and>
      has_bytes g2 o1 (le32 (GetFrameSizeInBytes cm) @ le32 (GetCoreSpillMask cm) @
                        le32 (GetFpSpillMask cm))"
    using frame_sync [OF s1, of "GetFrameSizeInBytes cm" "GetCoreSpillMask cm"
        "GetFpSpillMask cm" idx] ..
  have s2: "synced o2 g2" using g2 o2 by simp
  obtain g3 where g3: "WriteCodeMethod_mapping_table env wl cm mo idx o2 g2 = (Some o3, g3) \<and>
      synced o3 g3 \<and> log g3 = log g2 \<and>
      padded g3 = padded g2 @ first_bytes (mapping_table_offsets' w2) (GetMappingTable cm)
                                (mapping_table_bytes env cm) \<and>
      file_extends g2 g3 \<and>
      (mapping_table_offsets' w2 (GetMappingTable cm) = None \<longrightarrow>
       mapping_table_bytes env cm \<noteq> [] \<longrightarrow>
         has_bytes g3 o2 (mapping_table_bytes env cm) \<and> unat mp = o2)"
    using mapping_table_sync [OF b2 s2 m fits3 k3 r(5), of idx] ..
  have s3: "synced o3 g3" using g3 by simp
  obtain g4 where g4: "WriteCodeMethod_vmap_table env wl cm mo idx o3 g3 = (Some o4, g4) \<and>
      synced o4 g4 \<and> log g4 = log g3 \<and>
      padded g4 = padded g3 @ first_bytes (vmap_table_offsets' w3) (GetVmapTable cm)
                                (vmap_table_bytes env cm) \<and>
      file_extends g3 g4 \<and>
      (vmap_table_offsets' w3 (GetVmapTable cm) = None \<longrightarrow>
       vmap_table_bytes env cm \<noteq> [] \<longrightarrow>
         has_bytes g4 o3 (vmap_table_bytes env cm) \<and> unat vo = o3)"
    using vmap_table_sync [OF b3 s3 v fits4 k4 r(6), of idx] ..
  have s4: "synced o4 g4" using g4 by simp
  obtain g5 where g5: "WriteCodeMethod_stub env wl is_static idx d mo o4 g4 = (Some o5, g5) \<and>
      synced o5 g5 \<and> log g5 = log g4 \<and>
      padded g5 = padded g4 @ stub_image env is_static idx d o4 w4 \<and> file_extends g4 g5 \<and>
      (\<forall>stub. FindInvokeStub env is_static (GetMethodShorty d idx) = Some stub \<longrightarrow>
         code_offsets' w4 stub = None \<longrightarrow> bytes_at env stub \<noteq> [] \<longrightarrow>
         has_bytes g5 (RoundUp o4 (arch_alignment env)) (bytes_at env stub) \<and>
         unat so = RoundUp o4 (arch_alignment env))"
    using stub_sync [OF arch b4 s4 s fits5 k5 r(7)] ..
  text \<open>The whole method.\<close>
  have run: "WriteCodeMethod env wl offset oci cdmi is_static idx d f = (offset1, g5)"
    using g1 g2 g3 g4 g5
    by (simp add: WriteCodeMethod_def WriteCodeMethod_blocks_def Let_def some st and_then_def
        o2 r)
  have e45: "file_extends g4 g5" and e34: "file_extends g3 g4" and e23: "file_extends g2 g3"
    and e12: "file_extends g1 g2" and e01: "file_extends f g1"
    using g1 g2 g3 g4 g5 by simp_all
  have e35: "file_extends g3 g5" by (rule file_extends_trans [OF e34 e45])
  have e25: "file_extends g2 g5" by (rule file_extends_trans [OF e23 e35])
  have e15: "file_extends g1 g5" by (rule file_extends_trans [OF e12 e25])
  have ext: "file_extends f g5" by (rule file_extends_trans [OF e01 e15])
  have lg: "log g5 = log f" using g1 g2 g3 g4 g5 by simp
  have fb3: "first_bytes (mapping_table_offsets' w2) (GetMappingTable cm)
               (mapping_table_bytes env cm)
             = first_bytes (mapping_table_offsets' w) (GetMappingTable cm)
                 (mapping_table_bytes env cm)"
    by (simp add: m2 m1)
  have fb4: "first_bytes (vmap_table_offsets' w3) (GetVmapTable cm) (vmap_table_bytes env cm)
             = first_bytes (vmap_table_offsets' w) (GetVmapTable cm) (vmap_table_bytes env cm)"
    by (simp add: m3 m2 m1)
  have lo1: "o1 = offset + length (code_image env cm offset w)"
    using InitOatCodeMethod_code_eq [of env cm offset w] c RoundUp_ge [OF ca, of offset]
    by (simp add: code_image_def AlignCode_def)
  have lo3: "o3 = o2 + length (first_bytes (mapping_table_offsets' w) (GetMappingTable cm)
                                 (mapping_table_bytes env cm))"
    using InitOatCodeMethod_mapping_table_eq [of env cm o2 w2] m fb3 by simp
  have lo4: "o4 = o3 + length (first_bytes (vmap_table_offsets' w) (GetVmapTable cm)
                                 (vmap_table_bytes env cm))"
    using InitOatCodeMethod_vmap_table_eq [of env cm o3 w3] v fb4 by simp
  have o4eq: "offset + length (code_image env cm offset w) + 12
                + length (first_bytes (mapping_table_offsets' w) (GetMappingTable cm)
                            (mapping_table_bytes env cm))
                + length (first_bytes (vmap_table_offsets' w) (GetVmapTable cm)
                            (vmap_table_bytes env cm)) = o4"
    using lo1 o2 lo3 lo4 by simp
  have si: "stub_image env is_static idx d o4 w1a = stub_image env is_static idx d o4 w4"
    by (rule stub_image_maps [symmetric]) (simp add: m4 m3 m2)
  have mi: "method_image env offset w is_static idx d =
      code_image env cm offset w @
      le32 (GetFrameSizeInBytes cm) @ le32 (GetCoreSpillMask cm) @ le32 (GetFpSpillMask cm) @
      first_bytes (mapping_table_offsets' w) (GetMappingTable cm) (mapping_table_bytes env cm) @
      first_bytes (vmap_table_offsets' w) (GetVmapTable cm) (vmap_table_bytes env cm) @
      stub_image env is_static idx d o4 w4"
    unfolding method_image_def some option.case Let_def c snd_conv o4eq si ..
  have img: "padded g5 = padded f @ method_image env offset w is_static idx d"
    unfolding mi using g1 g2 g3 g4 g5 by (simp add: fb3 fb4)
  have h1: "code_offsets' w (GetCode cm) = None \<longrightarrow> bytes_at env (GetCode cm) \<noteq> [] \<longrightarrow>
              has_bytes g5 (AlignCode cm offset) (bytes_at env (GetCode cm)) \<and>
              unat (code_offset' mo) = AlignCode cm offset + unat (CodeDelta cm)"
    using g1 has_bytes_extends [OF _ e15] r(1) by blast
  have h3: "mapping_table_offsets' w (GetMappingTable cm) = None \<longrightarrow>
            mapping_table_bytes env cm \<noteq> [] \<longrightarrow>
              has_bytes g5 (unat (mapping_table_offset' mo)) (mapping_table_bytes env cm)"
    using g3 has_bytes_extends [OF _ e35] r(5) m2 m1 by auto
  have h4: "vmap_table_offsets' w (GetVmapTable cm) = None \<longrightarrow>
            vmap_table_bytes env cm \<noteq> [] \<longrightarrow>
              has_bytes g5 (unat (vmap_table_offset' mo)) (vmap_table_bytes env cm)"
    using g4 has_bytes_extends [OF _ e45] r(6) m3 m2 m1 by auto
  have h5: "\<forall>stub. FindInvokeStub env is_static (GetMethodShorty d idx) = Some stub \<longrightarrow>
              code_offsets' w stub = None \<longrightarrow> stub \<noteq> GetCode cm \<longrightarrow>
              bytes_at env stub \<noteq> [] \<longrightarrow>
              has_bytes g5 (unat (invoke_stub_offset' mo)) (bytes_at env stub)"
  proof (intro allI impI)
    fix stub
    assume fs: "FindInvokeStub env is_static (GetMethodShorty d idx) = Some stub"
      and n: "code_offsets' w stub = None" and ne: "stub \<noteq> GetCode cm"
      and bs: "bytes_at env stub \<noteq> []"
    have "code_offsets' w1a stub = None"
      unfolding c1 using n ne by (cases "code_offsets' w (GetCode cm)") simp_all
    then have "code_offsets' w4 stub = None" by (simp add: m4 m3 m2)
    then show "has_bytes g5 (unat (invoke_stub_offset' mo)) (bytes_at env stub)"
      using g5 fs bs r(7) by simp
  qed
  have s5: "synced offset1 g5" using g5 r by simp
  have bl: "offsets_below offset1 w1" using b5 r by simp
  show ?thesis by (intro exI [of _ g5] conjI run s5 lg ext img bl h1 h3 h4 h5)
qed

subsection \<open>Every method has its own entry of the methods tables\<close>

lemma item_keys_append [simp]: "item_keys (xs @ ys) = item_keys xs @ item_keys ys"
proof (induction xs)
  case Nil show ?case by simp
next
  case (Cons x xs)
  then show ?case by (cases x) simp_all
qed

lemma item_keys_class_items:
  "item_keys (class_items d oci ms k) = map (\<lambda>j. (oci, j)) [k..<k + length ms]"
proof (induction ms arbitrary: k)
  case Nil show ?case by simp
next
  case (Cons m ms)
  obtain is_static is_direct idx where m: "m = (is_static, is_direct, idx)" by (cases m) auto
  have a: "item_keys (class_items d oci (m # ms) k)
             = (oci, k) # item_keys (class_items d oci ms (Suc k))"
    by (simp add: m)
  have b: "[k..<k + length (m # ms)] = k # [Suc k..<Suc k + length ms]"
    by (subst upt_rec) simp
  show ?case unfolding a b Cons.IH by simp
qed

lemma length_class_entries: "length (class_entries c) = num_methods c"
  by (simp add: class_entries_def num_methods_def direct_entries_def virtual_entries_def
      split: option.splits)

lemma item_keys_dex_items_range:
  "(a, b) \<in> set (item_keys (dex_items d cs oci)) \<Longrightarrow>
   oci \<le> a \<and> a < oci + length cs \<and> b < num_methods (cs ! (a - oci))"
proof (induction cs arbitrary: oci)
  case Nil then show ?case by simp
next
  case (Cons c cs)
  from Cons.prems consider
      (head) "(a, b) \<in> set (item_keys (class_items d oci (class_entries c) 0))"
    | (tail) "(a, b) \<in> set (item_keys (dex_items d cs (oci + 1)))"
    by auto
  then show ?case
  proof cases
    case head
    then show ?thesis by (auto simp: item_keys_class_items length_class_entries)
  next
    case tail
    from Cons.IH [OF tail] show ?thesis by (auto simp: nth_Cons')
  qed
qed

lemma distinct_item_keys_dex_items: "distinct (item_keys (dex_items d cs oci))"
proof (induction cs arbitrary: oci)
  case Nil show ?case by simp
next
  case (Cons c cs)
  have "distinct (item_keys (class_items d oci (class_entries c) 0))"
    by (simp add: item_keys_class_items distinct_map inj_on_def)
  moreover have "set (item_keys (class_items d oci (class_entries c) 0))
                   \<inter> set (item_keys (dex_items d cs (oci + 1))) = {}"
    by (auto simp: item_keys_class_items dest: item_keys_dex_items_range)
  ultimately show ?case using Cons.IH [of "oci + 1"] by simp
qed

lemma item_keys_all_items_range:
  "(a, b) \<in> set (item_keys (all_items ds oci)) \<Longrightarrow>
   oci \<le> a \<and> a < oci + length (concat (map class_defs ds)) \<and>
   b < num_methods (concat (map class_defs ds) ! (a - oci))"
proof (induction ds arbitrary: oci)
  case Nil then show ?case by simp
next
  case (Cons d ds)
  from Cons.prems consider
      (head) "(a, b) \<in> set (item_keys (dex_items d (class_defs d) oci))"
    | (tail) "(a, b) \<in> set (item_keys (all_items ds (oci + length (class_defs d))))"
    by auto
  then show ?case
  proof cases
    case head
    from item_keys_dex_items_range [OF head] show ?thesis by (auto simp: nth_append)
  next
    case tail
    from Cons.IH [OF tail] show ?thesis by (auto simp: nth_append)
  qed
qed

lemma distinct_item_keys_all_items: "distinct (item_keys (all_items ds oci))"
proof (induction ds arbitrary: oci)
  case Nil show ?case by simp
next
  case (Cons d ds)
  have "set (item_keys (dex_items d (class_defs d) oci))
          \<inter> set (item_keys (all_items ds (oci + length (class_defs d)))) = {}"
    by (fastforce dest: item_keys_dex_items_range item_keys_all_items_range)
  then show ?case
    using Cons.IH [of "oci + length (class_defs d)"] distinct_item_keys_dex_items [of d _ oci]
    by simp
qed

text \<open>The methods tables have one entry for every method of every class.\<close>

lemma InitOatDexFiles_methods [simp]:
  "oat_methods' (snd (InitOatDexFiles ds offset w)) = oat_methods' w"
  by (induction ds arbitrary: offset w) (simp_all add: Let_def)

lemma InitOatClasses_methods [simp]:
  "oat_methods' (snd (InitOatClasses env ds i offset w)) = oat_methods' w"
  by (induction ds arbitrary: i offset w) (simp_all add: Let_def)

lemma InitOatMethods_classes_methods:
  "oat_methods' (snd (InitOatMethods_classes cs i k offset w))
     = oat_methods' w @ map (\<lambda>c. OatMethods_new (num_methods c)) cs"
  by (induction cs arbitrary: k offset w) (simp_all add: Let_def)

lemma InitOatMethods_methods:
  "oat_methods' (snd (InitOatMethods env ds i offset w))
     = oat_methods' w @ map (\<lambda>c. OatMethods_new (num_methods c)) (concat (map class_defs ds))"
proof (induction ds arbitrary: i offset w)
  case Nil show ?case by simp
next
  case (Cons d ds)
  obtain o1 w1 where r: "InitOatMethods_classes (class_defs d) i 0 offset w = (o1, w1)"
    by (cases "InitOatMethods_classes (class_defs d) i 0 offset w")
  have "oat_methods' w1 = oat_methods' w @ map (\<lambda>c. OatMethods_new (num_methods c)) (class_defs d)"
    using InitOatMethods_classes_methods [of "class_defs d" i 0 offset w] r by simp
  then show ?case by (simp add: r Cons.IH)
qed

lemma code_start_methods:
  "map length (oat_methods' (snd (code_start env ds)))
     = map num_methods (concat (map class_defs ds))"
proof -
  obtain o0 w0 where r0: "InitOatHeader env ds = (o0, w0)"
    by (cases "InitOatHeader env ds")
  obtain o1 w1 where r1: "InitOatDexFiles ds o0 w0 = (o1, w1)"
    by (cases "InitOatDexFiles ds o0 w0")
  obtain o2 w2 where r2: "InitOatClasses env ds 0 o1 w1 = (o2, w2)"
    by (cases "InitOatClasses env ds 0 o1 w1")
  obtain o3 w3 where r3: "InitOatMethods env ds 0 o2 w2 = (o3, w3)"
    by (cases "InitOatMethods env ds 0 o2 w2")
  have "oat_methods' w0 = []" using r0 by (auto simp: InitOatHeader_def Let_def)
  moreover have "oat_methods' w1 = oat_methods' w0"
    using InitOatDexFiles_methods [of ds o0 w0] r1 by simp
  moreover have "oat_methods' w2 = oat_methods' w1"
    using InitOatClasses_methods [of env ds 0 o1 w1] r2 by simp
  moreover have "oat_methods' w3 = oat_methods' w2
      @ map (\<lambda>c. OatMethods_new (num_methods c)) (concat (map class_defs ds))"
    using InitOatMethods_methods [of env ds 0 o2 w2] r3 by simp
  ultimately have "map length (oat_methods' w3) = map num_methods (concat (map class_defs ds))"
    by (simp add: OatMethods_new_def comp_def)
  then show ?thesis
    by (simp add: code_start_def InitOatTables_def r0 r1 r2 r3 InitOatCode_def Let_def)
qed


subsection \<open>Invariants of the walk of the layout\<close>

lemma method_below:
  assumes al: "alignments_positive env" and td: "thumb_deltas env"
    and inv: "offsets_below offset w"
    and lay: "InitOatCodeMethod_offsets env offset w is_static idx d = (mo, offset1, w1)"
  shows "offsets_below offset1 w1"
proof (cases "GetCompiledMethod env d idx")
  case None
  have arch: "0 < arch_alignment env" using al by (simp add: alignments_positive_def)
  obtain o2 w2 where
    fr: "InitOatCodeMethod_frame env (kStackAlignment env) 0 0 offset w = (o2, w2)"
    by (cases "InitOatCodeMethod_frame env (kStackAlignment env) 0 0 offset w")
  obtain so o5 w5 where
    s: "InitOatCodeMethod_stub env is_static idx d o2 w2 = (so, o5, w5)"
    by (cases "InitOatCodeMethod_stub env is_static idx d o2 w2") auto
  have r: "w1 = w5" "offset1 = o5"
    using lay by (auto simp: InitOatCodeMethod_offsets_None [OF None] fr s)
  have o2: "o2 = offset + 12" and m2: "code_offsets' w2 = code_offsets' w"
    "mapping_table_offsets' w2 = mapping_table_offsets' w"
    "vmap_table_offsets' w2 = vmap_table_offsets' w"
    using InitOatCodeMethod_frame_maps [of env "kStackAlignment env" 0 0 offset w] fr by simp_all
  have b2: "offsets_below o2 w2"
    using offsets_below_maps [OF offsets_below_mono [OF inv, of o2] m2] o2 by simp
  show ?thesis using stub_below [OF b2 arch, of is_static idx d] s r by simp
next
  case (Some cm)
  have arch: "0 < arch_alignment env" and ca: "0 < code_alignment cm"
    using al Some by (auto simp: alignments_positive_def)
  have dl: "unat (CodeDelta cm) \<le> 1" using td Some by (auto simp: thumb_deltas_def)
  obtain co o1 w1a where c: "InitOatCodeMethod_code env cm offset w = (co, o1, w1a)"
    by (cases "InitOatCodeMethod_code env cm offset w") auto
  obtain o2 w2 where
    fr: "InitOatCodeMethod_frame env (GetFrameSizeInBytes cm) (GetCoreSpillMask cm)
           (GetFpSpillMask cm) o1 w1a = (o2, w2)"
    by (cases "InitOatCodeMethod_frame env (GetFrameSizeInBytes cm) (GetCoreSpillMask cm)
           (GetFpSpillMask cm) o1 w1a")
  obtain mp o3 w3 where m: "InitOatCodeMethod_mapping_table env cm o2 w2 = (mp, o3, w3)"
    by (cases "InitOatCodeMethod_mapping_table env cm o2 w2") auto
  obtain vo o4 w4 where v: "InitOatCodeMethod_vmap_table env cm o3 w3 = (vo, o4, w4)"
    by (cases "InitOatCodeMethod_vmap_table env cm o3 w3") auto
  obtain so o5 w5 where
    s: "InitOatCodeMethod_stub env is_static idx d o4 w4 = (so, o5, w5)"
    by (cases "InitOatCodeMethod_stub env is_static idx d o4 w4") auto
  have r: "w1 = w5" "offset1 = o5"
    using lay by (auto simp: InitOatCodeMethod_offsets_Some [OF Some] c fr m v s)
  have o2: "o2 = o1 + 12"
    using InitOatCodeMethod_frame_maps(4) [of env "GetFrameSizeInBytes cm"
        "GetCoreSpillMask cm" "GetFpSpillMask cm" o1 w1a] fr by simp
  have m2: "code_offsets' w2 = code_offsets' w1a"
    "mapping_table_offsets' w2 = mapping_table_offsets' w1a"
    "vmap_table_offsets' w2 = vmap_table_offsets' w1a"
    using InitOatCodeMethod_frame_maps [of env "GetFrameSizeInBytes cm"
        "GetCoreSpillMask cm" "GetFpSpillMask cm" o1 w1a] fr by simp_all
  have b1: "offsets_below (o1 + 12) w1a" using code_frame_below [OF inv ca dl, of env] c by simp
  have b2: "offsets_below o2 w2" using offsets_below_maps [OF b1 m2] o2 by simp
  have b3: "offsets_below o3 w3" using mapping_table_below [OF b2, of env cm] m by simp
  have b4: "offsets_below o4 w4" using vmap_table_below [OF b3, of env cm] v by simp
  show ?thesis using stub_below [OF b4 arch, of is_static idx d] s r by simp
qed

text \<open>One step of the walk.\<close>

lemma layout_step_mono:
  assumes "alignments_positive env"
  shows "fst s \<le> fst (layout_step env s x)"
proof (cases s)
  case (Pair offset w)
  show ?thesis
  proof (cases x)
    case (Method oci cdmi is_static is_direct idx d)
    show ?thesis
      using InitOatCodeMethod_mono [OF assms, of offset w oci cdmi is_static is_direct idx d]
      by (simp add: Pair Method)
  next
    case (ClassEnd oci)
    show ?thesis by (simp add: Pair ClassEnd)
  qed
qed

lemma layout_run_mono:
  assumes "alignments_positive env"
  shows "fst s \<le> fst (layout_run env s items)"
proof (induction items arbitrary: s)
  case Nil show ?case by simp
next
  case (Cons x xs)
  show ?case using layout_step_mono [OF assms, of s x] Cons.IH [of "layout_step env s x"] by simp
qed

lemma layout_step_maps_le: "maps_le (snd s) (snd (layout_step env s x))"
proof (cases s)
  case (Pair offset w)
  show ?thesis
  proof (cases x)
    case (Method oci cdmi is_static is_direct idx d)
    obtain mo o1 w1 where
      r: "InitOatCodeMethod_offsets env offset w is_static idx d = (mo, o1, w1)"
      by (cases "InitOatCodeMethod_offsets env offset w is_static idx d") auto
    have "maps_le w w1" using method_keys [OF r] by simp
    then show ?thesis by (simp add: Pair Method InitOatCodeMethod_def r maps_le_def)
  next
    case (ClassEnd oci)
    show ?thesis by (simp add: Pair ClassEnd maps_le_def)
  qed
qed

lemma layout_run_maps_le: "maps_le (snd s) (snd (layout_run env s items))"
proof (induction items arbitrary: s)
  case Nil show ?case by simp
next
  case (Cons x xs)
  show ?case
    using maps_le_trans [OF layout_step_maps_le [of s env x] Cons.IH [of "layout_step env s x"]]
    by simp
qed

lemma layout_step_below:
  assumes al: "alignments_positive env" and td: "thumb_deltas env"
    and inv: "offsets_below (fst s) (snd s)"
  shows "offsets_below (fst (layout_step env s x)) (snd (layout_step env s x))"
proof (cases s)
  case (Pair offset w)
  have i: "offsets_below offset w" using inv by (simp add: Pair)
  show ?thesis
  proof (cases x)
    case (Method oci cdmi is_static is_direct idx d)
    obtain mo o1 w1 where
      r: "InitOatCodeMethod_offsets env offset w is_static idx d = (mo, o1, w1)"
      by (cases "InitOatCodeMethod_offsets env offset w is_static idx d") auto
    have "offsets_below o1 w1" by (rule method_below [OF al td i r])
    then show ?thesis by (simp add: Pair Method InitOatCodeMethod_def r offsets_below_def)
  next
    case (ClassEnd oci)
    show ?thesis using i by (simp add: Pair ClassEnd offsets_below_def)
  qed
qed

lemma layout_run_below:
  assumes al: "alignments_positive env" and td: "thumb_deltas env"
  shows "offsets_below (fst s) (snd s) \<Longrightarrow>
         offsets_below (fst (layout_run env s items)) (snd (layout_run env s items))"
proof (induction items arbitrary: s)
  case Nil then show ?case by simp
next
  case (Cons x xs)
  show ?case using Cons.IH [OF layout_step_below [OF al td Cons.prems, of x]] by simp
qed

lemma layout_step_frame: "code_layout_frame (snd s) (snd (layout_step env s x))"
proof (cases s)
  case (Pair offset w)
  show ?thesis
  proof (cases x)
    case (Method oci cdmi is_static is_direct idx d)
    show ?thesis
      using InitOatCodeMethod_frame_code [of w env offset oci cdmi is_static is_direct idx d]
      by (simp add: Pair Method)
  next
    case (ClassEnd oci)
    show ?thesis by (simp add: Pair ClassEnd code_layout_frame_def UpdateChecksum_fields)
  qed
qed

lemma layout_run_frame: "code_layout_frame (snd s) (snd (layout_run env s items))"
proof (induction items arbitrary: s)
  case Nil show ?case by (simp add: code_layout_frame_refl)
next
  case (Cons x xs)
  show ?case
    using code_layout_frame_trans [OF layout_step_frame [of s env x]
        Cons.IH [of "layout_step env s x"]]
    by simp
qed

text \<open>A walk leaves the entries of the other methods as they are.\<close>

lemma list_update2_other:
  "(a, b) \<noteq> (i, j) \<Longrightarrow> xss[a := (xss ! a)[b := v]] ! i ! j = xss ! i ! j"
  by (cases "a = i"; cases "a < length xss") (auto simp: list_update_beyond)

lemma layout_step_untouched:
  assumes "(oci, cdmi) \<notin> set (item_keys [x])"
  shows "oat_methods' (snd (layout_step env s x)) ! oci ! cdmi = oat_methods' (snd s) ! oci ! cdmi"
proof (cases s)
  case (Pair offset w)
  show ?thesis
  proof (cases x)
    case (Method a b is_static is_direct idx d)
    obtain mo o1 w1 where
      r: "InitOatCodeMethod_offsets env offset w is_static idx d = (mo, o1, w1)"
      by (cases "InitOatCodeMethod_offsets env offset w is_static idx d") auto
    have t: "oat_methods' w1 = oat_methods' w"
      using InitOatCodeMethod_offsets_frame [of w env offset is_static idx d] r by simp
    have ne: "(a, b) \<noteq> (oci, cdmi)" using assms by (auto simp: Method)
    show ?thesis
      using list_update2_other [OF ne, of "oat_methods' w" mo]
      by (simp add: Pair Method InitOatCodeMethod_def r t)
  next
    case (ClassEnd a)
    show ?thesis by (simp add: Pair ClassEnd)
  qed
qed

lemma layout_run_untouched:
  "(oci, cdmi) \<notin> set (item_keys items) \<Longrightarrow>
   oat_methods' (snd (layout_run env s items)) ! oci ! cdmi = oat_methods' (snd s) ! oci ! cdmi"
proof (induction items arbitrary: s)
  case Nil show ?case by simp
next
  case (Cons x xs)
  have 1: "(oci, cdmi) \<notin> set (item_keys [x])" and 2: "(oci, cdmi) \<notin> set (item_keys xs)"
    using Cons.prems item_keys_append [of "[x]" xs] by auto
  show ?case
    using Cons.IH [OF 2, of "layout_step env s x"] layout_step_untouched [OF 1, of env s] by simp
qed


subsection \<open>The final methods tables hold what each method stored\<close>

lemma stored_ok_append:
  "stored_ok env wl s (xs @ ys) = (stored_ok env wl s xs \<and> stored_ok env wl (layout_run env s xs) ys)"
proof (induction xs arbitrary: s)
  case Nil show ?case by simp
next
  case (Cons x xs)
  then show ?case by (cases x) simp_all
qed

lemma stored_ok_run:
  assumes "distinct (item_keys items)"
    and "\<forall>(a, b) \<in> set (item_keys items). a < length shape \<and> b < shape ! a"
    and "map length (oat_methods' (snd s)) = shape"
  shows "stored_ok env (snd (layout_run env s items)) s items"
  using assms
proof (induction items arbitrary: s)
  case Nil show ?case by simp
next
  case (Cons x xs)
  have shape1: "map length (oat_methods' (snd (layout_step env s x))) = shape"
    using layout_step_frame [of s env x] Cons.prems(3) by (simp add: code_layout_frame_def)
  show ?case
  proof (cases x)
    case (ClassEnd oci)
    have "stored_ok env (snd (layout_run env (layout_step env s x) xs)) (layout_step env s x) xs"
      using Cons.IH [OF _ _ shape1] Cons.prems(1,2) by (simp add: ClassEnd)
    then show ?thesis by (simp add: ClassEnd)
  next
    case (Method oci cdmi is_static is_direct idx d)
    obtain offset w where s: "s = (offset, w)" by (cases s)
    have d: "distinct (item_keys xs)" and n: "(oci, cdmi) \<notin> set (item_keys xs)"
      and r: "\<forall>(a, b) \<in> set (item_keys xs). a < length shape \<and> b < shape ! a"
      and i: "oci < length shape" "cdmi < shape ! oci"
      using Cons.prems(1,2) by (simp_all add: Method)
    have i1: "oci < length (oat_methods' w)"
      using i(1) Cons.prems(3) [symmetric] by (simp add: s)
    have "length (oat_methods' w ! oci) = shape ! oci"
      using nth_map [OF i1, of length] Cons.prems(3) by (simp add: s)
    then have i2: "cdmi < length (oat_methods' w ! oci)" using i(2) by simp
    have tail: "stored_ok env (snd (layout_run env (layout_step env s x) xs))
                  (layout_step env s x) xs"
      by (rule Cons.IH [OF d r shape1])
    have "oat_methods' (snd (layout_run env (layout_step env s x) xs)) ! oci ! cdmi
          = oat_methods' (snd (layout_step env s x)) ! oci ! cdmi"
      by (rule layout_run_untouched [OF n])
    also have "\<dots> = fst (InitOatCodeMethod_offsets env offset w is_static idx d)"
      using InitOatCodeMethod_stored [OF i1 i2, of env offset is_static is_direct idx d]
      by (simp add: s Method)
    finally show ?thesis using tail by (simp add: Method s)
  qed
qed

lemma stored_ok_OatWriter_new:
  "stored_ok env (snd (OatWriter_new env ds)) (code_start env ds) (all_items ds 0)"
proof -
  have "\<forall>(a, b) \<in> set (item_keys (all_items ds 0)).
          a < length (map num_methods (concat (map class_defs ds))) \<and>
          b < map num_methods (concat (map class_defs ds)) ! a"
    using item_keys_all_items_range [of _ _ ds 0] by fastforce
  then show ?thesis
    using stored_ok_run [where env = env and s = "code_start env ds"
        and items = "all_items ds 0", OF distinct_item_keys_all_items _ code_start_methods]
    by (simp add: OatWriter_new_run)
qed

subsection \<open>The emit pass follows the layout over the whole walk\<close>

lemma method_sync:
  assumes al: "alignments_positive env" and td: "thumb_deltas env"
    and inv: "offsets_below offset w" and f: "synced offset f"
    and lay: "InitOatCodeMethod_offsets env offset w is_static idx d = (mo, offset1, w1)"
    and fits: "offset1 < 2 ^ 32"
    and le: "maps_le w1 wl" and st: "oat_methods' wl ! oci ! cdmi = mo"
  shows "\<exists>g. WriteCodeMethod env wl offset oci cdmi is_static idx d f = (offset1, g) \<and>
             synced offset1 g \<and> log g = log f \<and> file_extends f g \<and>
             padded g = padded f @ method_image env offset w is_static idx d"
proof (cases "GetCompiledMethod env d idx")
  case None
  from method_sync_None [OF None al inv f lay fits le st] show ?thesis by blast
next
  case (Some cm)
  from method_sync_Some [OF Some al td inv f lay fits le st] show ?thesis by blast
qed

lemma emit_run_sync:
  assumes al: "alignments_positive env" and td: "thumb_deltas env"
  shows "stored_ok env wl s items \<Longrightarrow> maps_le (snd (layout_run env s items)) wl \<Longrightarrow>
         fst (layout_run env s items) < 2 ^ 32 \<Longrightarrow> offsets_below (fst s) (snd s) \<Longrightarrow>
         synced (fst s) f \<Longrightarrow>
         \<exists>g. emit_run env wl (fst s, f) items = (fst (layout_run env s items), g) \<and>
             synced (fst (layout_run env s items)) g \<and> log g = log f \<and> file_extends f g \<and>
             padded g = padded f @ items_image env s items"
proof (induction items arbitrary: s f)
  case Nil
  then show ?case by (simp add: synced_def file_extends_refl)
next
  case (Cons x xs)
  let ?s1 = "layout_step env s x"
  have le1: "maps_le (snd (layout_run env ?s1 xs)) wl" using Cons.prems(2) by simp
  have fits1: "fst (layout_run env ?s1 xs) < 2 ^ 32" using Cons.prems(3) by simp
  have b1: "offsets_below (fst ?s1) (snd ?s1)" by (rule layout_step_below [OF al td Cons.prems(4)])
  show ?case
  proof (cases x)
    case (ClassEnd oci)
    have st1: "stored_ok env wl ?s1 xs" using Cons.prems(1) by (simp add: ClassEnd)
    have e: "fst ?s1 = fst s" by (cases s) (simp add: ClassEnd)
    have f1: "synced (fst ?s1) f" using Cons.prems(5) e by simp
    from Cons.IH [OF st1 le1 fits1 b1 f1] show ?thesis
      unfolding e by (simp add: ClassEnd del: layout_step.simps)
  next
    case (Method oci cdmi is_static is_direct idx d)
    obtain offset w where s: "s = (offset, w)" by (cases s)
    obtain mo o1 w1 where
      r: "InitOatCodeMethod_offsets env offset w is_static idx d = (mo, o1, w1)"
      by (cases "InitOatCodeMethod_offsets env offset w is_static idx d") auto
    have s1: "?s1 = (o1, w1\<lparr>oat_methods' :=
                 (oat_methods' w1)[oci := (oat_methods' w1 ! oci)[cdmi := mo]]\<rparr>)"
      by (simp add: s Method InitOatCodeMethod_def r)
    have st: "oat_methods' wl ! oci ! cdmi = mo" and st1: "stored_ok env wl ?s1 xs"
      using Cons.prems(1) by (simp_all add: Method s r)
    have "maps_le w1 (snd ?s1)" by (simp add: s1 maps_le_def)
    then have le0: "maps_le w1 wl"
      using maps_le_trans [OF _ maps_le_trans [OF layout_run_maps_le [of ?s1 env xs] le1]]
      by blast
    have "o1 \<le> fst (layout_run env ?s1 xs)" using layout_run_mono [OF al, of ?s1 xs] s1 by simp
    then have fits0: "o1 < 2 ^ 32" using fits1 by simp
    have inv: "offsets_below offset w" and f: "synced offset f"
      using Cons.prems(4,5) by (simp_all add: s)
    obtain g where g: "WriteCodeMethod env wl offset oci cdmi is_static idx d f = (o1, g) \<and>
        synced o1 g \<and> log g = log f \<and> file_extends f g \<and>
        padded g = padded f @ method_image env offset w is_static idx d"
      using method_sync [OF al td inv f r fits0 le0 st] ..
    have pos: "offset \<noteq> 0" using inv by (simp add: offsets_below_def)
    have f1: "synced (fst ?s1) g" using g s1 by simp
    obtain h where h: "emit_run env wl (fst ?s1, g) xs = (fst (layout_run env ?s1 xs), h) \<and>
        synced (fst (layout_run env ?s1 xs)) h \<and> log h = log g \<and> file_extends g h \<and>
        padded h = padded g @ items_image env ?s1 xs"
      using Cons.IH [OF st1 le1 fits1 b1 f1] ..
    have step: "emit_step env wl (fst s, f) x = (fst ?s1, g)"
      using g pos s1 by (simp add: s Method del: layout_step.simps)
    have ext: "file_extends f h" using file_extends_trans g h by blast
    have img: "padded h = padded f @ items_image env s (x # xs)"
      using g h by (simp add: Method s del: layout_step.simps)
    show ?thesis
      using h g ext img by (simp add: step del: layout_step.simps emit_step.simps)
  qed
qed

subsection \<open>The emit pass writes the tables\<close>

text \<open>A descriptor of a dex file has the size that its \<^verbatim>\<open>SizeOf\<close> gives.\<close>

lemma InitOatDexFiles_dex_ok:
  "\<forall>d \<in> set (oat_dex_files' w). unat (dex_file_location_size' d) \<le> length (dex_file_location_data' d) \<Longrightarrow>
   \<forall>d \<in> set (oat_dex_files' (snd (InitOatDexFiles ds offset w))).
     unat (dex_file_location_size' d) \<le> length (dex_file_location_data' d)"
proof (induction ds arbitrary: offset w)
  case Nil then show ?case by simp
next
  case (Cons x xs)
  have "unat (dex_file_location_size' (OatDexFile_new x))
          \<le> length (dex_file_location_data' (OatDexFile_new x))"
    by (simp add: OatDexFile_new_def unat_of_nat_le del: of_nat_add)
  then show ?case using Cons.prems by (auto simp: Let_def intro!: Cons.IH)
qed

lemma InitOatClasses_dex_ok:
  "\<forall>d \<in> set (oat_dex_files' w). unat (dex_file_location_size' d) \<le> length (dex_file_location_data' d) \<Longrightarrow>
   \<forall>d \<in> set (oat_dex_files' (snd (InitOatClasses env ds i offset w))).
     unat (dex_file_location_size' d) \<le> length (dex_file_location_data' d)"
proof (induction ds arbitrary: i offset w)
  case Nil then show ?case by simp
next
  case (Cons x xs)
  let ?d = "(oat_dex_files' w ! i)\<lparr>classes_offset' := of_nat offset\<rparr>"
  have "\<forall>d \<in> set ((oat_dex_files' w)[i := ?d]).
          unat (dex_file_location_size' d) \<le> length (dex_file_location_data' d)"
  proof (cases "i < length (oat_dex_files' w)")
    case True
    then have "unat (dex_file_location_size' ?d) \<le> length (dex_file_location_data' ?d)"
      using Cons.prems by simp
    then show ?thesis
      using Cons.prems set_update_subset_insert [of "oat_dex_files' w" i ?d] by blast
  next
    case False
    then show ?thesis using Cons.prems by (simp add: list_update_beyond)
  qed
  then show ?case by (auto simp: Let_def intro!: Cons.IH)
qed

lemma InitOatMethods_classes_dex [simp]:
  "oat_dex_files' (snd (InitOatMethods_classes cs i k offset w)) = oat_dex_files' w"
  by (induction cs arbitrary: k offset w) (simp_all add: Let_def)

lemma InitOatMethods_dex [simp]:
  "oat_dex_files' (snd (InitOatMethods env ds i offset w)) = oat_dex_files' w"
proof (induction ds arbitrary: i offset w)
  case Nil show ?case by simp
next
  case (Cons d ds)
  obtain o1 w1 where r: "InitOatMethods_classes (class_defs d) i 0 offset w = (o1, w1)"
    by (cases "InitOatMethods_classes (class_defs d) i 0 offset w")
  have "oat_dex_files' w1 = oat_dex_files' w"
    using InitOatMethods_classes_dex [of "class_defs d" i 0 offset w] r by simp
  then show ?case by (simp add: r Cons.IH)
qed

lemma OatWriter_new_dex_ok:
  "\<forall>d \<in> set (oat_dex_files' (snd (OatWriter_new env ds))).
     unat (dex_file_location_size' d) \<le> length (dex_file_location_data' d)"
proof -
  obtain o0 w0 where r0: "InitOatHeader env ds = (o0, w0)"
    by (cases "InitOatHeader env ds")
  obtain o1 w1 where r1: "InitOatDexFiles ds o0 w0 = (o1, w1)"
    by (cases "InitOatDexFiles ds o0 w0")
  obtain o2 w2 where r2: "InitOatClasses env ds 0 o1 w1 = (o2, w2)"
    by (cases "InitOatClasses env ds 0 o1 w1")
  obtain o3 w3 where r3: "InitOatMethods env ds 0 o2 w2 = (o3, w3)"
    by (cases "InitOatMethods env ds 0 o2 w2")
  have "oat_dex_files' w0 = []" using r0 by (auto simp: InitOatHeader_def Let_def)
  then have 1: "\<forall>d \<in> set (oat_dex_files' w1).
      unat (dex_file_location_size' d) \<le> length (dex_file_location_data' d)"
    using InitOatDexFiles_dex_ok [of w0 ds o0] r1 by simp
  have 2: "\<forall>d \<in> set (oat_dex_files' w2).
      unat (dex_file_location_size' d) \<le> length (dex_file_location_data' d)"
    using InitOatClasses_dex_ok [OF 1, of env ds 0 o1] r2 by simp
  have 3: "oat_dex_files' w3 = oat_dex_files' w2"
    using InitOatMethods_dex [of env ds 0 o2 w2] r3 by simp
  have s: "code_start env ds = InitOatCode env o3 w3"
    by (simp add: code_start_def InitOatTables_def r0 r1 r2 r3)
  have "code_layout_frame (snd (code_start env ds)) (snd (OatWriter_new env ds))"
    unfolding OatWriter_new_run by (rule layout_run_frame)
  then have "oat_dex_files' (snd (OatWriter_new env ds)) = oat_dex_files' w3"
    by (simp add: code_layout_frame_def s InitOatCode_def Let_def)
  then show ?thesis using 2 3 by simp
qed

lemma length_OatDexFile_bytes:
  "unat (dex_file_location_size' d) \<le> length (dex_file_location_data' d) \<Longrightarrow>
   length (OatDexFile_bytes d) = OatDexFile_SizeOf d"
  by (simp add: OatDexFile_bytes_def OatDexFile_SizeOf_def OatDexFile_location_def length_le32)

lemma length_concat_le32: "length (concat (map le32 xs)) = 4 * length xs"
  by (induction xs) (simp_all add: length_le32)

lemma length_OatClasses_bytes: "length (OatClasses_bytes c) = OatClasses_SizeOf c"
  by (simp add: OatClasses_bytes_def OatClasses_SizeOf_def length_concat_le32)

lemma length_OatMethods_bytes: "length (OatMethods_bytes m) = OatMethods_SizeOf m"
  by (induction m)
     (simp_all add: OatMethods_bytes_def OatMethods_SizeOf_def OatMethodOffsets_bytes_def
        length_le32)

lemma length_concat_map:
  "(\<And>x. x \<in> set xs \<Longrightarrow> length (f x) = g x) \<Longrightarrow> length (concat (map f xs)) = sum_list (map g xs)"
  by (induction xs) simp_all

lemma length_tables_image:
  "length (tables_image (snd (OatWriter_new env ds))) = tables_size (snd (OatWriter_new env ds))"
  using OatWriter_new_dex_ok [of env ds]
  by (simp add: tables_image_def tables_size_def sizeof_OatHeader_def
      length_concat_map [of _ OatDexFile_bytes OatDexFile_SizeOf]
      length_concat_map [of _ OatClasses_bytes OatClasses_SizeOf]
      length_concat_map [of _ OatMethods_bytes OatMethods_SizeOf]
      length_OatDexFile_bytes length_OatClasses_bytes length_OatMethods_bytes)

text \<open>The writers of the three tables.\<close>

lemma OatDexFile_Write_sync:
  assumes "synced c f"
  shows "\<exists>g. OatDexFile_Write d f = (True, g) \<and> synced (c + length (OatDexFile_bytes d)) g \<and>
             log g = log f \<and> padded g = padded f @ OatDexFile_bytes d \<and> file_extends f g"
proof -
  define g1 where "g1 = snd (WriteFully (le32 (dex_file_location_size' d)) f)"
  define g2 where "g2 = snd (WriteFully (OatDexFile_location d) g1)"
  define g3 where "g3 = snd (WriteFully (le32 (dex_file_checksum' d)) g2)"
  define g4 where "g4 = snd (WriteFully (le32 (classes_offset' d)) g3)"
  note w1 = synced_WriteFully [OF assms, of "le32 (dex_file_location_size' d)", folded g1_def]
  have s1: "synced (c + length (le32 (dex_file_location_size' d))) g1" using w1 by simp
  note w2 = synced_WriteFully [OF s1, of "OatDexFile_location d", folded g2_def]
  have s2: "synced (c + length (le32 (dex_file_location_size' d))
                      + length (OatDexFile_location d)) g2" using w2 by simp
  note w3 = synced_WriteFully [OF s2, of "le32 (dex_file_checksum' d)", folded g3_def]
  have s3: "synced (c + length (le32 (dex_file_location_size' d))
                      + length (OatDexFile_location d)
                      + length (le32 (dex_file_checksum' d))) g3" using w3 by simp
  note w4 = synced_WriteFully [OF s3, of "le32 (classes_offset' d)", folded g4_def]
  have r: "OatDexFile_Write d f = (True, g4)"
    using synced_WriteFully_or [OF assms, of _ "le32 (dex_file_location_size' d)"]
      synced_WriteFully_or [OF s1, of _ "OatDexFile_location d"]
      synced_WriteFully_or [OF s2, of _ "le32 (dex_file_checksum' d)"]
      synced_WriteFully_or [OF s3, of _ "le32 (classes_offset' d)"]
    by (simp add: OatDexFile_Write_def g1_def g2_def g3_def g4_def)
  have e01: "file_extends f g1" and e12: "file_extends g1 g2" and e23: "file_extends g2 g3"
    and e34: "file_extends g3 g4" using w1 w2 w3 w4 by simp_all
  have ext: "file_extends f g4"
    by (rule file_extends_trans [OF e01 file_extends_trans [OF e12
          file_extends_trans [OF e23 e34]]])
  have sy: "synced (c + length (OatDexFile_bytes d)) g4"
    using w4 by (simp add: OatDexFile_bytes_def add.assoc)
  have lg: "log g4 = log f" using w1 w2 w3 w4 by simp
  have pd: "padded g4 = padded f @ OatDexFile_bytes d"
    using w1 w2 w3 w4 by (simp add: OatDexFile_bytes_def)
  show ?thesis by (intro exI [of _ g4] conjI r sy lg pd ext)
qed

lemma WriteFully_or_sync:
  assumes "synced c f"
  shows "\<exists>g. WriteFully_or e bs f = (True, g) \<and> synced (c + length bs) g \<and>
             log g = log f \<and> padded g = padded f @ bs \<and> file_extends f g"
proof -
  have r: "WriteFully_or e bs f = (True, snd (WriteFully bs f))"
    by (rule synced_WriteFully_or [OF assms])
  show ?thesis
    unfolding r using synced_WriteFully [OF assms, of bs]
    by (intro exI [of _ "snd (WriteFully bs f)"]) simp
qed

lemma WriteTables_loop_sync:
  assumes wr: "\<And>x c f. synced c f \<Longrightarrow>
                 \<exists>g. wr x f = (True, g) \<and> synced (c + length (bytes x)) g \<and>
                     log g = log f \<and> padded g = padded f @ bytes x \<and> file_extends f g"
  shows "synced c f \<Longrightarrow>
         \<exists>g. WriteTables_loop wr d xs f = (True, g) \<and>
             synced (c + length (concat (map bytes xs))) g \<and>
             log g = log f \<and> padded g = padded f @ concat (map bytes xs) \<and> file_extends f g"
proof (induction xs arbitrary: c f)
  case Nil
  then show ?case by (simp add: synced_def file_extends_refl)
next
  case (Cons x xs)
  obtain g where g: "wr x f = (True, g) \<and> synced (c + length (bytes x)) g \<and>
      log g = log f \<and> padded g = padded f @ bytes x \<and> file_extends f g"
    using wr [OF Cons.prems, of x] ..
  have sg: "synced (c + length (bytes x)) g" using g by simp
  obtain h where h: "WriteTables_loop wr d xs g = (True, h) \<and>
      synced (c + length (bytes x) + length (concat (map bytes xs))) h \<and>
      log h = log g \<and> padded h = padded g @ concat (map bytes xs) \<and> file_extends g h"
    using Cons.IH [OF sg] ..
  have "file_extends f h" using file_extends_trans g h by blast
  then show ?case using g h by (simp add: add.assoc)
qed

lemma WriteTables_sync:
  assumes "synced c f"
  shows "\<exists>g. WriteTables w f = (True, g) \<and>
             synced (c + length (concat (map OatDexFile_bytes (oat_dex_files' w)) @
                                  concat (map OatClasses_bytes (oat_classes' w)) @
                                  concat (map OatMethods_bytes (oat_methods' w)))) g \<and>
             log g = log f \<and>
             padded g = padded f @ concat (map OatDexFile_bytes (oat_dex_files' w)) @
                          concat (map OatClasses_bytes (oat_classes' w)) @
                          concat (map OatMethods_bytes (oat_methods' w)) \<and>
             file_extends f g"
proof -
  obtain g1 where g1: "WriteTables_loop OatDexFile_Write
        (Error ''Failed to write oat dex information'') (oat_dex_files' w) f = (True, g1) \<and>
      synced (c + length (concat (map OatDexFile_bytes (oat_dex_files' w)))) g1 \<and>
      log g1 = log f \<and>
      padded g1 = padded f @ concat (map OatDexFile_bytes (oat_dex_files' w)) \<and>
      file_extends f g1"
    using WriteTables_loop_sync [where wr = OatDexFile_Write and bytes = OatDexFile_bytes,
        OF OatDexFile_Write_sync assms] by blast
  have s1: "synced (c + length (concat (map OatDexFile_bytes (oat_dex_files' w)))) g1"
    using g1 by simp
  have c: "\<And>x c f. synced c f \<Longrightarrow>
      \<exists>g. OatClasses_Write x f = (True, g) \<and> synced (c + length (OatClasses_bytes x)) g \<and>
          log g = log f \<and> padded g = padded f @ OatClasses_bytes x \<and> file_extends f g"
    unfolding OatClasses_Write_def by (rule WriteFully_or_sync)
  obtain g2 where g2: "WriteTables_loop OatClasses_Write
        (Error ''Failed to write oat classes information'') (oat_classes' w) g1 = (True, g2) \<and>
      synced (c + length (concat (map OatDexFile_bytes (oat_dex_files' w)))
                + length (concat (map OatClasses_bytes (oat_classes' w)))) g2 \<and>
      log g2 = log g1 \<and>
      padded g2 = padded g1 @ concat (map OatClasses_bytes (oat_classes' w)) \<and>
      file_extends g1 g2"
    using WriteTables_loop_sync [where wr = OatClasses_Write and bytes = OatClasses_bytes,
        OF c s1] by blast
  have s2: "synced (c + length (concat (map OatDexFile_bytes (oat_dex_files' w)))
                + length (concat (map OatClasses_bytes (oat_classes' w)))) g2"
    using g2 by simp
  have m: "\<And>x c f. synced c f \<Longrightarrow>
      \<exists>g. OatMethods_Write x f = (True, g) \<and> synced (c + length (OatMethods_bytes x)) g \<and>
          log g = log f \<and> padded g = padded f @ OatMethods_bytes x \<and> file_extends f g"
    unfolding OatMethods_Write_def by (rule WriteFully_or_sync)
  obtain g3 where g3: "WriteTables_loop OatMethods_Write
        (Error ''Failed to write oat methods information'') (oat_methods' w) g2 = (True, g3) \<and>
      synced (c + length (concat (map OatDexFile_bytes (oat_dex_files' w)))
                + length (concat (map OatClasses_bytes (oat_classes' w)))
                + length (concat (map OatMethods_bytes (oat_methods' w)))) g3 \<and>
      log g3 = log g2 \<and>
      padded g3 = padded g2 @ concat (map OatMethods_bytes (oat_methods' w)) \<and>
      file_extends g2 g3"
    using WriteTables_loop_sync [where wr = OatMethods_Write and bytes = OatMethods_bytes,
        OF m s2] by blast
  have ext: "file_extends f g3"
    using file_extends_trans [OF _ file_extends_trans [of g1 g2 g3]] g1 g2 g3 by blast
  have r: "WriteTables w f = (True, g3)" using g1 g2 g3 by (simp add: WriteTables_def)
  show ?thesis using r g1 g2 g3 ext by (simp add: add.assoc)
qed


subsection \<open>The emit pass writes the file that the layout has laid out\<close>

lemma InitOatDexFiles_maps [simp]:
  "code_offsets' (snd (InitOatDexFiles ds offset w)) = code_offsets' w"
  "mapping_table_offsets' (snd (InitOatDexFiles ds offset w)) = mapping_table_offsets' w"
  "vmap_table_offsets' (snd (InitOatDexFiles ds offset w)) = vmap_table_offsets' w"
  by (induction ds arbitrary: offset w) (simp_all add: Let_def)

lemma InitOatClasses_maps [simp]:
  "code_offsets' (snd (InitOatClasses env ds i offset w)) = code_offsets' w"
  "mapping_table_offsets' (snd (InitOatClasses env ds i offset w)) = mapping_table_offsets' w"
  "vmap_table_offsets' (snd (InitOatClasses env ds i offset w)) = vmap_table_offsets' w"
  by (induction ds arbitrary: i offset w) (simp_all add: Let_def)

lemma InitOatMethods_classes_maps [simp]:
  "code_offsets' (snd (InitOatMethods_classes cs i k offset w)) = code_offsets' w"
  "mapping_table_offsets' (snd (InitOatMethods_classes cs i k offset w))
     = mapping_table_offsets' w"
  "vmap_table_offsets' (snd (InitOatMethods_classes cs i k offset w)) = vmap_table_offsets' w"
  by (induction cs arbitrary: k offset w) (simp_all add: Let_def)

lemma InitOatMethods_maps:
  "code_offsets' (snd (InitOatMethods env ds i offset w)) = code_offsets' w \<and>
   mapping_table_offsets' (snd (InitOatMethods env ds i offset w)) = mapping_table_offsets' w \<and>
   vmap_table_offsets' (snd (InitOatMethods env ds i offset w)) = vmap_table_offsets' w"
proof (induction ds arbitrary: i offset w)
  case Nil show ?case by simp
next
  case (Cons d ds)
  obtain o1 w1 where r: "InitOatMethods_classes (class_defs d) i 0 offset w = (o1, w1)"
    by (cases "InitOatMethods_classes (class_defs d) i 0 offset w")
  have "code_offsets' w1 = code_offsets' w" "mapping_table_offsets' w1 = mapping_table_offsets' w"
    "vmap_table_offsets' w1 = vmap_table_offsets' w"
    using InitOatMethods_classes_maps [of "class_defs d" i 0 offset w] r by simp_all
  then show ?case by (simp add: r Cons.IH)
qed

lemma sizeof_OatHeader_pos: "0 < sizeof_OatHeader h"
  by (simp add: sizeof_OatHeader_def OatHeader_bytes_def length_le32)

lemma code_start_below:
  assumes "0 < kPageSize env"
  shows "offsets_below (fst (code_start env ds)) (snd (code_start env ds))"
proof -
  obtain o0 w0 where r0: "InitOatHeader env ds = (o0, w0)"
    by (cases "InitOatHeader env ds")
  obtain o1 w1 where r1: "InitOatDexFiles ds o0 w0 = (o1, w1)"
    by (cases "InitOatDexFiles ds o0 w0")
  obtain o2 w2 where r2: "InitOatClasses env ds 0 o1 w1 = (o2, w2)"
    by (cases "InitOatClasses env ds 0 o1 w1")
  obtain o3 w3 where r3: "InitOatMethods env ds 0 o2 w2 = (o3, w3)"
    by (cases "InitOatMethods env ds 0 o2 w2")
  have m0: "code_offsets' w0 = Map.empty" "mapping_table_offsets' w0 = Map.empty"
    "vmap_table_offsets' w0 = Map.empty" and p0: "0 < o0"
    using r0 by (auto simp: InitOatHeader_def Let_def sizeof_OatHeader_pos)
  have m1: "code_offsets' w1 = Map.empty" "mapping_table_offsets' w1 = Map.empty"
    "vmap_table_offsets' w1 = Map.empty"
    using InitOatDexFiles_maps [of ds o0 w0] r1 m0 by simp_all
  have m2: "code_offsets' w2 = Map.empty" "mapping_table_offsets' w2 = Map.empty"
    "vmap_table_offsets' w2 = Map.empty"
    using InitOatClasses_maps [of env ds 0 o1 w1] r2 m1 by simp_all
  have m3: "code_offsets' w3 = Map.empty" "mapping_table_offsets' w3 = Map.empty"
    "vmap_table_offsets' w3 = Map.empty"
    using InitOatMethods_maps [of env ds 0 o2 w2] r3 m2 by simp_all
  have "o0 \<le> o1" using InitOatDexFiles_mono [of o0 ds w0] r1 by simp
  moreover have "o1 \<le> o2" using InitOatClasses_mono [of o1 env ds 0 w1] r2 by simp
  moreover have "o2 \<le> o3" using InitOatMethods_mono [of o2 env ds 0 w2] r3 by simp
  moreover have "o3 \<le> RoundUp o3 (kPageSize env)" using assms by (rule RoundUp_ge)
  ultimately have "0 < RoundUp o3 (kPageSize env)" using p0 by simp
  then show ?thesis
    by (simp add: code_start_def InitOatTables_def r0 r1 r2 r3 InitOatCode_def Let_def
        offsets_below_def m3)
qed

lemma synced_0_padded: "synced 0 f \<Longrightarrow> padded f = []"
  by (auto simp: synced_def file_ok_def padded_def)

lemma Write_tables_sync:
  assumes al: "alignments_positive env"
    and fits: "fst (OatWriter_new env ds) < 2 ^ 32" and f: "synced 0 f"
  shows "\<exists>g2. synced (fst (code_start env ds)) g2 \<and> log g2 = log f \<and>
              padded g2 = tables_image (snd (OatWriter_new env ds)) @
                replicate (executable_offset_padding_length' (snd (OatWriter_new env ds))) 0 \<and>
              has_bytes g2 0 (OatHeader_bytes (oat_header' (snd (OatWriter_new env ds)))) \<and>
              (\<forall>g3. emit_run env (snd (OatWriter_new env ds)) (fst (code_start env ds), g2)
                      (all_items ds 0) = (fst (OatWriter_new env ds), g3) \<longrightarrow>
                    Write env ds (snd (OatWriter_new env ds)) f = (True, g3))"
proof -
  let ?wl = "snd (OatWriter_new env ds)"
  let ?items = "all_items ds 0"
  have page: "0 < kPageSize env" using al by (simp add: alignments_positive_def)
  obtain o3 w3 where t: "InitOatTables env ds = (o3, w3)" by (cases "InitOatTables env ds")
  let ?e = "RoundUp o3 (kPageSize env)"
  note hd = OatWriter_new_header [OF t]
  have cs: "fst (code_start env ds) = ?e"
    by (simp add: code_start_def t InitOatCode_def Let_def)
  have run: "OatWriter_new env ds = layout_run env (code_start env ds) ?items"
    by (rule OatWriter_new_run)
  have ge: "o3 \<le> ?e" using page by (rule RoundUp_ge)
  have et: "?e \<le> fst (OatWriter_new env ds)"
    unfolding run using layout_run_mono [OF al, of "code_start env ds" ?items] cs by simp
  then have efits: "?e < 2 ^ 32" using fits by simp
  have o3pos: "0 < o3"
    using hd sizeof_OatHeader_pos [of "oat_header' ?wl"] by (simp add: tables_size_def)
  have epos: "?e \<noteq> 0" using ge o3pos by simp
  text \<open>The header and the tables.\<close>
  define g0 where "g0 = snd (WriteFully (OatHeader_bytes (oat_header' ?wl)) f)"
  note w0 = synced_WriteFully [OF f, of "OatHeader_bytes (oat_header' ?wl)", folded g0_def]
  have r0: "WriteFully_or (Error ''Failed to write oat header'')
              (OatHeader_bytes (oat_header' ?wl)) f = (True, g0)"
    unfolding g0_def by (rule synced_WriteFully_or [OF f])
  have hne: "OatHeader_bytes (oat_header' ?wl) \<noteq> []"
    using sizeof_OatHeader_pos [of "oat_header' ?wl"] by (simp add: sizeof_OatHeader_def)
  have h0: "has_bytes g0 0 (OatHeader_bytes (oat_header' ?wl))" using w0 hne by simp
  have s0: "synced (length (OatHeader_bytes (oat_header' ?wl))) g0" using w0 by simp
  obtain g1 where g1: "WriteTables ?wl g0 = (True, g1) \<and>
      synced (length (OatHeader_bytes (oat_header' ?wl))
              + length (concat (map OatDexFile_bytes (oat_dex_files' ?wl)) @
                        concat (map OatClasses_bytes (oat_classes' ?wl)) @
                        concat (map OatMethods_bytes (oat_methods' ?wl)))) g1 \<and>
      log g1 = log g0 \<and>
      padded g1 = padded g0 @ concat (map OatDexFile_bytes (oat_dex_files' ?wl)) @
                    concat (map OatClasses_bytes (oat_classes' ?wl)) @
                    concat (map OatMethods_bytes (oat_methods' ?wl)) \<and>
      file_extends g0 g1"
    using WriteTables_sync [OF s0] ..
  have p1: "padded g1 = tables_image ?wl"
    using w0 g1 synced_0_padded [OF f] by (simp add: tables_image_def)
  have "length (OatHeader_bytes (oat_header' ?wl))
          + length (concat (map OatDexFile_bytes (oat_dex_files' ?wl)) @
                    concat (map OatClasses_bytes (oat_classes' ?wl)) @
                    concat (map OatMethods_bytes (oat_methods' ?wl)))
        = length (tables_image ?wl)"
    by (simp add: tables_image_def)
  also have "\<dots> = o3" using length_tables_image [of env ds] hd by simp
  finally have s1: "synced o3 g1" using g1 by simp
  text \<open>The seek to the executable section.\<close>
  define g2 where "g2 = snd (lseek_cur (?e - o3) g1)"
  note sk = synced_lseek_cur [OF s1, of "?e - o3", folded g2_def]
  have s2: "synced (fst (code_start env ds)) g2" using sk ge cs by simp
  have wc: "WriteCode ?wl g1 = (?e, g2)"
    using sk ge hd efits by (simp add: WriteCode_def Let_def unat_of_nat_u32)
  have p2: "padded g2 = tables_image ?wl @ replicate (executable_offset_padding_length' ?wl) 0"
    using sk p1 hd by simp
  have e02: "file_extends g0 g2" using file_extends_trans g1 sk by blast
  have h2: "has_bytes g2 0 (OatHeader_bytes (oat_header' ?wl))"
    by (rule has_bytes_extends [OF h0 e02])
  have lg: "log g2 = log f" using w0 g1 sk by simp
  have tpos: "fst (OatWriter_new env ds) \<noteq> 0" using et epos by simp
  have fin: "\<forall>g3. emit_run env ?wl (fst (code_start env ds), g2) ?items
                     = (fst (OatWriter_new env ds), g3) \<longrightarrow>
                   Write env ds ?wl f = (True, g3)"
  proof (intro allI impI)
    fix g3
    assume "emit_run env ?wl (fst (code_start env ds), g2) ?items
              = (fst (OatWriter_new env ds), g3)"
    then have "WriteCodeDexFiles env ?wl ds 0 ?e g2 = (fst (OatWriter_new env ds), g3)"
      using WriteCodeDexFiles_run [OF epos, of env ?wl ds 0 g2] cs by simp
    then show "Write env ds ?wl f = (True, g3)"
      using r0 g1 wc epos tpos by (simp add: Write_def)
  qed
  show ?thesis by (intro exI [of _ g2] conjI s2 lg p2 h2 fin)
qed

text \<open>
  The whole emit pass: on a fresh file without failures it succeeds, logs nothing, and
  leaves the file of the spec, with the header at its start.
\<close>

lemma Write_sync:
  assumes al: "alignments_positive env" and td: "thumb_deltas env"
    and fits: "fst (OatWriter_new env ds) < 2 ^ 32" and f: "synced 0 f"
  shows "\<exists>g. Write env ds (snd (OatWriter_new env ds)) f = (True, g) \<and>
             synced (fst (OatWriter_new env ds)) g \<and> log g = log f \<and>
             padded g = file_image env ds \<and>
             has_bytes g 0 (OatHeader_bytes (oat_header' (snd (OatWriter_new env ds))))"
proof -
  let ?wl = "snd (OatWriter_new env ds)"
  let ?items = "all_items ds 0"
  have page: "0 < kPageSize env" using al by (simp add: alignments_positive_def)
  have run: "OatWriter_new env ds = layout_run env (code_start env ds) ?items"
    by (rule OatWriter_new_run)
  obtain g2 where g2: "synced (fst (code_start env ds)) g2 \<and> log g2 = log f \<and>
      padded g2 = tables_image ?wl @ replicate (executable_offset_padding_length' ?wl) 0 \<and>
      has_bytes g2 0 (OatHeader_bytes (oat_header' ?wl)) \<and>
      (\<forall>g3. emit_run env ?wl (fst (code_start env ds), g2) ?items
               = (fst (OatWriter_new env ds), g3) \<longrightarrow>
             Write env ds ?wl f = (True, g3))"
    using Write_tables_sync [OF al fits f] ..
  have s2: "synced (fst (code_start env ds)) g2" using g2 by simp
  have st: "stored_ok env ?wl (code_start env ds) ?items" by (rule stored_ok_OatWriter_new)
  have le: "maps_le (snd (layout_run env (code_start env ds) ?items)) ?wl"
    unfolding run [symmetric] by simp
  have fits1: "fst (layout_run env (code_start env ds) ?items) < 2 ^ 32"
    unfolding run [symmetric] by (rule fits)
  obtain g3 where g3: "emit_run env ?wl (fst (code_start env ds), g2) ?items
        = (fst (layout_run env (code_start env ds) ?items), g3) \<and>
      synced (fst (layout_run env (code_start env ds) ?items)) g3 \<and> log g3 = log g2 \<and>
      file_extends g2 g3 \<and>
      padded g3 = padded g2 @ items_image env (code_start env ds) ?items"
    using emit_run_sync [OF al td st le fits1 code_start_below [OF page] s2] ..
  have r: "Write env ds ?wl f = (True, g3)" using g2 g3 run by simp
  have sy: "synced (fst (OatWriter_new env ds)) g3" using g3 run by simp
  have lg: "log g3 = log f" using g2 g3 by simp
  have pd: "padded g3 = file_image env ds"
    using g3 g2 by (simp add: file_image_def Let_def)
  have hb: "has_bytes g3 0 (OatHeader_bytes (oat_header' ?wl))"
    using has_bytes_extends g2 g3 by blast
  show ?thesis by (intro exI [of _ g3] conjI r sy lg pd hb)
qed

subsection \<open>A method in the walk\<close>

text \<open>
  The layout reaches a method of the walk in the state (\<open>offset\<close>, \<open>w\<close>): the invariant holds
  there, the cursor after the method is at most the final cursor, the maps after the method
  are part of the final maps, and the final table has the offsets of the method.
\<close>

lemma walk_state:
  assumes al: "alignments_positive env" and td: "thumb_deltas env"
    and below: "offsets_below (fst s0) (snd s0)"
    and split: "items = pre @ Method oci cdmi is_static is_direct idx d # post"
    and state: "layout_run env s0 pre = (offset, w)"
    and lay: "InitOatCodeMethod_offsets env offset w is_static idx d = (mo, o1, w1)"
  shows "offsets_below offset w" and "o1 \<le> fst (layout_run env s0 items)"
    and "maps_le w1 (snd (layout_run env s0 items))"
    and "stored_ok env wl s0 items \<Longrightarrow> oat_methods' wl ! oci ! cdmi = mo"
    and "stored_ok env wl s0 items \<Longrightarrow> stored_ok env wl s0 pre"
    and "stored_ok env wl s0 items \<Longrightarrow>
         stored_ok env wl
           (layout_step env (offset, w) (Method oci cdmi is_static is_direct idx d)) post"
    and "layout_run env s0 items
         = layout_run env
             (layout_step env (offset, w) (Method oci cdmi is_static is_direct idx d)) post"
    and "fst (layout_step env (offset, w) (Method oci cdmi is_static is_direct idx d)) = o1"
    and "maps_le w1 (snd (layout_step env (offset, w)
                            (Method oci cdmi is_static is_direct idx d)))"
proof -
  let ?x = "Method oci cdmi is_static is_direct idx d"
  let ?s1 = "layout_step env (offset, w) ?x"
  show b: "offsets_below offset w"
    using layout_run_below [OF al td below, of pre] state by simp
  have s1: "?s1 = (o1, w1\<lparr>oat_methods' :=
               (oat_methods' w1)[oci := (oat_methods' w1 ! oci)[cdmi := mo]]\<rparr>)"
    by (simp add: InitOatCodeMethod_def lay)
  show run: "layout_run env s0 items = layout_run env ?s1 post"
    by (simp add: split state del: layout_step.simps)
  show f1: "fst ?s1 = o1" unfolding s1 by simp
  show "o1 \<le> fst (layout_run env s0 items)"
    unfolding run using layout_run_mono [OF al, of ?s1 post] f1 by simp
  show m1: "maps_le w1 (snd ?s1)" unfolding s1 by (simp add: maps_le_def)
  show "maps_le w1 (snd (layout_run env s0 items))"
    unfolding run by (rule maps_le_trans [OF m1 layout_run_maps_le])
  show "stored_ok env wl s0 items \<Longrightarrow> oat_methods' wl ! oci ! cdmi = mo"
    by (simp add: split stored_ok_append state lay del: layout_step.simps)
  show "stored_ok env wl s0 items \<Longrightarrow> stored_ok env wl s0 pre"
    by (simp add: split stored_ok_append)
  show "stored_ok env wl s0 items \<Longrightarrow> stored_ok env wl ?s1 post"
    by (simp add: split stored_ok_append state del: layout_step.simps)
qed

text \<open>
  The emit pass reaches the method with the cursor of the layout, in a file at that
  position, and what it writes for the method stays in the file.
\<close>

lemma emit_run_split:
  assumes al: "alignments_positive env" and td: "thumb_deltas env"
    and below: "offsets_below (fst s0) (snd s0)"
    and split: "items = pre @ Method oci cdmi is_static is_direct idx d # post"
    and state: "layout_run env s0 pre = (offset, w)"
    and lay: "InitOatCodeMethod_offsets env offset w is_static idx d = (mo, o1, w1)"
    and st: "stored_ok env wl s0 items"
    and le: "maps_le (snd (layout_run env s0 items)) wl"
    and fits: "fst (layout_run env s0 items) < 2 ^ 32"
    and f: "synced (fst s0) f"
  shows "\<exists>f1 g1 g. emit_run env wl (fst s0, f) pre = (offset, f1) \<and> synced offset f1 \<and>
           WriteCodeMethod env wl offset oci cdmi is_static idx d f1 = (o1, g1) \<and>
           emit_run env wl (fst s0, f) items = (fst (layout_run env s0 items), g) \<and>
           synced (fst (layout_run env s0 items)) g \<and> file_extends g1 g \<and> log g = log f"
proof -
  let ?x = "Method oci cdmi is_static is_direct idx d"
  let ?s1 = "layout_step env (offset, w) ?x"
  note ws = walk_state [OF al td below split state lay]
  have inv: "offsets_below offset w" by (rule ws(1))
  have le1: "maps_le w1 wl" by (rule maps_le_trans [OF ws(3) le])
  have fits1: "o1 < 2 ^ 32" using ws(2) fits by simp
  have sto: "oat_methods' wl ! oci ! cdmi = mo" by (rule ws(4) [OF st])
  text \<open>Up to the method.\<close>
  have "maps_le w (snd ?s1)" using layout_step_maps_le [of "(offset, w)" env ?x] by simp
  then have "maps_le w (snd (layout_run env s0 items))"
    unfolding ws(7) using maps_le_trans layout_run_maps_le by blast
  then have lep: "maps_le (snd (layout_run env s0 pre)) wl"
    using maps_le_trans le state by fastforce
  have "offset \<le> o1"
    using layout_step_mono [OF al, of "(offset, w)" ?x] ws(8) by simp
  then have fitsp: "fst (layout_run env s0 pre) < 2 ^ 32" using fits1 state by simp
  obtain f1 where f1: "emit_run env wl (fst s0, f) pre = (fst (layout_run env s0 pre), f1) \<and>
      synced (fst (layout_run env s0 pre)) f1 \<and> log f1 = log f \<and> file_extends f f1 \<and>
      padded f1 = padded f @ items_image env s0 pre"
    using emit_run_sync [OF al td ws(5) [OF st] lep fitsp below f] ..
  have sf1: "synced offset f1" using f1 state by simp
  text \<open>The method.\<close>
  obtain g1 where g1: "WriteCodeMethod env wl offset oci cdmi is_static idx d f1 = (o1, g1) \<and>
      synced o1 g1 \<and> log g1 = log f1 \<and> file_extends f1 g1 \<and>
      padded g1 = padded f1 @ method_image env offset w is_static idx d"
    using method_sync [OF al td inv sf1 lay fits1 le1 sto] ..
  text \<open>After the method.\<close>
  have b1: "offsets_below (fst ?s1) (snd ?s1)"
    using layout_step_below [OF al td, of "(offset, w)" ?x] inv by simp
  have sg1: "synced (fst ?s1) g1" using g1 ws(8) by simp
  have le2: "maps_le (snd (layout_run env ?s1 post)) wl" using le ws(7) by simp
  have fits2: "fst (layout_run env ?s1 post) < 2 ^ 32" using fits ws(7) by simp
  obtain g where g: "emit_run env wl (fst ?s1, g1) post = (fst (layout_run env ?s1 post), g) \<and>
      synced (fst (layout_run env ?s1 post)) g \<and> log g = log g1 \<and> file_extends g1 g \<and>
      padded g = padded g1 @ items_image env ?s1 post"
    using emit_run_sync [OF al td ws(6) [OF st] le2 fits2 b1 sg1] ..
  have pos: "offset \<noteq> 0" using inv by (simp add: offsets_below_def)
  have e1: "emit_run env wl (fst s0, f) pre = (offset, f1)" using f1 state by simp
  have step: "emit_step env wl (offset, f1) ?x = (fst ?s1, g1)"
    using g1 pos ws(8) by simp
  have e: "emit_run env wl (fst s0, f) items = (fst (layout_run env s0 items), g)"
    unfolding split emit_run_append e1 emit_run_Cons step
    using g ws(7) split by simp
  have sy: "synced (fst (layout_run env s0 items)) g" using g ws(7) by simp
  have lg: "log g = log f" using g g1 f1 by simp
  have ex: "file_extends g1 g" using g by simp
  have wm: "WriteCodeMethod env wl offset oci cdmi is_static idx d f1 = (o1, g1)"
    using g1 by simp
  show ?thesis by (intro exI [of _ f1] exI [of _ g1] exI [of _ g] conjI e1 sf1 wm e sy ex lg)
qed


subsection \<open>The offsets of the layout are the positions of the emit pass\<close>

text \<open>
  Claim C1. The layout reaches a method of the walk with the cursor \<open>offset\<close> and the writer
  \<open>w\<close>. On a fresh file without failures the emit pass succeeds, and the file it leaves has
  the code of the method at the stored \<^verbatim>\<open>code_offset\<close> minus the code delta, which is the
  aligned cursor of the layout, where the layout has not met the code vector before and the
  vector is not empty. In the same way the file has the mapping table, the vmap table and
  the invoke stub at their stored offsets at their first occurrence.
\<close>

theorem dual_pass_offset_consistency:
  assumes al: "alignments_positive env" and td: "thumb_deltas env"
    and fits: "fst (OatWriter_new env dex_files) < 2 ^ 32" and f: "synced 0 f"
    and split: "all_items dex_files 0 =
                  pre @ Method oat_class_index class_def_method_index is_static is_direct
                          method_idx dex_file # post"
    and state: "layout_run env (code_start env dex_files) pre = (offset, w)"
    and cm: "GetCompiledMethod env dex_file method_idx = Some cm"
    and mo: "mo = oat_methods' (snd (OatWriter_new env dex_files))
                    ! oat_class_index ! class_def_method_index"
  shows "\<exists>g. Write env dex_files (snd (OatWriter_new env dex_files)) f = (True, g) \<and>
             (code_offsets' w (GetCode cm) = None \<longrightarrow> bytes_at env (GetCode cm) \<noteq> [] \<longrightarrow>
                unat (code_offset' mo) - unat (CodeDelta cm) = AlignCode cm offset \<and>
                has_bytes g (unat (code_offset' mo) - unat (CodeDelta cm))
                  (bytes_at env (GetCode cm))) \<and>
             (mapping_table_offsets' w (GetMappingTable cm) = None \<longrightarrow>
              mapping_table_bytes env cm \<noteq> [] \<longrightarrow>
                has_bytes g (unat (mapping_table_offset' mo)) (mapping_table_bytes env cm)) \<and>
             (vmap_table_offsets' w (GetVmapTable cm) = None \<longrightarrow>
              vmap_table_bytes env cm \<noteq> [] \<longrightarrow>
                has_bytes g (unat (vmap_table_offset' mo)) (vmap_table_bytes env cm)) \<and>
             (\<forall>stub. FindInvokeStub env is_static (GetMethodShorty dex_file method_idx)
                       = Some stub \<longrightarrow>
                code_offsets' w stub = None \<longrightarrow> stub \<noteq> GetCode cm \<longrightarrow>
                bytes_at env stub \<noteq> [] \<longrightarrow>
                has_bytes g (unat (invoke_stub_offset' mo)) (bytes_at env stub))"
proof -
  let ?wl = "snd (OatWriter_new env dex_files)"
  let ?items = "all_items dex_files 0"
  let ?s0 = "code_start env dex_files"
  have page: "0 < kPageSize env" using al by (simp add: alignments_positive_def)
  have run: "OatWriter_new env dex_files = layout_run env ?s0 ?items"
    by (rule OatWriter_new_run)
  obtain mo1 o1 w1 where
    lay: "InitOatCodeMethod_offsets env offset w is_static method_idx dex_file = (mo1, o1, w1)"
    by (cases "InitOatCodeMethod_offsets env offset w is_static method_idx dex_file") auto
  have below: "offsets_below (fst ?s0) (snd ?s0)" by (rule code_start_below [OF page])
  have st: "stored_ok env ?wl ?s0 ?items" by (rule stored_ok_OatWriter_new)
  have le: "maps_le (snd (layout_run env ?s0 ?items)) ?wl" unfolding run [symmetric] by simp
  have fits1: "fst (layout_run env ?s0 ?items) < 2 ^ 32" unfolding run [symmetric] by (rule fits)
  note ws = walk_state [OF al td below split state lay]
  have mo1: "mo1 = mo" using ws(4) [OF st] mo by simp
  obtain g2 where g2: "synced (fst ?s0) g2 \<and> log g2 = log f \<and>
      padded g2 = tables_image ?wl @ replicate (executable_offset_padding_length' ?wl) 0 \<and>
      has_bytes g2 0 (OatHeader_bytes (oat_header' ?wl)) \<and>
      (\<forall>g3. emit_run env ?wl (fst ?s0, g2) ?items = (fst (OatWriter_new env dex_files), g3) \<longrightarrow>
             Write env dex_files ?wl f = (True, g3))"
    using Write_tables_sync [OF al fits f] ..
  have s2: "synced (fst ?s0) g2" using g2 by simp
  obtain f1 g1 g where e: "emit_run env ?wl (fst ?s0, g2) pre = (offset, f1) \<and>
      synced offset f1 \<and>
      WriteCodeMethod env ?wl offset oat_class_index class_def_method_index is_static
        method_idx dex_file f1 = (o1, g1) \<and>
      emit_run env ?wl (fst ?s0, g2) ?items = (fst (layout_run env ?s0 ?items), g) \<and>
      synced (fst (layout_run env ?s0 ?items)) g \<and> file_extends g1 g \<and> log g = log g2"
    using emit_run_split [OF al td below split state lay st le fits1 s2] by blast
  have wr: "Write env dex_files ?wl f = (True, g)" using g2 e run by simp
  have sf1: "synced offset f1" and ext: "file_extends g1 g" using e by simp_all
  have le1: "maps_le w1 ?wl" using maps_le_trans [OF ws(3) le] .
  have fits0: "o1 < 2 ^ 32" using ws(2) fits1 by simp
  obtain g1' where m: "WriteCodeMethod env ?wl offset oat_class_index class_def_method_index
        is_static method_idx dex_file f1 = (o1, g1') \<and>
      synced o1 g1' \<and> log g1' = log f1 \<and> file_extends f1 g1' \<and>
      padded g1' = padded f1 @ method_image env offset w is_static method_idx dex_file \<and>
      offsets_below o1 w1 \<and>
      (code_offsets' w (GetCode cm) = None \<longrightarrow> bytes_at env (GetCode cm) \<noteq> [] \<longrightarrow>
         has_bytes g1' (AlignCode cm offset) (bytes_at env (GetCode cm)) \<and>
         unat (code_offset' mo1) = AlignCode cm offset + unat (CodeDelta cm)) \<and>
      (mapping_table_offsets' w (GetMappingTable cm) = None \<longrightarrow>
       mapping_table_bytes env cm \<noteq> [] \<longrightarrow>
         has_bytes g1' (unat (mapping_table_offset' mo1)) (mapping_table_bytes env cm)) \<and>
      (vmap_table_offsets' w (GetVmapTable cm) = None \<longrightarrow>
       vmap_table_bytes env cm \<noteq> [] \<longrightarrow>
         has_bytes g1' (unat (vmap_table_offset' mo1)) (vmap_table_bytes env cm)) \<and>
      (\<forall>stub. FindInvokeStub env is_static (GetMethodShorty dex_file method_idx) = Some stub \<longrightarrow>
         code_offsets' w stub = None \<longrightarrow> stub \<noteq> GetCode cm \<longrightarrow>
         bytes_at env stub \<noteq> [] \<longrightarrow>
         has_bytes g1' (unat (invoke_stub_offset' mo1)) (bytes_at env stub))"
    using method_sync_Some [OF cm al td ws(1) sf1 lay fits0 le1 ws(4) [OF st]] ..
  have gg: "g1' = g1" using m e by simp
  have h1: "code_offsets' w (GetCode cm) = None \<longrightarrow> bytes_at env (GetCode cm) \<noteq> [] \<longrightarrow>
      unat (code_offset' mo) - unat (CodeDelta cm) = AlignCode cm offset \<and>
      has_bytes g (unat (code_offset' mo) - unat (CodeDelta cm)) (bytes_at env (GetCode cm))"
    using m has_bytes_extends [OF _ ext] unfolding gg mo1 by auto
  have h3: "mapping_table_offsets' w (GetMappingTable cm) = None \<longrightarrow>
      mapping_table_bytes env cm \<noteq> [] \<longrightarrow>
      has_bytes g (unat (mapping_table_offset' mo)) (mapping_table_bytes env cm)"
    using m has_bytes_extends [OF _ ext] unfolding gg mo1 by blast
  have h4: "vmap_table_offsets' w (GetVmapTable cm) = None \<longrightarrow>
      vmap_table_bytes env cm \<noteq> [] \<longrightarrow>
      has_bytes g (unat (vmap_table_offset' mo)) (vmap_table_bytes env cm)"
    using m has_bytes_extends [OF _ ext] unfolding gg mo1 by blast
  have h5: "\<forall>stub. FindInvokeStub env is_static (GetMethodShorty dex_file method_idx)
                       = Some stub \<longrightarrow>
      code_offsets' w stub = None \<longrightarrow> stub \<noteq> GetCode cm \<longrightarrow> bytes_at env stub \<noteq> [] \<longrightarrow>
      has_bytes g (unat (invoke_stub_offset' mo)) (bytes_at env stub)"
    using m has_bytes_extends [OF _ ext] unfolding gg mo1 by blast
  show ?thesis by (intro exI [of _ g] conjI wr h1 h3 h4 h5)
qed


lemma thumb_deltas_ex_env: "thumb_deltas ex_env"
  by (auto simp: thumb_deltas_def ex_env_def ex_method_def ex_empty_method_def split: if_splits)

lemma synced_ex_file: "synced 0 ex_file"
  by (simp add: synced_def ex_file_def no_failures_def file_ok_def)

lemma ex_all_items:
  "all_items [ex_dex] 0 =
     [Method 0 0 True True 0 ex_dex, Method 0 1 False True 1 ex_dex,
      Method 0 2 False False 2 ex_dex, Method 0 3 False False 3 ex_dex, ClassEnd 0, ClassEnd 1]"
proof -
  have cd: "class_defs ex_dex =
      [Some \<lparr>direct_methods = [(0, True), (1, False)], virtual_methods = [2, 3]\<rparr>, None]"
    by (simp add: ex_dex_def)
  show ?thesis
    by (simp add: cd class_entries_def direct_entries_def virtual_entries_def numeral_eq_Suc)
qed

lemma ex_code_start:
  "fst (code_start ex_env [ex_dex]) = 4096"
  "code_offsets' (snd (code_start ex_env [ex_dex])) = Map.empty"
  "mapping_table_offsets' (snd (code_start ex_env [ex_dex])) = Map.empty"
  "vmap_table_offsets' (snd (code_start ex_env [ex_dex])) = Map.empty"
  by (simp_all add: code_start_def ex_defs)

theorem dual_pass_offset_consistency_witness:
  "alignments_positive ex_env \<and> thumb_deltas ex_env \<and>
   fst (OatWriter_new ex_env [ex_dex]) < 2 ^ 32 \<and> synced 0 ex_file \<and>
   all_items [ex_dex] 0 =
     [] @ Method 0 0 True True 0 ex_dex #
       [Method 0 1 False True 1 ex_dex, Method 0 2 False False 2 ex_dex,
        Method 0 3 False False 3 ex_dex, ClassEnd 0, ClassEnd 1] \<and>
   layout_run ex_env (code_start ex_env [ex_dex]) [] = (4096, snd (code_start ex_env [ex_dex])) \<and>
   GetCompiledMethod ex_env ex_dex 0 = Some ex_method \<and>
   (\<exists>g. Write ex_env [ex_dex] (snd (OatWriter_new ex_env [ex_dex])) ex_file = (True, g) \<and>
        has_bytes g 4096 [1, 2, 3, 4, 5, 6] \<and> has_bytes g 4114 [9, 0, 0, 0] \<and>
        has_bytes g 4118 [10, 0, 11, 0] \<and> has_bytes g 4128 [7, 8])"
proof -
  have 3: "fst (OatWriter_new ex_env [ex_dex]) < 2 ^ 32" by (simp add: ex_layout_value)
  have 5: "all_items [ex_dex] 0 =
     [] @ Method 0 0 True True 0 ex_dex #
       [Method 0 1 False True 1 ex_dex, Method 0 2 False False 2 ex_dex,
        Method 0 3 False False 3 ex_dex, ClassEnd 0, ClassEnd 1]"
    unfolding ex_all_items by simp
  have 6: "layout_run ex_env (code_start ex_env [ex_dex]) []
             = (4096, snd (code_start ex_env [ex_dex]))"
    using ex_code_start(1) by (cases "code_start ex_env [ex_dex]") simp
  have 7: "GetCompiledMethod ex_env ex_dex 0 = Some ex_method" by (simp add: ex_env_def)
  have mo: "oat_methods' (snd (OatWriter_new ex_env [ex_dex])) ! 0 ! 0 =
      \<lparr>code_offset' = 4097, frame_size_in_bytes' = 32, core_spill_mask' = 0x4DE0,
       fp_spill_mask' = 0, mapping_table_offset' = 4114, vmap_table_offset' = 4118,
       invoke_stub_offset' = 4128\<rparr>"
    by (simp add: ex_layout_value)
  have v: "bytes_at ex_env 100 = [1, 2, 3, 4, 5, 6]" "bytes_at ex_env 400 = [7, 8]"
    "mapping_table_bytes ex_env ex_method = [9, 0, 0, 0]"
    "vmap_table_bytes ex_env ex_method = [10, 0, 11, 0]"
    "FindInvokeStub ex_env True (GetMethodShorty ex_dex 0) = Some 400"
    "GetCode ex_method = 100" "GetMappingTable ex_method = 200" "GetVmapTable ex_method = 300"
    "unat (CodeDelta ex_method) = 1"
    by (simp_all add: ex_env_def ex_method_def mapping_table_bytes_def vmap_table_bytes_def
        le32_def le16_def)
  show ?thesis
    using dual_pass_offset_consistency [OF alignments_positive_ex_env thumb_deltas_ex_env 3
        synced_ex_file 5 6 7 mo [symmetric]]
      alignments_positive_ex_env thumb_deltas_ex_env 3 synced_ex_file 5 6 7
    by (auto simp: ex_code_start v)
qed

subsection \<open>Two methods with the same code vector\<close>

lemma align_contents: "contents (snd (WriteCodeMethod_align a d c f)) = contents f"
  by (simp add: WriteCodeMethod_align_def Let_def lseek_cur_def PLOG_def split: prod.splits)

text \<open>A vector that the layout has met is skipped by the emit pass: only the seek is made.\<close>

lemma code_skip:
  assumes al: "0 < code_alignment cm" and f: "synced offset f"
    and fits: "AlignCode cm offset < 2 ^ 32"
    and key: "code_offsets' wl (GetCode cm) \<noteq> None"
    and old: "unat (code_offset' mo) < offset"
  shows "\<exists>g. WriteCodeMethod_code env wl cm mo idx offset f = (Some (AlignCode cm offset), g) \<and>
             contents g = contents f"
proof -
  let ?a = "RoundUp offset (code_alignment cm)"
  define g where "g = snd (WriteCodeMethod_align (code_alignment cm)
                              (Error ''Failed to seek to align oat code'') offset f)"
  have fits1: "?a < 2 ^ 32" using fits by (simp add: AlignCode_def)
  note a = align_sync [OF f al fits1, of "Error ''Failed to seek to align oat code''",
      folded g_def]
  have ge: "offset \<le> ?a" using al by (rule RoundUp_ge)
  have ne: "?a + unat (CodeDelta cm) \<noteq> unat (code_offset' mo)" using old ge by simp
  have "WriteCodeMethod_code env wl cm mo idx offset f = (Some ?a, g)"
    using a dedup_skip [OF key ne]
    by (simp add: WriteCodeMethod_code_def and_then_def)
  moreover have "contents g = contents f" unfolding g_def by (rule align_contents)
  ultimately show ?thesis by (simp add: AlignCode_def)
qed

text \<open>
  Claim C2. Two methods of the walk have the same code vector. The final table has the same
  \<^verbatim>\<open>code_offset\<close> for both. At the later method the layout finds the vector in its map:
  the cursor is the aligned cursor and the writer, with its checksum, is unchanged; where
  the layout meets the vector for the first time at the earlier method, the cursor advances
  by the size of the code and the code is fed to the checksum. On a fresh file without
  failures the emit pass succeeds and the file has the code at the stored offset minus the
  code delta of the first occurrence; at the later method the emit pass, at the cursor of
  the layout, only seeks over the alignment gap and leaves the contents of the file as they
  are.
\<close>

theorem code_deduplication:
  assumes al: "alignments_positive env" and td: "thumb_deltas env"
    and fits: "fst (OatWriter_new env dex_files) < 2 ^ 32" and f: "synced 0 f"
    and split: "all_items dex_files 0 =
                  pre @ Method oci1 cdmi1 is_static1 is_direct1 idx1 d1 #
                  mid @ Method oci2 cdmi2 is_static2 is_direct2 idx2 d2 # post"
    and state1: "layout_run env (code_start env dex_files) pre = (offset1, w1)"
    and state2: "layout_run env (code_start env dex_files)
                   (pre @ Method oci1 cdmi1 is_static1 is_direct1 idx1 d1 # mid)
                 = (offset2, w2)"
    and cm1: "GetCompiledMethod env d1 idx1 = Some cm1"
    and cm2: "GetCompiledMethod env d2 idx2 = Some cm2"
    and same: "GetCode cm2 = GetCode cm1"
    and mo1: "mo1 = oat_methods' (snd (OatWriter_new env dex_files)) ! oci1 ! cdmi1"
    and mo2: "mo2 = oat_methods' (snd (OatWriter_new env dex_files)) ! oci2 ! cdmi2"
  shows "code_offset' mo2 = code_offset' mo1 \<and>
         InitOatCodeMethod_code env cm2 offset2 w2
           = (code_offset' mo1, AlignCode cm2 offset2, w2) \<and>
         (code_offsets' w1 (GetCode cm1) = None \<longrightarrow>
            InitOatCodeMethod_code env cm1 offset1 w1
              = (code_offset' mo1,
                 AlignCode cm1 offset1 + length (bytes_at env (GetCode cm1)),
                 w1\<lparr>code_offsets' := (code_offsets' w1)(GetCode cm1 \<mapsto> code_offset' mo1),
                    oat_header' :=
                      UpdateChecksum env (bytes_at env (GetCode cm1)) (oat_header' w1)\<rparr>)) \<and>
         (\<exists>g. Write env dex_files (snd (OatWriter_new env dex_files)) f = (True, g) \<and>
              (code_offsets' w1 (GetCode cm1) = None \<longrightarrow> bytes_at env (GetCode cm1) \<noteq> [] \<longrightarrow>
                 has_bytes g (unat (code_offset' mo1) - unat (CodeDelta cm1))
                   (bytes_at env (GetCode cm1)))) \<and>
         (\<forall>f2. synced offset2 f2 \<longrightarrow>
            (\<exists>g2. WriteCodeMethod_code env (snd (OatWriter_new env dex_files)) cm2 mo2 idx2
                     offset2 f2 = (Some (AlignCode cm2 offset2), g2) \<and>
                  contents g2 = contents f2))"
proof -
  let ?wl = "snd (OatWriter_new env dex_files)"
  let ?items = "all_items dex_files 0"
  let ?s0 = "code_start env dex_files"
  let ?m1 = "Method oci1 cdmi1 is_static1 is_direct1 idx1 d1"
  let ?m2 = "Method oci2 cdmi2 is_static2 is_direct2 idx2 d2"
  have page: "0 < kPageSize env" using al by (simp add: alignments_positive_def)
  have ca2: "0 < code_alignment cm2" using al cm2 by (auto simp: alignments_positive_def)
  have run: "OatWriter_new env dex_files = layout_run env ?s0 ?items"
    by (rule OatWriter_new_run)
  have below: "offsets_below (fst ?s0) (snd ?s0)" by (rule code_start_below [OF page])
  have st: "stored_ok env ?wl ?s0 ?items" by (rule stored_ok_OatWriter_new)
  have le: "maps_le (snd (layout_run env ?s0 ?items)) ?wl" unfolding run [symmetric] by simp
  have fits0: "fst (layout_run env ?s0 ?items) < 2 ^ 32" unfolding run [symmetric] by (rule fits)
  obtain m1 o1 w1a where
    lay1: "InitOatCodeMethod_offsets env offset1 w1 is_static1 idx1 d1 = (m1, o1, w1a)"
    by (cases "InitOatCodeMethod_offsets env offset1 w1 is_static1 idx1 d1") auto
  obtain m2 o2 w2a where
    lay2: "InitOatCodeMethod_offsets env offset2 w2 is_static2 idx2 d2 = (m2, o2, w2a)"
    by (cases "InitOatCodeMethod_offsets env offset2 w2 is_static2 idx2 d2") auto
  have split2: "?items = (pre @ ?m1 # mid) @ ?m2 # post" using split by simp
  note ws1 = walk_state [OF al td below split state1 lay1]
  note ws2 = walk_state [OF al td below split2 state2 lay2]
  have e1: "m1 = mo1" using ws1(4) [OF st] mo1 by simp
  have e2: "m2 = mo2" using ws2(4) [OF st] mo2 by simp
  text \<open>The map has the offset of the earlier method from then on.\<close>
  have k1: "code_offsets' w1a (GetCode cm1) = Some (code_offset' mo1)"
    using method_keys [OF lay1] cm1 e1 by simp
  have "layout_run env ?s0 (pre @ ?m1 # mid)
          = layout_run env (layout_step env (offset1, w1) ?m1) mid"
    by (simp add: state1 del: layout_step.simps)
  then have "maps_le (snd (layout_step env (offset1, w1) ?m1)) w2"
    using layout_run_maps_le [of "layout_step env (offset1, w1) ?m1" env mid] state2 by simp
  then have "maps_le w1a w2" using maps_le_trans [OF ws1(9)] by blast
  then have k2: "code_offsets' w2 (GetCode cm2) = Some (code_offset' mo1)"
    using maps_le_code k1 same by simp
  have k2a: "code_offsets' w2a (GetCode cm2) = Some (code_offset' mo2)"
    using method_keys [OF lay2] cm2 e2 by simp
  have "maps_le w2 w2a" using method_keys [OF lay2] by simp
  then have a: "code_offset' mo2 = code_offset' mo1" using maps_le_code k2 k2a by fastforce
  have b: "InitOatCodeMethod_code env cm2 offset2 w2
             = (code_offset' mo1, AlignCode cm2 offset2, w2)"
    by (simp add: InitOatCodeMethod_code_def Let_def k2)
  have c: "code_offsets' w1 (GetCode cm1) = None \<longrightarrow>
      InitOatCodeMethod_code env cm1 offset1 w1
        = (code_offset' mo1,
           AlignCode cm1 offset1 + length (bytes_at env (GetCode cm1)),
           w1\<lparr>code_offsets' := (code_offsets' w1)(GetCode cm1 \<mapsto> code_offset' mo1),
              oat_header' := UpdateChecksum env (bytes_at env (GetCode cm1)) (oat_header' w1)\<rparr>)"
  proof
    assume n: "code_offsets' w1 (GetCode cm1) = None"
    obtain co oc wc where r: "InitOatCodeMethod_code env cm1 offset1 w1 = (co, oc, wc)"
      by (cases "InitOatCodeMethod_code env cm1 offset1 w1") auto
    have "code_offset' m1 = co"
      using lay1 by (auto simp: InitOatCodeMethod_offsets_Some [OF cm1] r split: prod.splits)
    then have co: "co = code_offset' mo1" using e1 by simp
    show "InitOatCodeMethod_code env cm1 offset1 w1
        = (code_offset' mo1,
           AlignCode cm1 offset1 + length (bytes_at env (GetCode cm1)),
           w1\<lparr>code_offsets' := (code_offsets' w1)(GetCode cm1 \<mapsto> code_offset' mo1),
              oat_header' := UpdateChecksum env (bytes_at env (GetCode cm1)) (oat_header' w1)\<rparr>)"
      using r unfolding co by (simp add: InitOatCodeMethod_code_def Let_def n)
  qed
  text \<open>The emit pass.\<close>
  obtain g2 where g2: "synced (fst ?s0) g2 \<and> log g2 = log f \<and>
      padded g2 = tables_image ?wl @ replicate (executable_offset_padding_length' ?wl) 0 \<and>
      has_bytes g2 0 (OatHeader_bytes (oat_header' ?wl)) \<and>
      (\<forall>g3. emit_run env ?wl (fst ?s0, g2) ?items = (fst (OatWriter_new env dex_files), g3) \<longrightarrow>
             Write env dex_files ?wl f = (True, g3))"
    using Write_tables_sync [OF al fits f] ..
  have s2: "synced (fst ?s0) g2" using g2 by simp
  obtain f1 g1 g where e: "emit_run env ?wl (fst ?s0, g2) pre = (offset1, f1) \<and>
      synced offset1 f1 \<and>
      WriteCodeMethod env ?wl offset1 oci1 cdmi1 is_static1 idx1 d1 f1 = (o1, g1) \<and>
      emit_run env ?wl (fst ?s0, g2) ?items = (fst (layout_run env ?s0 ?items), g) \<and>
      synced (fst (layout_run env ?s0 ?items)) g \<and> file_extends g1 g \<and> log g = log g2"
    using emit_run_split [OF al td below split state1 lay1 st le fits0 s2] by blast
  have wr: "Write env dex_files ?wl f = (True, g)" using g2 e run by simp
  have sf1: "synced offset1 f1" and ext: "file_extends g1 g" using e by simp_all
  have le1: "maps_le w1a ?wl" using maps_le_trans [OF ws1(3) le] .
  have fits1: "o1 < 2 ^ 32" using ws1(2) fits0 by simp
  obtain g1' where m: "WriteCodeMethod env ?wl offset1 oci1 cdmi1 is_static1 idx1 d1 f1
        = (o1, g1') \<and>
      synced o1 g1' \<and> log g1' = log f1 \<and> file_extends f1 g1' \<and>
      padded g1' = padded f1 @ method_image env offset1 w1 is_static1 idx1 d1 \<and>
      offsets_below o1 w1a \<and>
      (code_offsets' w1 (GetCode cm1) = None \<longrightarrow> bytes_at env (GetCode cm1) \<noteq> [] \<longrightarrow>
         has_bytes g1' (AlignCode cm1 offset1) (bytes_at env (GetCode cm1)) \<and>
         unat (code_offset' m1) = AlignCode cm1 offset1 + unat (CodeDelta cm1)) \<and>
      (mapping_table_offsets' w1 (GetMappingTable cm1) = None \<longrightarrow>
       mapping_table_bytes env cm1 \<noteq> [] \<longrightarrow>
         has_bytes g1' (unat (mapping_table_offset' m1)) (mapping_table_bytes env cm1)) \<and>
      (vmap_table_offsets' w1 (GetVmapTable cm1) = None \<longrightarrow>
       vmap_table_bytes env cm1 \<noteq> [] \<longrightarrow>
         has_bytes g1' (unat (vmap_table_offset' m1)) (vmap_table_bytes env cm1)) \<and>
      (\<forall>stub. FindInvokeStub env is_static1 (GetMethodShorty d1 idx1) = Some stub \<longrightarrow>
         code_offsets' w1 stub = None \<longrightarrow> stub \<noteq> GetCode cm1 \<longrightarrow>
         bytes_at env stub \<noteq> [] \<longrightarrow>
         has_bytes g1' (unat (invoke_stub_offset' m1)) (bytes_at env stub))"
    using method_sync_Some [OF cm1 al td ws1(1) sf1 lay1 fits1 le1 ws1(4) [OF st]] ..
  have gg: "g1' = g1" using m e by simp
  have h: "code_offsets' w1 (GetCode cm1) = None \<longrightarrow> bytes_at env (GetCode cm1) \<noteq> [] \<longrightarrow>
      has_bytes g (unat (code_offset' mo1) - unat (CodeDelta cm1)) (bytes_at env (GetCode cm1))"
    using m has_bytes_extends [OF _ ext] unfolding gg e1 by auto
  have d: "\<exists>g. Write env dex_files ?wl f = (True, g) \<and>
      (code_offsets' w1 (GetCode cm1) = None \<longrightarrow> bytes_at env (GetCode cm1) \<noteq> [] \<longrightarrow>
         has_bytes g (unat (code_offset' mo1) - unat (CodeDelta cm1))
           (bytes_at env (GetCode cm1)))"
    by (intro exI [of _ g] conjI wr h)
  text \<open>The later method.\<close>
  have old: "unat (code_offset' mo2) < offset2"
    using ws2(1) k2 a by (auto simp: offsets_below_def)
  have "AlignCode cm2 offset2 \<le> o2"
  proof -
    obtain co oc wc where r: "InitOatCodeMethod_code env cm2 offset2 w2 = (co, oc, wc)"
      by (cases "InitOatCodeMethod_code env cm2 offset2 w2") auto
    have "oc = AlignCode cm2 offset2" using r b by simp
    moreover have "oc \<le> o2"
    proof -
      obtain p2 x2 where
        fr: "InitOatCodeMethod_frame env (GetFrameSizeInBytes cm2) (GetCoreSpillMask cm2)
               (GetFpSpillMask cm2) oc wc = (p2, x2)"
        by (cases "InitOatCodeMethod_frame env (GetFrameSizeInBytes cm2) (GetCoreSpillMask cm2)
               (GetFpSpillMask cm2) oc wc")
      obtain mp p3 x3 where mt: "InitOatCodeMethod_mapping_table env cm2 p2 x2 = (mp, p3, x3)"
        by (cases "InitOatCodeMethod_mapping_table env cm2 p2 x2") auto
      obtain vo p4 x4 where vt: "InitOatCodeMethod_vmap_table env cm2 p3 x3 = (vo, p4, x4)"
        by (cases "InitOatCodeMethod_vmap_table env cm2 p3 x3") auto
      obtain so p5 x5 where
        sb: "InitOatCodeMethod_stub env is_static2 idx2 d2 p4 x4 = (so, p5, x5)"
        by (cases "InitOatCodeMethod_stub env is_static2 idx2 d2 p4 x4") auto
      have arch: "0 < arch_alignment env" using al by (simp add: alignments_positive_def)
      have "o2 = p5"
        using lay2 by (simp add: InitOatCodeMethod_offsets_Some [OF cm2] r fr mt vt sb)
      moreover have "oc \<le> p2"
        using InitOatCodeMethod_frame_mono [of oc env "GetFrameSizeInBytes cm2"
            "GetCoreSpillMask cm2" "GetFpSpillMask cm2" wc] fr by simp
      moreover have "p2 \<le> p3"
        using InitOatCodeMethod_mapping_table_mono [of p2 env cm2 x2] mt by simp
      moreover have "p3 \<le> p4"
        using InitOatCodeMethod_vmap_table_mono [of p3 env cm2 x3] vt by simp
      moreover have "p4 \<le> p5"
        using InitOatCodeMethod_stub_mono [OF arch, of p4 is_static2 idx2 d2 x4] sb by simp
      ultimately show ?thesis by simp
    qed
    ultimately show ?thesis by simp
  qed
  then have fits2: "AlignCode cm2 offset2 < 2 ^ 32" using ws2(2) fits0 by simp
  have key: "code_offsets' ?wl (GetCode cm2) \<noteq> None"
    using maps_le_code [OF maps_le_trans [OF ws2(3) le] k2a] by simp
  have s: "\<forall>f2. synced offset2 f2 \<longrightarrow>
      (\<exists>g2. WriteCodeMethod_code env ?wl cm2 mo2 idx2 offset2 f2
               = (Some (AlignCode cm2 offset2), g2) \<and>
            contents g2 = contents f2)"
    using code_skip [OF ca2 _ fits2 key old] by blast
  show ?thesis by (intro conjI a b c d s)
qed


lemma ex_second_state:
  "fst (layout_run ex_env (code_start ex_env [ex_dex]) [Method 0 0 True True 0 ex_dex]) = 4130"
  by (simp add: code_start_def ex_defs)

theorem code_deduplication_witness:
  "alignments_positive ex_env \<and> thumb_deltas ex_env \<and>
   fst (OatWriter_new ex_env [ex_dex]) < 2 ^ 32 \<and> synced 0 ex_file \<and>
   all_items [ex_dex] 0 =
     [] @ Method 0 0 True True 0 ex_dex # [] @ Method 0 1 False True 1 ex_dex #
       [Method 0 2 False False 2 ex_dex, Method 0 3 False False 3 ex_dex, ClassEnd 0,
        ClassEnd 1] \<and>
   layout_run ex_env (code_start ex_env [ex_dex]) [] = (4096, snd (code_start ex_env [ex_dex])) \<and>
   GetCompiledMethod ex_env ex_dex 0 = Some ex_method \<and>
   GetCompiledMethod ex_env ex_dex 1 = Some ex_method \<and>
   code_offsets' (snd (code_start ex_env [ex_dex])) (GetCode ex_method) = None \<and>
   bytes_at ex_env (GetCode ex_method) \<noteq> [] \<and>
   synced 4130 \<lparr>contents = [], pos = 4130, io_results = [], log = []\<rparr> \<and>
   code_offset' (oat_methods' (snd (OatWriter_new ex_env [ex_dex])) ! 0 ! 1) = 4097 \<and>
   code_offset' (oat_methods' (snd (OatWriter_new ex_env [ex_dex])) ! 0 ! 0) = 4097 \<and>
   fst (snd (InitOatCodeMethod_code ex_env ex_method 4130
               (snd (layout_run ex_env (code_start ex_env [ex_dex])
                       [Method 0 0 True True 0 ex_dex])))) = 4136 \<and>
   fst (snd (InitOatCodeMethod_code ex_env ex_method 4096 (snd (code_start ex_env [ex_dex]))))
     = 4102 \<and>
   (\<exists>g. Write ex_env [ex_dex] (snd (OatWriter_new ex_env [ex_dex])) ex_file = (True, g) \<and>
        has_bytes g 4096 [1, 2, 3, 4, 5, 6]) \<and>
   (\<exists>g2. WriteCodeMethod_code ex_env (snd (OatWriter_new ex_env [ex_dex])) ex_method
            (oat_methods' (snd (OatWriter_new ex_env [ex_dex])) ! 0 ! 1) 1 4130
            \<lparr>contents = [], pos = 4130, io_results = [], log = []\<rparr> = (Some 4136, g2) \<and>
          contents g2 = [])"
proof -
  let ?m1 = "Method 0 0 True True 0 ex_dex"
  let ?w2 = "snd (layout_run ex_env (code_start ex_env [ex_dex]) [?m1])"
  have 3: "fst (OatWriter_new ex_env [ex_dex]) < 2 ^ 32" by (simp add: ex_layout_value)
  have 5: "all_items [ex_dex] 0 =
     [] @ ?m1 # [] @ Method 0 1 False True 1 ex_dex #
       [Method 0 2 False False 2 ex_dex, Method 0 3 False False 3 ex_dex, ClassEnd 0,
        ClassEnd 1]"
    unfolding ex_all_items by simp
  have 6: "layout_run ex_env (code_start ex_env [ex_dex]) []
             = (4096, snd (code_start ex_env [ex_dex]))"
    using ex_code_start(1) by (cases "code_start ex_env [ex_dex]") simp
  have 7: "layout_run ex_env (code_start ex_env [ex_dex]) ([] @ ?m1 # []) = (4130, ?w2)"
    using ex_second_state
    by (cases "layout_run ex_env (code_start ex_env [ex_dex]) [?m1]")
       (simp del: layout_run_Cons layout_run_Nil)
  have 8: "GetCompiledMethod ex_env ex_dex 0 = Some ex_method"
    and 9: "GetCompiledMethod ex_env ex_dex 1 = Some ex_method"
    by (simp_all add: ex_env_def)
  have 10: "synced 4130 \<lparr>contents = [], pos = 4130, io_results = [], log = []\<rparr>"
    by (simp add: synced_def no_failures_def file_ok_def)
  have v: "bytes_at ex_env 100 = [1, 2, 3, 4, 5, 6]" "GetCode ex_method = 100"
    "unat (CodeDelta ex_method) = 1" "AlignCode ex_method 4130 = 4136"
    "AlignCode ex_method 4096 = 4096"
    by (simp_all add: ex_env_def ex_method_def AlignCode_def RoundUp_def)
  have t: "code_offset' (oat_methods' (snd (OatWriter_new ex_env [ex_dex])) ! 0 ! 1) = 4097"
    "code_offset' (oat_methods' (snd (OatWriter_new ex_env [ex_dex])) ! 0 ! 0) = 4097"
    by (simp_all add: ex_layout_value)
  note c = code_deduplication [OF alignments_positive_ex_env thumb_deltas_ex_env 3
      synced_ex_file 5 6 7 8 9 refl refl refl]
  have c2: "fst (snd (InitOatCodeMethod_code ex_env ex_method 4130 ?w2)) = 4136"
    using c by (simp add: v)
  have c3: "fst (snd (InitOatCodeMethod_code ex_env ex_method 4096
                       (snd (code_start ex_env [ex_dex])))) = 4102"
    using c by (simp add: v ex_code_start)
  have c4: "\<exists>g. Write ex_env [ex_dex] (snd (OatWriter_new ex_env [ex_dex])) ex_file = (True, g) \<and>
        has_bytes g 4096 [1, 2, 3, 4, 5, 6]"
    using c by (simp add: v t ex_code_start)
  have c5: "\<exists>g2. WriteCodeMethod_code ex_env (snd (OatWriter_new ex_env [ex_dex])) ex_method
            (oat_methods' (snd (OatWriter_new ex_env [ex_dex])) ! 0 ! 1) 1 4130
            \<lparr>contents = [], pos = 4130, io_results = [], log = []\<rparr> = (Some 4136, g2) \<and>
          contents g2 = []"
    using c 10 by (auto simp: v)
  show ?thesis
    using alignments_positive_ex_env thumb_deltas_ex_env 3 synced_ex_file 5 6 8 9 10 t c2 c3 c4 c5
    by (simp add: v ex_code_start)
qed

subsection \<open>An empty vector has the offset 0\<close>

lemma zero_sentinels_maps:
  "zero_sentinels env w \<Longrightarrow> code_offsets' w1 = code_offsets' w \<Longrightarrow>
   mapping_table_offsets' w1 = mapping_table_offsets' w \<Longrightarrow>
   vmap_table_offsets' w1 = vmap_table_offsets' w \<Longrightarrow> zero_sentinels env w1"
  by (simp add: zero_sentinels_def)

lemma code_sentinels:
  assumes "zero_sentinels env w"
  shows "zero_sentinels env (snd (snd (InitOatCodeMethod_code env cm offset w)))"
proof (cases "code_offsets' w (GetCode cm)")
  case (Some v)
  then show ?thesis using assms by (simp add: InitOatCodeMethod_code_def Let_def)
next
  case None
  then show ?thesis
    using assms by (auto simp: InitOatCodeMethod_code_def Let_def zero_sentinels_def)
qed

lemma frame_sentinels:
  "zero_sentinels env w \<Longrightarrow> zero_sentinels env (snd (InitOatCodeMethod_frame env a b c offset w))"
  by (simp add: InitOatCodeMethod_frame_def zero_sentinels_def)

lemma mapping_table_sentinels:
  assumes "zero_sentinels env w"
  shows "zero_sentinels env (snd (snd (InitOatCodeMethod_mapping_table env cm offset w)))"
proof (cases "mapping_table_offsets' w (GetMappingTable cm)")
  case (Some v)
  then show ?thesis using assms by (simp add: InitOatCodeMethod_mapping_table_def Let_def)
next
  case None
  then show ?thesis
    using assms
    by (auto simp: InitOatCodeMethod_mapping_table_def Let_def zero_sentinels_def
        mapping_table_bytes_def)
qed

lemma vmap_table_sentinels:
  assumes "zero_sentinels env w"
  shows "zero_sentinels env (snd (snd (InitOatCodeMethod_vmap_table env cm offset w)))"
proof (cases "vmap_table_offsets' w (GetVmapTable cm)")
  case (Some v)
  then show ?thesis using assms by (simp add: InitOatCodeMethod_vmap_table_def Let_def)
next
  case None
  then show ?thesis
    using assms
    by (auto simp: InitOatCodeMethod_vmap_table_def Let_def zero_sentinels_def
        vmap_table_bytes_def)
qed

lemma stub_sentinels:
  assumes "zero_sentinels env w"
  shows "zero_sentinels env (snd (snd (InitOatCodeMethod_stub env is_static idx d offset w)))"
proof (cases "FindInvokeStub env is_static (GetMethodShorty d idx)")
  case None
  then show ?thesis using assms by (simp add: InitOatCodeMethod_stub_def)
next
  case (Some stub)
  show ?thesis
  proof (cases "code_offsets' w stub")
    case None
    then show ?thesis
      using assms Some
      by (auto simp: InitOatCodeMethod_stub_def InitOatCodeMethod_invoke_stub_def Let_def
          zero_sentinels_def)
  next
    case (Some v)
    then show ?thesis
      using assms \<open>FindInvokeStub env is_static (GetMethodShorty d idx) = Some stub\<close>
      by (simp add: InitOatCodeMethod_stub_def InitOatCodeMethod_invoke_stub_def Let_def)
  qed
qed

lemma method_sentinels:
  assumes z: "zero_sentinels env w"
    and lay: "InitOatCodeMethod_offsets env offset w is_static idx d = (mo, o1, w1)"
  shows "zero_sentinels env w1"
proof (cases "GetCompiledMethod env d idx")
  case None
  obtain o2 w2 where
    fr: "InitOatCodeMethod_frame env (kStackAlignment env) 0 0 offset w = (o2, w2)"
    by (cases "InitOatCodeMethod_frame env (kStackAlignment env) 0 0 offset w")
  obtain so o5 w5 where
    s: "InitOatCodeMethod_stub env is_static idx d o2 w2 = (so, o5, w5)"
    by (cases "InitOatCodeMethod_stub env is_static idx d o2 w2") auto
  have r: "w1 = w5" using lay by (auto simp: InitOatCodeMethod_offsets_None [OF None] fr s)
  have z2: "zero_sentinels env w2"
    using frame_sentinels [OF z, of "kStackAlignment env" 0 0 offset] fr by simp
  show ?thesis using stub_sentinels [OF z2, of is_static idx d o2] s r by simp
next
  case (Some cm)
  obtain co oc w1a where c: "InitOatCodeMethod_code env cm offset w = (co, oc, w1a)"
    by (cases "InitOatCodeMethod_code env cm offset w") auto
  obtain o2 w2 where
    fr: "InitOatCodeMethod_frame env (GetFrameSizeInBytes cm) (GetCoreSpillMask cm)
           (GetFpSpillMask cm) oc w1a = (o2, w2)"
    by (cases "InitOatCodeMethod_frame env (GetFrameSizeInBytes cm) (GetCoreSpillMask cm)
           (GetFpSpillMask cm) oc w1a")
  obtain mp o3 w3 where m: "InitOatCodeMethod_mapping_table env cm o2 w2 = (mp, o3, w3)"
    by (cases "InitOatCodeMethod_mapping_table env cm o2 w2") auto
  obtain vo o4 w4 where v: "InitOatCodeMethod_vmap_table env cm o3 w3 = (vo, o4, w4)"
    by (cases "InitOatCodeMethod_vmap_table env cm o3 w3") auto
  obtain so o5 w5 where
    s: "InitOatCodeMethod_stub env is_static idx d o4 w4 = (so, o5, w5)"
    by (cases "InitOatCodeMethod_stub env is_static idx d o4 w4") auto
  have r: "w1 = w5"
    using lay by (auto simp: InitOatCodeMethod_offsets_Some [OF Some] c fr m v s)
  have z1: "zero_sentinels env w1a" using code_sentinels [OF z, of cm offset] c by simp
  have z2: "zero_sentinels env w2"
    using frame_sentinels [OF z1, of "GetFrameSizeInBytes cm" "GetCoreSpillMask cm"
        "GetFpSpillMask cm" oc] fr by simp
  have z3: "zero_sentinels env w3" using mapping_table_sentinels [OF z2, of cm o2] m by simp
  have z4: "zero_sentinels env w4" using vmap_table_sentinels [OF z3, of cm o3] v by simp
  show ?thesis using stub_sentinels [OF z4, of is_static idx d o4] s r by simp
qed

lemma layout_step_sentinels:
  assumes "zero_sentinels env (snd s)"
  shows "zero_sentinels env (snd (layout_step env s x))"
proof (cases s)
  case (Pair offset w)
  have z: "zero_sentinels env w" using assms by (simp add: Pair)
  show ?thesis
  proof (cases x)
    case (Method oci cdmi is_static is_direct idx d)
    obtain mo o1 w1 where
      r: "InitOatCodeMethod_offsets env offset w is_static idx d = (mo, o1, w1)"
      by (cases "InitOatCodeMethod_offsets env offset w is_static idx d") auto
    have "zero_sentinels env w1" by (rule method_sentinels [OF z r])
    then show ?thesis by (simp add: Pair Method InitOatCodeMethod_def r zero_sentinels_def)
  next
    case (ClassEnd oci)
    show ?thesis using z by (simp add: Pair ClassEnd zero_sentinels_def)
  qed
qed

lemma layout_run_sentinels:
  "zero_sentinels env (snd s) \<Longrightarrow> zero_sentinels env (snd (layout_run env s items))"
proof (induction items arbitrary: s)
  case Nil then show ?case by simp
next
  case (Cons x xs)
  show ?case using Cons.IH [OF layout_step_sentinels [OF Cons.prems, of x]] by simp
qed

lemma code_start_maps:
  "code_offsets' (snd (code_start env ds)) = Map.empty"
  "mapping_table_offsets' (snd (code_start env ds)) = Map.empty"
  "vmap_table_offsets' (snd (code_start env ds)) = Map.empty"
proof -
  obtain o0 w0 where r0: "InitOatHeader env ds = (o0, w0)"
    by (cases "InitOatHeader env ds")
  obtain o1 w1 where r1: "InitOatDexFiles ds o0 w0 = (o1, w1)"
    by (cases "InitOatDexFiles ds o0 w0")
  obtain o2 w2 where r2: "InitOatClasses env ds 0 o1 w1 = (o2, w2)"
    by (cases "InitOatClasses env ds 0 o1 w1")
  obtain o3 w3 where r3: "InitOatMethods env ds 0 o2 w2 = (o3, w3)"
    by (cases "InitOatMethods env ds 0 o2 w2")
  have m0: "code_offsets' w0 = Map.empty" "mapping_table_offsets' w0 = Map.empty"
    "vmap_table_offsets' w0 = Map.empty"
    using r0 by (auto simp: InitOatHeader_def Let_def)
  have m1: "code_offsets' w1 = Map.empty" "mapping_table_offsets' w1 = Map.empty"
    "vmap_table_offsets' w1 = Map.empty"
    using InitOatDexFiles_maps [of ds o0 w0] r1 m0 by simp_all
  have m2: "code_offsets' w2 = Map.empty" "mapping_table_offsets' w2 = Map.empty"
    "vmap_table_offsets' w2 = Map.empty"
    using InitOatClasses_maps [of env ds 0 o1 w1] r2 m1 by simp_all
  have m3: "code_offsets' w3 = Map.empty" "mapping_table_offsets' w3 = Map.empty"
    "vmap_table_offsets' w3 = Map.empty"
    using InitOatMethods_maps [of env ds 0 o2 w2] r3 m2 by simp_all
  show "code_offsets' (snd (code_start env ds)) = Map.empty"
    "mapping_table_offsets' (snd (code_start env ds)) = Map.empty"
    "vmap_table_offsets' (snd (code_start env ds)) = Map.empty"
    by (simp_all add: code_start_def InitOatTables_def r0 r1 r2 r3 InitOatCode_def Let_def m3)
qed

lemma code_start_sentinels: "zero_sentinels env (snd (code_start env ds))"
  by (simp add: zero_sentinels_def code_start_maps)

text \<open>The emit pass writes nothing for an empty vector.\<close>

lemma dedup_empty: "WriteCodeMethod_dedup iter offset stored [] d c f = (Some c, f)"
  by (simp add: WriteCodeMethod_dedup_def WriteFully_def)

lemma and_then_align_contents:
  "contents (snd (and_then (WriteCodeMethod_align a d c f) (\<lambda>c1 f1. (Some c1, f1)))) = contents f"
  using align_contents [of a d c f]
  by (cases "WriteCodeMethod_align a d c f") (auto simp: and_then_def split: option.splits)


subsection \<open>The frame words of a method without compiled code\<close>

lemma stub_header:
  "oat_header' (snd (snd (InitOatCodeMethod_stub env is_static idx d offset w)))
     = UpdateChecksum env
         (case FindInvokeStub env is_static (GetMethodShorty d idx) of
            None \<Rightarrow> []
          | Some stub \<Rightarrow> first_bytes (code_offsets' w) stub (bytes_at env stub))
         (oat_header' w)"
  by (simp add: InitOatCodeMethod_stub_def InitOatCodeMethod_invoke_stub_def Let_def
      UpdateChecksum_def first_bytes_def split: option.splits)

text \<open>The emit pass writes three words 0 for a method without a compiled method.\<close>

lemma method_frame_None:
  assumes none: "GetCompiledMethod env d idx = None"
    and al: "alignments_positive env"
    and inv: "offsets_below offset w" and f: "synced offset f"
    and lay: "InitOatCodeMethod_offsets env offset w is_static idx d = (mo, offset1, w1)"
    and fits: "offset1 < 2 ^ 32"
    and le: "maps_le w1 wl" and st: "oat_methods' wl ! oci ! cdmi = mo"
  shows "\<exists>g. WriteCodeMethod env wl offset oci cdmi is_static idx d f = (offset1, g) \<and>
             has_bytes g offset (le32 0 @ le32 0 @ le32 0)"
proof -
  have arch: "0 < arch_alignment env" using al by (simp add: alignments_positive_def)
  obtain o2 w2 where
    fr: "InitOatCodeMethod_frame env (kStackAlignment env) 0 0 offset w = (o2, w2)"
    by (cases "InitOatCodeMethod_frame env (kStackAlignment env) 0 0 offset w")
  obtain so o5 w5 where
    s: "InitOatCodeMethod_stub env is_static idx d o2 w2 = (so, o5, w5)"
    by (cases "InitOatCodeMethod_stub env is_static idx d o2 w2") auto
  have r: "invoke_stub_offset' mo = so" "w1 = w5" "offset1 = o5"
    using lay by (auto simp: InitOatCodeMethod_offsets_None [OF none] fr s)
  have o2: "o2 = offset + 12" and m2: "code_offsets' w2 = code_offsets' w"
    "mapping_table_offsets' w2 = mapping_table_offsets' w"
    "vmap_table_offsets' w2 = vmap_table_offsets' w"
    using InitOatCodeMethod_frame_maps [of env "kStackAlignment env" 0 0 offset w] fr by simp_all
  have b2: "offsets_below o2 w2"
    using offsets_below_maps [OF offsets_below_mono [OF inv, of o2] m2] o2 by simp
  have keys: "\<forall>stub. FindInvokeStub env is_static (GetMethodShorty d idx) = Some stub \<longrightarrow>
                code_offsets' wl stub \<noteq> None"
    using method_keys [OF lay] maps_le_code [OF le] by fastforce
  obtain g2 where g2: "WriteCodeMethod_frame 0 0 0 idx offset f = (Some (offset + 12), g2) \<and>
      synced (offset + 12) g2 \<and> log g2 = log f \<and>
      padded g2 = padded f @ le32 0 @ le32 0 @ le32 0 \<and> file_extends f g2 \<and>
      has_bytes g2 offset (le32 0 @ le32 0 @ le32 0)"
    using frame_sync [OF f, of 0 0 0 idx] ..
  have s2: "synced o2 g2" using g2 o2 by simp
  have fits5: "o5 < 2 ^ 32" using fits r by simp
  obtain g5 where g5: "WriteCodeMethod_stub env wl is_static idx d mo o2 g2 = (Some o5, g5) \<and>
      synced o5 g5 \<and> log g5 = log g2 \<and>
      padded g5 = padded g2 @ stub_image env is_static idx d o2 w2 \<and> file_extends g2 g5 \<and>
      (\<forall>stub. FindInvokeStub env is_static (GetMethodShorty d idx) = Some stub \<longrightarrow>
         code_offsets' w2 stub = None \<longrightarrow> bytes_at env stub \<noteq> [] \<longrightarrow>
         has_bytes g5 (RoundUp o2 (arch_alignment env)) (bytes_at env stub) \<and>
         unat so = RoundUp o2 (arch_alignment env))"
    using stub_sync [OF arch b2 s2 s fits5 keys r(1)] ..
  have run: "WriteCodeMethod env wl offset oci cdmi is_static idx d f = (offset1, g5)"
    using g2 g5 by (simp add: WriteCodeMethod_def WriteCodeMethod_blocks_def Let_def none st
        and_then_def o2 r)
  have ext: "file_extends g2 g5" using g5 by simp
  have hb: "has_bytes g5 offset (le32 0 @ le32 0 @ le32 0)"
    using has_bytes_extends [OF _ ext] g2 by simp
  show ?thesis by (intro exI [of _ g5] conjI run hb)
qed

text \<open>
  Claim C9. The layout reaches a method without a compiled method with the cursor \<open>offset\<close>
  and the writer \<open>w\<close>. The entry of the method in the final methods table has
  \<^verbatim>\<open>kStackAlignment\<close> as the frame size and 0 for the two spill masks, and
  \<^verbatim>\<open>InitOatCodeMethod\<close> feeds these three words, and then the code of the invoke stub at
  its first occurrence, to the checksum. On a fresh file without failures \<^verbatim>\<open>Write\<close>
  succeeds, and the file has three words 0 at \<open>offset\<close>, where the frame words of the method
  lie; and \<^verbatim>\<open>WriteCodeMethod\<close>, on every file at the position \<open>offset\<close> on which no call
  fails, gives the cursor that \<^verbatim>\<open>InitOatCodeMethod\<close> gives and adds three words 0 and then
  the invoke stub to the file. As \<^verbatim>\<open>kStackAlignment\<close> is not 0, the words of the checksum
  differ from the words in the file.
\<close>

theorem abstract_method_frame_words:
  assumes al: "alignments_positive env" and td: "thumb_deltas env"
    and fits: "fst (OatWriter_new env dex_files) < 2 ^ 32" and f: "synced 0 f"
    and ka: "kStackAlignment env \<noteq> 0"
    and split: "all_items dex_files 0 =
                  pre @ Method oat_class_index class_def_method_index is_static is_direct
                          method_idx dex_file # post"
    and state: "layout_run env (code_start env dex_files) pre = (offset, w)"
    and none: "GetCompiledMethod env dex_file method_idx = None"
    and mo: "mo = oat_methods' (snd (OatWriter_new env dex_files))
                    ! oat_class_index ! class_def_method_index"
  shows "frame_size_in_bytes' mo = kStackAlignment env \<and> core_spill_mask' mo = 0 \<and>
         fp_spill_mask' mo = 0 \<and>
         adler32_checksum'
           (oat_header' (snd (InitOatCodeMethod env offset w oat_class_index
                                class_def_method_index is_static is_direct method_idx dex_file)))
           = foldl (checksum_step env) (adler32_checksum' (oat_header' w))
               (le32 (kStackAlignment env) @ le32 0 @ le32 0 @
                (case FindInvokeStub env is_static (GetMethodShorty dex_file method_idx) of
                   None \<Rightarrow> []
                 | Some stub \<Rightarrow> first_bytes (code_offsets' w) stub (bytes_at env stub))) \<and>
         (\<exists>g. Write env dex_files (snd (OatWriter_new env dex_files)) f = (True, g) \<and>
              has_bytes g offset (le32 0 @ le32 0 @ le32 0)) \<and>
         (\<forall>h. synced offset h \<longrightarrow>
            (\<exists>g. WriteCodeMethod env (snd (OatWriter_new env dex_files)) offset oat_class_index
                   class_def_method_index is_static method_idx dex_file h
                   = (fst (InitOatCodeMethod env offset w oat_class_index class_def_method_index
                             is_static is_direct method_idx dex_file), g) \<and>
                 padded g = padded h @ le32 0 @ le32 0 @ le32 0 @
                   stub_image env is_static method_idx dex_file (offset + 12) w)) \<and>
         le32 (kStackAlignment env) @ le32 0 @ le32 0 \<noteq> le32 0 @ le32 0 @ le32 0"
proof -
  let ?wl = "snd (OatWriter_new env dex_files)"
  let ?items = "all_items dex_files 0"
  let ?s0 = "code_start env dex_files"
  have page: "0 < kPageSize env" using al by (simp add: alignments_positive_def)
  have run: "OatWriter_new env dex_files = layout_run env ?s0 ?items"
    by (rule OatWriter_new_run)
  obtain mo1 o1 w1 where
    lay: "InitOatCodeMethod_offsets env offset w is_static method_idx dex_file = (mo1, o1, w1)"
    by (cases "InitOatCodeMethod_offsets env offset w is_static method_idx dex_file") auto
  have below: "offsets_below (fst ?s0) (snd ?s0)" by (rule code_start_below [OF page])
  have st: "stored_ok env ?wl ?s0 ?items" by (rule stored_ok_OatWriter_new)
  have le: "maps_le (snd (layout_run env ?s0 ?items)) ?wl" unfolding run [symmetric] by simp
  have fits1: "fst (layout_run env ?s0 ?items) < 2 ^ 32" unfolding run [symmetric] by (rule fits)
  note ws = walk_state [OF al td below split state lay]
  have mo1: "mo1 = mo" using ws(4) [OF st] mo by simp
  text \<open>The layout.\<close>
  have fr: "InitOatCodeMethod_frame env (kStackAlignment env) 0 0 offset w
            = (offset + 12,
               w\<lparr>oat_header' :=
                   UpdateChecksum env (le32 (kStackAlignment env) @ le32 0 @ le32 0)
                     (oat_header' w)\<rparr>)"
    by (simp add: InitOatCodeMethod_frame_def UpdateChecksum_append)
  let ?w2 = "w\<lparr>oat_header' :=
                UpdateChecksum env (le32 (kStackAlignment env) @ le32 0 @ le32 0)
                  (oat_header' w)\<rparr>"
  obtain so o5 w5 where
    s: "InitOatCodeMethod_stub env is_static method_idx dex_file (offset + 12) ?w2 = (so, o5, w5)"
    by (cases "InitOatCodeMethod_stub env is_static method_idx dex_file (offset + 12) ?w2") auto
  have r: "mo1 = \<lparr>code_offset' = 0, frame_size_in_bytes' = kStackAlignment env,
        core_spill_mask' = 0, fp_spill_mask' = 0,
        mapping_table_offset' = 0, vmap_table_offset' = 0,
        invoke_stub_offset' = so\<rparr>" "w1 = w5"
    using lay by (simp_all add: InitOatCodeMethod_offsets_None [OF none] fr s)
  have fields: "frame_size_in_bytes' mo = kStackAlignment env" "core_spill_mask' mo = 0"
    "fp_spill_mask' mo = 0"
    using r(1) mo1 by auto
  have "oat_header' (snd (InitOatCodeMethod env offset w oat_class_index
                            class_def_method_index is_static is_direct method_idx dex_file))
        = oat_header' w5"
    by (simp add: InitOatCodeMethod_def lay r)
  also have "\<dots> = UpdateChecksum env
         (case FindInvokeStub env is_static (GetMethodShorty dex_file method_idx) of
            None \<Rightarrow> []
          | Some stub \<Rightarrow> first_bytes (code_offsets' ?w2) stub (bytes_at env stub))
         (oat_header' ?w2)"
    using stub_header [of env is_static method_idx dex_file "offset + 12" ?w2] s by simp
  finally have sum: "adler32_checksum'
           (oat_header' (snd (InitOatCodeMethod env offset w oat_class_index
                                class_def_method_index is_static is_direct method_idx dex_file)))
           = foldl (checksum_step env) (adler32_checksum' (oat_header' w))
               (le32 (kStackAlignment env) @ le32 0 @ le32 0 @
                (case FindInvokeStub env is_static (GetMethodShorty dex_file method_idx) of
                   None \<Rightarrow> []
                 | Some stub \<Rightarrow> first_bytes (code_offsets' w) stub (bytes_at env stub)))"
    by (simp add: UpdateChecksum_def split: option.splits)
  text \<open>The emit pass.\<close>
  obtain g2 where g2: "synced (fst ?s0) g2 \<and> log g2 = log f \<and>
      padded g2 = tables_image ?wl @ replicate (executable_offset_padding_length' ?wl) 0 \<and>
      has_bytes g2 0 (OatHeader_bytes (oat_header' ?wl)) \<and>
      (\<forall>g3. emit_run env ?wl (fst ?s0, g2) ?items = (fst (OatWriter_new env dex_files), g3) \<longrightarrow>
             Write env dex_files ?wl f = (True, g3))"
    using Write_tables_sync [OF al fits f] ..
  have s2: "synced (fst ?s0) g2" using g2 by simp
  obtain f1 g1 g where e: "emit_run env ?wl (fst ?s0, g2) pre = (offset, f1) \<and>
      synced offset f1 \<and>
      WriteCodeMethod env ?wl offset oat_class_index class_def_method_index is_static
        method_idx dex_file f1 = (o1, g1) \<and>
      emit_run env ?wl (fst ?s0, g2) ?items = (fst (layout_run env ?s0 ?items), g) \<and>
      synced (fst (layout_run env ?s0 ?items)) g \<and> file_extends g1 g \<and> log g = log g2"
    using emit_run_split [OF al td below split state lay st le fits1 s2] by blast
  have wr: "Write env dex_files ?wl f = (True, g)" using g2 e run by simp
  have sf1: "synced offset f1" and ext: "file_extends g1 g" using e by simp_all
  have le1: "maps_le w1 ?wl" using maps_le_trans [OF ws(3) le] .
  have fits0: "o1 < 2 ^ 32" using ws(2) fits1 by simp
  obtain g1' where m: "WriteCodeMethod env ?wl offset oat_class_index class_def_method_index
        is_static method_idx dex_file f1 = (o1, g1') \<and>
      has_bytes g1' offset (le32 0 @ le32 0 @ le32 0)"
    using method_frame_None [OF none al ws(1) sf1 lay fits0 le1 ws(4) [OF st]] ..
  have gg: "g1' = g1" using m e by simp
  have hb: "has_bytes g offset (le32 0 @ le32 0 @ le32 0)"
    using m has_bytes_extends [OF _ ext] unfolding gg by blast
  have emit: "\<exists>g. Write env dex_files ?wl f = (True, g) \<and>
      has_bytes g offset (le32 0 @ le32 0 @ le32 0)"
    by (intro exI [of _ g] conjI wr hb)
  have ne: "le32 (kStackAlignment env) @ le32 0 @ le32 0 \<noteq> le32 0 @ le32 0 @ le32 0"
    using le32_eq_0 [of "kStackAlignment env"] ka by (auto simp: length_le32)
  have o1: "fst (InitOatCodeMethod env offset w oat_class_index class_def_method_index
                   is_static is_direct method_idx dex_file) = o1"
    using ws(8) by simp
  have im: "method_image env offset w is_static method_idx dex_file
              = le32 0 @ le32 0 @ le32 0 @
                stub_image env is_static method_idx dex_file (offset + 12) w"
    by (simp add: method_image_def none)
  have step: "\<exists>g. WriteCodeMethod env ?wl offset oat_class_index class_def_method_index
                   is_static method_idx dex_file h
                   = (fst (InitOatCodeMethod env offset w oat_class_index class_def_method_index
                             is_static is_direct method_idx dex_file), g) \<and>
                 padded g = padded h @ le32 0 @ le32 0 @ le32 0 @
                   stub_image env is_static method_idx dex_file (offset + 12) w"
    if h: "synced offset h" for h
  proof -
    obtain g where g: "WriteCodeMethod env ?wl offset oat_class_index class_def_method_index
          is_static method_idx dex_file h = (o1, g) \<and>
        synced o1 g \<and> log g = log h \<and> file_extends h g \<and>
        padded g = padded h @ method_image env offset w is_static method_idx dex_file \<and>
        offsets_below o1 w1 \<and>
        (\<forall>stub. FindInvokeStub env is_static (GetMethodShorty dex_file method_idx) = Some stub \<longrightarrow>
           code_offsets' w stub = None \<longrightarrow> bytes_at env stub \<noteq> [] \<longrightarrow>
           has_bytes g (unat (invoke_stub_offset' mo1)) (bytes_at env stub) \<and>
           unat (invoke_stub_offset' mo1) = RoundUp (offset + 12) (arch_alignment env))"
      using method_sync_None [OF none al ws(1) h lay fits0 le1 ws(4) [OF st]] ..
    show ?thesis
      unfolding o1 using g by (intro exI [of _ g]) (simp add: im)
  qed
  show ?thesis
    by (intro conjI fields sum emit ne allI impI; (rule step; assumption)?)
qed


lemma ex_last_state:
  "fst (layout_run ex_env (code_start ex_env [ex_dex])
          [Method 0 0 True True 0 ex_dex, Method 0 1 False True 1 ex_dex,
           Method 0 2 False False 2 ex_dex]) = 4164"
  by (simp add: code_start_def ex_defs)

theorem abstract_method_frame_words_witness:
  "alignments_positive ex_env \<and> thumb_deltas ex_env \<and>
   fst (OatWriter_new ex_env [ex_dex]) < 2 ^ 32 \<and> synced 0 ex_file \<and>
   kStackAlignment ex_env \<noteq> 0 \<and>
   all_items [ex_dex] 0 =
     [Method 0 0 True True 0 ex_dex, Method 0 1 False True 1 ex_dex,
      Method 0 2 False False 2 ex_dex] @
     Method 0 3 False False 3 ex_dex # [ClassEnd 0, ClassEnd 1] \<and>
   fst (layout_run ex_env (code_start ex_env [ex_dex])
          [Method 0 0 True True 0 ex_dex, Method 0 1 False True 1 ex_dex,
           Method 0 2 False False 2 ex_dex]) = 4164 \<and>
   GetCompiledMethod ex_env ex_dex 3 = None \<and>
   frame_size_in_bytes' (oat_methods' (snd (OatWriter_new ex_env [ex_dex])) ! 0 ! 3) = 16 \<and>
   core_spill_mask' (oat_methods' (snd (OatWriter_new ex_env [ex_dex])) ! 0 ! 3) = 0 \<and>
   fp_spill_mask' (oat_methods' (snd (OatWriter_new ex_env [ex_dex])) ! 0 ! 3) = 0 \<and>
   adler32_checksum'
     (oat_header'
        (snd (InitOatCodeMethod ex_env 4164
                (snd (layout_run ex_env (code_start ex_env [ex_dex])
                        [Method 0 0 True True 0 ex_dex, Method 0 1 False True 1 ex_dex,
                         Method 0 2 False False 2 ex_dex]))
                0 3 False False 3 ex_dex)))
     = adler32_checksum'
         (oat_header'
            (snd (layout_run ex_env (code_start ex_env [ex_dex])
                    [Method 0 0 True True 0 ex_dex, Method 0 1 False True 1 ex_dex,
                     Method 0 2 False False 2 ex_dex]))) + 16 \<and>
   (\<exists>g. Write ex_env [ex_dex] (snd (OatWriter_new ex_env [ex_dex])) ex_file = (True, g) \<and>
        has_bytes g 4164 [0, 0, 0, 0, 0, 0, 0, 0, 0, 0, 0, 0]) \<and>
   synced 4164 \<lparr>contents = [], pos = 4164, io_results = [], log = []\<rparr> \<and>
   (\<exists>g. WriteCodeMethod ex_env (snd (OatWriter_new ex_env [ex_dex])) 4164 0 3 False 3 ex_dex
          \<lparr>contents = [], pos = 4164, io_results = [], log = []\<rparr> = (4176, g) \<and>
        padded g = replicate 4164 0 @ [0, 0, 0, 0, 0, 0, 0, 0, 0, 0, 0, 0])"
proof -
  let ?pre = "[Method 0 0 True True 0 ex_dex, Method 0 1 False True 1 ex_dex,
               Method 0 2 False False 2 ex_dex]"
  let ?w = "snd (layout_run ex_env (code_start ex_env [ex_dex]) ?pre)"
  have 3: "fst (OatWriter_new ex_env [ex_dex]) < 2 ^ 32" by (simp add: ex_layout_value)
  have 4: "kStackAlignment ex_env \<noteq> 0" and k: "kStackAlignment ex_env = 16"
    "checksum_step ex_env = (\<lambda>c b. c + ucast b)"
    by (simp_all add: ex_env_def)
  have 5: "all_items [ex_dex] 0 = ?pre @ Method 0 3 False False 3 ex_dex # [ClassEnd 0, ClassEnd 1]"
    unfolding ex_all_items by simp
  have 6: "layout_run ex_env (code_start ex_env [ex_dex]) ?pre = (4164, ?w)"
    using ex_last_state
    by (cases "layout_run ex_env (code_start ex_env [ex_dex]) ?pre")
       (simp del: layout_run_Cons layout_run_Nil)
  have 7: "GetCompiledMethod ex_env ex_dex 3 = None" by (simp add: ex_env_def)
  have s: "FindInvokeStub ex_env False (GetMethodShorty ex_dex 3) = None"
    by (simp add: ex_env_def)
  have z: "le32 0 @ le32 0 @ le32 0 = [0, 0, 0, 0, 0, 0, 0, 0, 0, 0, 0, 0]"
    "le32 16 = [16, 0, 0, 0]"
    by (simp_all add: le32_def)
  note c = abstract_method_frame_words [OF alignments_positive_ex_env thumb_deltas_ex_env 3
      synced_ex_file 4 5 6 7 refl]
  have c1: "frame_size_in_bytes' (oat_methods' (snd (OatWriter_new ex_env [ex_dex])) ! 0 ! 3) = 16"
    "core_spill_mask' (oat_methods' (snd (OatWriter_new ex_env [ex_dex])) ! 0 ! 3) = 0"
    "fp_spill_mask' (oat_methods' (snd (OatWriter_new ex_env [ex_dex])) ! 0 ! 3) = 0"
    using c by (simp_all add: k)
  have c2: "adler32_checksum'
     (oat_header' (snd (InitOatCodeMethod ex_env 4164 ?w 0 3 False False 3 ex_dex)))
     = adler32_checksum' (oat_header' ?w) + 16"
    using c by (simp add: k s z le32_def)
  have c3: "\<exists>g. Write ex_env [ex_dex] (snd (OatWriter_new ex_env [ex_dex])) ex_file = (True, g) \<and>
        has_bytes g 4164 [0, 0, 0, 0, 0, 0, 0, 0, 0, 0, 0, 0]"
    using c by (simp add: z)
  let ?h = "\<lparr>contents = [], pos = 4164, io_results = [], log = []\<rparr>"
  have h: "synced 4164 ?h" and ph: "padded ?h = replicate 4164 0"
    by (simp_all add: synced_def no_failures_def file_ok_def padded_def)
  have st: "stub_image ex_env False 3 ex_dex (4164 + 12) ?w = []"
    by (simp add: stub_image_def s)
  have n: "fst (InitOatCodeMethod ex_env 4164 ?w 0 3 False False 3 ex_dex) = 4176"
    by (simp add: InitOatCodeMethod_def InitOatCodeMethod_offsets_None [OF 7]
        InitOatCodeMethod_frame_def InitOatCodeMethod_stub_def s split: prod.splits)
  have c4: "\<exists>g. WriteCodeMethod ex_env (snd (OatWriter_new ex_env [ex_dex])) 4164 0 3 False 3 ex_dex
          ?h = (4176, g) \<and>
        padded g = replicate 4164 0 @ [0, 0, 0, 0, 0, 0, 0, 0, 0, 0, 0, 0]"
    using c [THEN conjunct2, THEN conjunct2, THEN conjunct2, THEN conjunct2, THEN conjunct2,
        THEN conjunct1, rule_format, OF h]
    unfolding n st ph by (simp add: le32_def)
  show ?thesis
    by (intro conjI alignments_positive_ex_env thumb_deltas_ex_env 3 synced_ex_file 4 5
        ex_last_state 7 c1 c2 c3 h c4)
qed

subsection \<open>An empty vector: offset 0, no bytes, and the alignment gap\<close>

lemma RoundUp_lt: "0 < n \<Longrightarrow> RoundUp x n < x + n"
proof -
  assume n: "0 < n"
  have a: "(x + n - 1) div n * n \<le> x + n - 1" by simp
  have b: "x + n - 1 < x + n" using n by simp
  show ?thesis unfolding RoundUp_def by (rule le_less_trans [OF a b])
qed

text \<open>
  Claim C6, as the code has it. For a method of the walk and each of its four vectors (code,
  mapping table, vmap table, code of the invoke stub): where the vector is empty, the final
  methods table has offset 0 for it, and the emit pass writes no byte, whatever the cursor
  and the file. The layout leaves the cursor as it is for an empty mapping table or vmap
  table. For empty code the cursor has been rounded up to the code alignment before (line
  200), and for an empty stub to the alignment of the instruction set (line 264), so that it
  is advanced by the alignment gap, which is less than the alignment.
\<close>

theorem zero_length_sentinel:
  assumes al: "alignments_positive env"
    and split: "all_items dex_files 0 =
                  pre @ Method oat_class_index class_def_method_index is_static is_direct
                          method_idx dex_file # post"
    and mo: "mo = oat_methods' (snd (OatWriter_new env dex_files))
                    ! oat_class_index ! class_def_method_index"
  shows "(\<forall>cm. GetCompiledMethod env dex_file method_idx = Some cm \<longrightarrow>
            (bytes_at env (GetCode cm) = [] \<longrightarrow>
               code_offset' mo = 0 \<and>
               (\<forall>offset w.
                  fst (snd (InitOatCodeMethod_code env cm offset w))
                    = RoundUp offset (code_alignment cm) \<and>
                  offset \<le> RoundUp offset (code_alignment cm) \<and>
                  RoundUp offset (code_alignment cm) < offset + code_alignment cm \<and>
                  code_alignment cm dvd RoundUp offset (code_alignment cm)) \<and>
               (\<forall>c f. contents (snd (WriteCodeMethod_code env
                                       (snd (OatWriter_new env dex_files)) cm mo method_idx c f))
                        = contents f)) \<and>
            (mapping_table_bytes env cm = [] \<longrightarrow>
               mapping_table_offset' mo = 0 \<and>
               (\<forall>offset w. fst (snd (InitOatCodeMethod_mapping_table env cm offset w))
                              = offset) \<and>
               (\<forall>c f. WriteCodeMethod_mapping_table env (snd (OatWriter_new env dex_files)) cm
                          mo method_idx c f = (Some c, f))) \<and>
            (vmap_table_bytes env cm = [] \<longrightarrow>
               vmap_table_offset' mo = 0 \<and>
               (\<forall>offset w. fst (snd (InitOatCodeMethod_vmap_table env cm offset w)) = offset) \<and>
               (\<forall>c f. WriteCodeMethod_vmap_table env (snd (OatWriter_new env dex_files)) cm
                          mo method_idx c f = (Some c, f)))) \<and>
         (\<forall>stub. FindInvokeStub env is_static (GetMethodShorty dex_file method_idx) = Some stub \<longrightarrow>
            bytes_at env stub = [] \<longrightarrow>
              invoke_stub_offset' mo = 0 \<and>
              (\<forall>offset w.
                 fst (snd (InitOatCodeMethod_invoke_stub env stub offset w))
                   = RoundUp offset (arch_alignment env) \<and>
                 offset \<le> RoundUp offset (arch_alignment env) \<and>
                 RoundUp offset (arch_alignment env) < offset + arch_alignment env \<and>
                 arch_alignment env dvd RoundUp offset (arch_alignment env)) \<and>
              (\<forall>c f. contents (snd (WriteCodeMethod_invoke_stub env
                                      (snd (OatWriter_new env dex_files)) stub mo method_idx c f))
                       = contents f))"
proof -
  let ?wl = "snd (OatWriter_new env dex_files)"
  let ?items = "all_items dex_files 0"
  let ?s0 = "code_start env dex_files"
  obtain offset w where state: "layout_run env ?s0 pre = (offset, w)"
    by (cases "layout_run env ?s0 pre")
  obtain mo1 o1 w1 where
    lay: "InitOatCodeMethod_offsets env offset w is_static method_idx dex_file = (mo1, o1, w1)"
    by (cases "InitOatCodeMethod_offsets env offset w is_static method_idx dex_file") auto
  have arch: "0 < arch_alignment env" using al by (simp add: alignments_positive_def)
  have st: "stored_ok env ?wl ?s0 ?items" by (rule stored_ok_OatWriter_new)
  have e: "mo1 = mo"
    using st mo by (simp add: split stored_ok_append state lay del: layout_step.simps)
  have "zero_sentinels env w"
    using layout_run_sentinels [OF code_start_sentinels, of env dex_files pre] state by simp
  then have z: "zero_sentinels env w1" by (rule method_sentinels [OF _ lay])
  note mk = method_keys [OF lay, unfolded e]
  have code: "code_offset' mo = 0"
    if "GetCompiledMethod env dex_file method_idx = Some cm" "bytes_at env (GetCode cm) = []"
    for cm
    using mk z that by (auto simp: zero_sentinels_def)
  have mapping: "mapping_table_offset' mo = 0"
    if "GetCompiledMethod env dex_file method_idx = Some cm" "mapping_table_bytes env cm = []"
    for cm
    using mk z that by (auto simp: zero_sentinels_def mapping_table_bytes_Nil)
  have vmap: "vmap_table_offset' mo = 0"
    if "GetCompiledMethod env dex_file method_idx = Some cm" "vmap_table_bytes env cm = []"
    for cm
    using mk z that by (auto simp: zero_sentinels_def vmap_table_bytes_Nil)
  have stub: "invoke_stub_offset' mo = 0"
    if "FindInvokeStub env is_static (GetMethodShorty dex_file method_idx) = Some stub"
      "bytes_at env stub = []"
    for stub
    using mk z that by (auto simp: zero_sentinels_def)
  have lc: "fst (snd (InitOatCodeMethod_code env cm offset w))
              = RoundUp offset (code_alignment cm) \<and>
            offset \<le> RoundUp offset (code_alignment cm) \<and>
            RoundUp offset (code_alignment cm) < offset + code_alignment cm \<and>
            code_alignment cm dvd RoundUp offset (code_alignment cm)"
    if "GetCompiledMethod env dex_file method_idx = Some cm" "bytes_at env (GetCode cm) = []"
    for cm offset w
  proof -
    have ca: "0 < code_alignment cm" using al that(1) by (auto simp: alignments_positive_def)
    have "fst (snd (InitOatCodeMethod_code env cm offset w)) = RoundUp offset (code_alignment cm)"
      using that(2)
      by (simp add: InitOatCodeMethod_code_def Let_def AlignCode_def split: option.splits)
    then show ?thesis
      using RoundUp_ge [OF ca, of offset] RoundUp_lt [OF ca, of offset]
        RoundUp_dvd [of "code_alignment cm" offset] by simp
  qed
  have lm: "fst (snd (InitOatCodeMethod_mapping_table env cm offset w)) = offset"
    if "mapping_table_bytes env cm = []" for cm offset w
    using that by (subst InitOatCodeMethod_mapping_table_eq) (simp add: first_bytes_def
        split: option.splits)
  have lv: "fst (snd (InitOatCodeMethod_vmap_table env cm offset w)) = offset"
    if "vmap_table_bytes env cm = []" for cm offset w
    using that by (subst InitOatCodeMethod_vmap_table_eq) (simp add: first_bytes_def
        split: option.splits)
  have ls: "fst (snd (InitOatCodeMethod_invoke_stub env stub offset w))
              = RoundUp offset (arch_alignment env) \<and>
            offset \<le> RoundUp offset (arch_alignment env) \<and>
            RoundUp offset (arch_alignment env) < offset + arch_alignment env \<and>
            arch_alignment env dvd RoundUp offset (arch_alignment env)"
    if "bytes_at env stub = []" for stub offset w
  proof -
    have "fst (snd (InitOatCodeMethod_invoke_stub env stub offset w))
            = RoundUp offset (arch_alignment env)"
      using that by (simp add: InitOatCodeMethod_invoke_stub_def Let_def split: option.splits)
    then show ?thesis
      using RoundUp_ge [OF arch, of offset] RoundUp_lt [OF arch, of offset]
        RoundUp_dvd [of "arch_alignment env" offset] by simp
  qed
  have ec: "contents (snd (WriteCodeMethod_code env ?wl cm mo method_idx c f)) = contents f"
    if "bytes_at env (GetCode cm) = []" for cm c f
    using that and_then_align_contents
    by (simp add: WriteCodeMethod_code_def dedup_empty)
  have em: "WriteCodeMethod_mapping_table env ?wl cm mo method_idx c f = (Some c, f)"
    if "mapping_table_bytes env cm = []" for cm c f
    using that by (simp add: WriteCodeMethod_mapping_table_def dedup_empty)
  have ev: "WriteCodeMethod_vmap_table env ?wl cm mo method_idx c f = (Some c, f)"
    if "vmap_table_bytes env cm = []" for cm c f
    using that by (simp add: WriteCodeMethod_vmap_table_def dedup_empty)
  have es: "contents (snd (WriteCodeMethod_invoke_stub env ?wl stub mo method_idx c f))
              = contents f"
    if "bytes_at env stub = []" for stub c f
    using that and_then_align_contents
    by (simp add: WriteCodeMethod_invoke_stub_def dedup_empty)
  show ?thesis
    by (intro conjI allI impI;
        (rule code mapping vmap stub lm lv ec em ev es
              lc [THEN conjunct1] lc [THEN conjunct2, THEN conjunct1]
              lc [THEN conjunct2, THEN conjunct2, THEN conjunct1]
              lc [THEN conjunct2, THEN conjunct2, THEN conjunct2]
              ls [THEN conjunct1] ls [THEN conjunct2, THEN conjunct1]
              ls [THEN conjunct2, THEN conjunct2, THEN conjunct1]
              ls [THEN conjunct2, THEN conjunct2, THEN conjunct2]; assumption))
qed


lemma alignments_positive_ex_stub_env: "alignments_positive ex_stub_env"
  using alignments_positive_ex_env by (simp add: alignments_positive_def ex_stub_env_def)

lemma ex_stub_state:
  "fst (layout_run ex_stub_env (code_start ex_stub_env [ex_dex])
          [Method 0 0 True True 0 ex_dex, Method 0 1 False True 1 ex_dex]) = 4144"
  by (simp add: code_start_def ex_stub_env_def ex_defs)

theorem zero_length_sentinel_witness:
  "alignments_positive ex_stub_env \<and>
   all_items [ex_dex] 0 =
     [Method 0 0 True True 0 ex_dex, Method 0 1 False True 1 ex_dex] @
     Method 0 2 False False 2 ex_dex # [Method 0 3 False False 3 ex_dex, ClassEnd 0, ClassEnd 1] \<and>
   GetCompiledMethod ex_stub_env ex_dex 2 = Some ex_empty_method \<and>
   bytes_at ex_stub_env (GetCode ex_empty_method) = [] \<and>
   mapping_table_bytes ex_stub_env ex_empty_method = [] \<and>
   vmap_table_bytes ex_stub_env ex_empty_method = [] \<and>
   FindInvokeStub ex_stub_env False (GetMethodShorty ex_dex 2) = Some 401 \<and>
   bytes_at ex_stub_env 401 = [] \<and>
   code_offset' (oat_methods' (snd (OatWriter_new ex_stub_env [ex_dex])) ! 0 ! 2) = 0 \<and>
   mapping_table_offset' (oat_methods' (snd (OatWriter_new ex_stub_env [ex_dex])) ! 0 ! 2) = 0 \<and>
   vmap_table_offset' (oat_methods' (snd (OatWriter_new ex_stub_env [ex_dex])) ! 0 ! 2) = 0 \<and>
   invoke_stub_offset' (oat_methods' (snd (OatWriter_new ex_stub_env [ex_dex])) ! 0 ! 2) = 0 \<and>
   fst (layout_run ex_stub_env (code_start ex_stub_env [ex_dex])
          [Method 0 0 True True 0 ex_dex, Method 0 1 False True 1 ex_dex]) = 4144 \<and>
   fst (snd (InitOatCodeMethod_code ex_stub_env ex_empty_method 4144
               (snd (layout_run ex_stub_env (code_start ex_stub_env [ex_dex])
                       [Method 0 0 True True 0 ex_dex, Method 0 1 False True 1 ex_dex]))))
     = 4144 \<and>
   fst (snd (InitOatCodeMethod_mapping_table ex_stub_env ex_empty_method 4156
               (snd (layout_run ex_stub_env (code_start ex_stub_env [ex_dex])
                       [Method 0 0 True True 0 ex_dex, Method 0 1 False True 1 ex_dex]))))
     = 4156 \<and>
   fst (snd (InitOatCodeMethod_vmap_table ex_stub_env ex_empty_method 4156
               (snd (layout_run ex_stub_env (code_start ex_stub_env [ex_dex])
                       [Method 0 0 True True 0 ex_dex, Method 0 1 False True 1 ex_dex]))))
     = 4156 \<and>
   fst (snd (InitOatCodeMethod_invoke_stub ex_stub_env 401 4156
               (snd (layout_run ex_stub_env (code_start ex_stub_env [ex_dex])
                       [Method 0 0 True True 0 ex_dex, Method 0 1 False True 1 ex_dex]))))
     = 4160 \<and>
   contents (snd (WriteCodeMethod_code ex_stub_env (snd (OatWriter_new ex_stub_env [ex_dex]))
                    ex_empty_method
                    (oat_methods' (snd (OatWriter_new ex_stub_env [ex_dex])) ! 0 ! 2) 2 4144
                    \<lparr>contents = [1, 2], pos = 4144, io_results = [], log = []\<rparr>)) = [1, 2] \<and>
   WriteCodeMethod_mapping_table ex_stub_env (snd (OatWriter_new ex_stub_env [ex_dex]))
     ex_empty_method (oat_methods' (snd (OatWriter_new ex_stub_env [ex_dex])) ! 0 ! 2) 2 4156
     \<lparr>contents = [1, 2], pos = 4156, io_results = [], log = []\<rparr>
     = (Some 4156, \<lparr>contents = [1, 2], pos = 4156, io_results = [], log = []\<rparr>) \<and>
   WriteCodeMethod_vmap_table ex_stub_env (snd (OatWriter_new ex_stub_env [ex_dex]))
     ex_empty_method (oat_methods' (snd (OatWriter_new ex_stub_env [ex_dex])) ! 0 ! 2) 2 4156
     \<lparr>contents = [1, 2], pos = 4156, io_results = [], log = []\<rparr>
     = (Some 4156, \<lparr>contents = [1, 2], pos = 4156, io_results = [], log = []\<rparr>) \<and>
   contents (snd (WriteCodeMethod_invoke_stub ex_stub_env
                    (snd (OatWriter_new ex_stub_env [ex_dex])) 401
                    (oat_methods' (snd (OatWriter_new ex_stub_env [ex_dex])) ! 0 ! 2) 2 4156
                    \<lparr>contents = [1, 2], pos = 4156, io_results = [], log = []\<rparr>)) = [1, 2]"
proof -
  have 1: "all_items [ex_dex] 0 =
     [Method 0 0 True True 0 ex_dex, Method 0 1 False True 1 ex_dex] @
     Method 0 2 False False 2 ex_dex # [Method 0 3 False False 3 ex_dex, ClassEnd 0, ClassEnd 1]"
    unfolding ex_all_items by simp
  have v: "GetCompiledMethod ex_stub_env ex_dex 2 = Some ex_empty_method"
    "bytes_at ex_stub_env (GetCode ex_empty_method) = []"
    "mapping_table_bytes ex_stub_env ex_empty_method = []"
    "vmap_table_bytes ex_stub_env ex_empty_method = []"
    "FindInvokeStub ex_stub_env False (GetMethodShorty ex_dex 2) = Some 401"
    "bytes_at ex_stub_env 401 = []"
    by (simp_all add: ex_stub_env_def ex_env_def ex_empty_method_def mapping_table_bytes_def
        vmap_table_bytes_def)
  have r: "RoundUp 4144 (code_alignment ex_empty_method) = 4144"
    "RoundUp 4156 (arch_alignment ex_stub_env) = 4160"
    by (simp_all add: RoundUp_def ex_empty_method_def ex_stub_env_def ex_env_def)
  note c = zero_length_sentinel [where env = ex_stub_env, OF alignments_positive_ex_stub_env 1
      refl]
  show ?thesis
    using c alignments_positive_ex_stub_env 1 v ex_stub_state by (simp add: r)
qed

text \<open>
  Claim C6 as the spec states it fails: the third method of the small input has an empty
  code vector; the layout reaches it with the cursor 4148 and leaves the code step with the
  cursor 4152, rounded up to the code alignment 8.
\<close>

theorem zero_length_cursor_counterexample:
  "GetCompiledMethod ex_env ex_dex 2 = Some ex_empty_method \<and>
   bytes_at ex_env (GetCode ex_empty_method) = [] \<and>
   all_items [ex_dex] 0 =
     [Method 0 0 True True 0 ex_dex, Method 0 1 False True 1 ex_dex] @
     Method 0 2 False False 2 ex_dex # [Method 0 3 False False 3 ex_dex, ClassEnd 0, ClassEnd 1] \<and>
   fst (layout_run ex_env (code_start ex_env [ex_dex])
          [Method 0 0 True True 0 ex_dex, Method 0 1 False True 1 ex_dex]) = 4148 \<and>
   fst (snd (InitOatCodeMethod_code ex_env ex_empty_method 4148
               (snd (layout_run ex_env (code_start ex_env [ex_dex])
                       [Method 0 0 True True 0 ex_dex, Method 0 1 False True 1 ex_dex]))))
     = 4152 \<and>
   fst (snd (InitOatCodeMethod_code ex_env ex_empty_method 4148
               (snd (layout_run ex_env (code_start ex_env [ex_dex])
                       [Method 0 0 True True 0 ex_dex, Method 0 1 False True 1 ex_dex]))))
     \<noteq> 4148"
proof -
  have 1: "all_items [ex_dex] 0 =
     [Method 0 0 True True 0 ex_dex, Method 0 1 False True 1 ex_dex] @
     Method 0 2 False False 2 ex_dex # [Method 0 3 False False 3 ex_dex, ClassEnd 0, ClassEnd 1]"
    unfolding ex_all_items by simp
  have 2: "fst (layout_run ex_env (code_start ex_env [ex_dex])
          [Method 0 0 True True 0 ex_dex, Method 0 1 False True 1 ex_dex]) = 4148"
    by (simp add: code_start_def ex_defs)
  have 3: "fst (snd (InitOatCodeMethod_code ex_env ex_empty_method 4148
               (snd (layout_run ex_env (code_start ex_env [ex_dex])
                       [Method 0 0 True True 0 ex_dex, Method 0 1 False True 1 ex_dex]))))
     = 4152"
    by (simp add: code_start_def ex_defs)
  have 4: "GetCompiledMethod ex_env ex_dex 2 = Some ex_empty_method"
    "bytes_at ex_env (GetCode ex_empty_method) = []"
    by (simp_all add: ex_env_def ex_empty_method_def)
  show ?thesis using 1 2 4 unfolding 3 by simp
qed

subsection \<open>The cursor of the layout never goes back\<close>

text \<open>
  Claim C10, as the code has it. Where the alignments are positive and the final cursor of
  the constructor is below \<open>2 ^ 32\<close>, so that no addition to the cursor overflows, each
  step of the constructor gives a cursor that is at least the cursor it was given:
  \<^verbatim>\<open>InitOatDexFiles\<close>, \<^verbatim>\<open>InitOatClasses\<close>, \<^verbatim>\<open>InitOatMethods\<close>, \<^verbatim>\<open>InitOatCode\<close> and
  \<^verbatim>\<open>InitOatCodeDexFiles\<close> on the cursors and writers that the constructor gives them, and
  \<^verbatim>\<open>InitOatCodeMethod\<close> at every method of the walk; every cursor is at most the final
  one. At every method of the walk, every offset in the three maps is below the cursor.
\<close>

theorem layout_cursor_monotone:
  assumes al: "alignments_positive env" and td: "thumb_deltas env"
    and fits: "fst (OatWriter_new env dex_files) < 2 ^ 32"
  shows "(case InitOatHeader env dex_files of (offset0, w0) \<Rightarrow>
          case InitOatDexFiles dex_files offset0 w0 of (offset1, w1) \<Rightarrow>
          case InitOatClasses env dex_files 0 offset1 w1 of (offset2, w2) \<Rightarrow>
          case InitOatMethods env dex_files 0 offset2 w2 of (offset3, w3) \<Rightarrow>
          case InitOatCode env offset3 w3 of (offset4, w4) \<Rightarrow>
          case InitOatCodeDexFiles env dex_files 0 offset4 w4 of (offset5, w5) \<Rightarrow>
            offset0 \<le> offset1 \<and> offset1 \<le> offset2 \<and> offset2 \<le> offset3 \<and>
            offset3 \<le> offset4 \<and> offset4 \<le> offset5 \<and> offset5 < 2 ^ 32 \<and>
            (offset5, w5) = OatWriter_new env dex_files \<and>
            (offset4, w4) = code_start env dex_files) \<and>
         (\<forall>pre oat_class_index class_def_method_index is_static is_direct method_idx dex_file
             post offset w.
            all_items dex_files 0 =
              pre @ Method oat_class_index class_def_method_index is_static is_direct
                      method_idx dex_file # post \<longrightarrow>
            layout_run env (code_start env dex_files) pre = (offset, w) \<longrightarrow>
            fst (code_start env dex_files) \<le> offset \<and>
            offset \<le> fst (InitOatCodeMethod env offset w oat_class_index
                             class_def_method_index is_static is_direct method_idx dex_file) \<and>
            fst (InitOatCodeMethod env offset w oat_class_index class_def_method_index
                   is_static is_direct method_idx dex_file)
              \<le> fst (OatWriter_new env dex_files) \<and>
            offsets_below offset w)"
proof -
  let ?s0 = "code_start env dex_files"
  have page: "0 < kPageSize env" using al by (simp add: alignments_positive_def)
  obtain o0 w0 where r0: "InitOatHeader env dex_files = (o0, w0)"
    by (cases "InitOatHeader env dex_files")
  obtain o1 w1 where r1: "InitOatDexFiles dex_files o0 w0 = (o1, w1)"
    by (cases "InitOatDexFiles dex_files o0 w0")
  obtain o2 w2 where r2: "InitOatClasses env dex_files 0 o1 w1 = (o2, w2)"
    by (cases "InitOatClasses env dex_files 0 o1 w1")
  obtain o3 w3 where r3: "InitOatMethods env dex_files 0 o2 w2 = (o3, w3)"
    by (cases "InitOatMethods env dex_files 0 o2 w2")
  obtain o4 w4 where r4: "InitOatCode env o3 w3 = (o4, w4)"
    by (cases "InitOatCode env o3 w3")
  obtain o5 w5 where r5: "InitOatCodeDexFiles env dex_files 0 o4 w4 = (o5, w5)"
    by (cases "InitOatCodeDexFiles env dex_files 0 o4 w4")
  have n: "OatWriter_new env dex_files = (o5, w5)"
    by (simp add: OatWriter_new_def r0 r1 r2 r3 r4 r5)
  have c: "code_start env dex_files = (o4, w4)"
    by (simp add: code_start_def InitOatTables_def r0 r1 r2 r3 r4)
  have 1: "o0 \<le> o1" using InitOatDexFiles_mono [of o0 dex_files w0] r1 by simp
  have 2: "o1 \<le> o2" using InitOatClasses_mono [of o1 env dex_files 0 w1] r2 by simp
  have 3: "o2 \<le> o3" using InitOatMethods_mono [of o2 env dex_files 0 w2] r3 by simp
  have 4: "o3 \<le> o4" using InitOatCode_mono [OF page, of o3 w3] r4 by simp
  have 5: "o4 \<le> o5" using InitOatCodeDexFiles_mono [OF al, of o4 dex_files 0 w4] r5 by simp
  have 6: "o5 < 2 ^ 32" using fits n by simp
  have chain: "(case InitOatHeader env dex_files of (offset0, w0) \<Rightarrow>
          case InitOatDexFiles dex_files offset0 w0 of (offset1, w1) \<Rightarrow>
          case InitOatClasses env dex_files 0 offset1 w1 of (offset2, w2) \<Rightarrow>
          case InitOatMethods env dex_files 0 offset2 w2 of (offset3, w3) \<Rightarrow>
          case InitOatCode env offset3 w3 of (offset4, w4) \<Rightarrow>
          case InitOatCodeDexFiles env dex_files 0 offset4 w4 of (offset5, w5) \<Rightarrow>
            offset0 \<le> offset1 \<and> offset1 \<le> offset2 \<and> offset2 \<le> offset3 \<and>
            offset3 \<le> offset4 \<and> offset4 \<le> offset5 \<and> offset5 < 2 ^ 32 \<and>
            (offset5, w5) = OatWriter_new env dex_files \<and>
            (offset4, w4) = code_start env dex_files)"
    using 1 2 3 4 5 6 by (simp add: r0 r1 r2 r3 r4 r5 n c)
  have below: "offsets_below (fst ?s0) (snd ?s0)" by (rule code_start_below [OF page])
  have run: "OatWriter_new env dex_files = layout_run env ?s0 (all_items dex_files 0)"
    by (rule OatWriter_new_run)
  have walk: "fst ?s0 \<le> offset \<and>
      offset \<le> fst (InitOatCodeMethod env offset w oci cdmi is_static is_direct idx d) \<and>
      fst (InitOatCodeMethod env offset w oci cdmi is_static is_direct idx d)
        \<le> fst (OatWriter_new env dex_files) \<and>
      offsets_below offset w"
    if split: "all_items dex_files 0 = pre @ Method oci cdmi is_static is_direct idx d # post"
      and state: "layout_run env ?s0 pre = (offset, w)"
    for pre oci cdmi is_static is_direct idx d post offset w
  proof -
    obtain mo1 o1 w1 where
      lay: "InitOatCodeMethod_offsets env offset w is_static idx d = (mo1, o1, w1)"
      by (cases "InitOatCodeMethod_offsets env offset w is_static idx d") auto
    note ws = walk_state [OF al td below split state lay]
    have e: "fst (InitOatCodeMethod env offset w oci cdmi is_static is_direct idx d) = o1"
      using ws(8) by simp
    have a: "fst ?s0 \<le> offset" using layout_run_mono [OF al, of ?s0 pre] state by simp
    have b: "offset \<le> o1"
      using InitOatCodeMethod_mono [OF al, of offset w oci cdmi is_static is_direct idx d] e
      by simp
    have c: "o1 \<le> fst (OatWriter_new env dex_files)" using ws(2) run by simp
    show ?thesis using a b c ws(1) e by simp
  qed
  show ?thesis
    by (intro conjI chain allI impI; (rule walk [THEN conjunct1]
          walk [THEN conjunct2, THEN conjunct1]
          walk [THEN conjunct2, THEN conjunct2, THEN conjunct1]
          walk [THEN conjunct2, THEN conjunct2, THEN conjunct2]; assumption))
qed


theorem layout_cursor_monotone_witness:
  "alignments_positive ex_env \<and> thumb_deltas ex_env \<and>
   fst (OatWriter_new ex_env [ex_dex]) < 2 ^ 32 \<and>
   fst (InitOatHeader ex_env [ex_dex]) = 16 \<and>
   fst (code_start ex_env [ex_dex]) = 4096 \<and>
   fst (OatWriter_new ex_env [ex_dex]) = 4176 \<and>
   (case InitOatHeader ex_env [ex_dex] of (offset0, w0) \<Rightarrow>
    case InitOatDexFiles [ex_dex] offset0 w0 of (offset1, w1) \<Rightarrow>
    case InitOatClasses ex_env [ex_dex] 0 offset1 w1 of (offset2, w2) \<Rightarrow>
    case InitOatMethods ex_env [ex_dex] 0 offset2 w2 of (offset3, w3) \<Rightarrow>
    case InitOatCode ex_env offset3 w3 of (offset4, w4) \<Rightarrow>
    case InitOatCodeDexFiles ex_env [ex_dex] 0 offset4 w4 of (offset5, w5) \<Rightarrow>
      offset0 \<le> offset1 \<and> offset1 \<le> offset2 \<and> offset2 \<le> offset3 \<and>
      offset3 \<le> offset4 \<and> offset4 \<le> offset5 \<and> offset5 < 2 ^ 32 \<and>
      (offset5, w5) = OatWriter_new ex_env [ex_dex] \<and>
      (offset4, w4) = code_start ex_env [ex_dex]) \<and>
   all_items [ex_dex] 0 =
     [Method 0 0 True True 0 ex_dex] @ Method 0 1 False True 1 ex_dex #
       [Method 0 2 False False 2 ex_dex, Method 0 3 False False 3 ex_dex, ClassEnd 0,
        ClassEnd 1] \<and>
   fst (layout_run ex_env (code_start ex_env [ex_dex]) [Method 0 0 True True 0 ex_dex]) = 4130 \<and>
   4096 \<le> (4130 :: nat) \<and>
   4130 \<le> fst (InitOatCodeMethod ex_env 4130
                  (snd (layout_run ex_env (code_start ex_env [ex_dex])
                          [Method 0 0 True True 0 ex_dex]))
                  0 1 False True 1 ex_dex) \<and>
   fst (InitOatCodeMethod ex_env 4130
          (snd (layout_run ex_env (code_start ex_env [ex_dex])
                  [Method 0 0 True True 0 ex_dex]))
          0 1 False True 1 ex_dex) \<le> 4176 \<and>
   offsets_below 4130
     (snd (layout_run ex_env (code_start ex_env [ex_dex]) [Method 0 0 True True 0 ex_dex]))"
proof -
  let ?pre = "[Method 0 0 True True 0 ex_dex]"
  let ?w = "snd (layout_run ex_env (code_start ex_env [ex_dex]) ?pre)"
  have 3: "fst (OatWriter_new ex_env [ex_dex]) < 2 ^ 32"
    and v: "fst (OatWriter_new ex_env [ex_dex]) = 4176"
    by (simp_all add: ex_layout_value)
  have h: "fst (InitOatHeader ex_env [ex_dex]) = 16"
    by (simp add: ex_defs)
  have 5: "all_items [ex_dex] 0 =
      ?pre @ Method 0 1 False True 1 ex_dex #
        [Method 0 2 False False 2 ex_dex, Method 0 3 False False 3 ex_dex, ClassEnd 0,
         ClassEnd 1]"
    unfolding ex_all_items by simp
  have 6: "layout_run ex_env (code_start ex_env [ex_dex]) ?pre = (4130, ?w)"
    using ex_second_state
    by (cases "layout_run ex_env (code_start ex_env [ex_dex]) ?pre")
       (simp del: layout_run_Cons layout_run_Nil)
  note c = layout_cursor_monotone [OF alignments_positive_ex_env thumb_deltas_ex_env 3]
  note c1 = c [THEN conjunct1]
  note c2 = c [THEN conjunct2, rule_format, OF 5 6]
  show ?thesis
    using c2
    by (intro conjI alignments_positive_ex_env thumb_deltas_ex_env 3 h v c1 5
          ex_second_state ex_code_start(1))
       (simp_all add: v ex_code_start(1))
qed

text \<open>The two cursors of \<^verbatim>\<open>InitOatDexFiles\<close> agree as long as the cursor fits 32 bits.\<close>

lemma InitOatDexFiles_size_t_of_nat:
  "InitOatDexFiles_size_t ds (of_nat offset) = of_nat (fst (InitOatDexFiles ds offset w))"
  by (induction ds arbitrary: offset w) (simp_all add: Let_def)

lemma InitOatDexFiles_size_t_agrees:
  "fst (InitOatDexFiles ds offset w) < 2 ^ 32 \<Longrightarrow>
   unat (InitOatDexFiles_size_t ds (of_nat offset)) = fst (InitOatDexFiles ds offset w)"
  by (simp add: InitOatDexFiles_size_t_of_nat [of ds offset w] unat_of_nat_u32)

text \<open>
  Claim C10 as the spec states it fails in its conclusion on the offsets that the layout
  stores: the walk lays out method 0 before method 1 and method 1 before method 2, yet the
  invoke stub offset stored for method 0 is 4128, the code offset stored after it for method
  1 is 4097 (the offset of the code vector it shares with method 0), and the code offset
  stored after that for method 2, whose code is empty, is 0. It also fails for a step where
  the cursor wraps: given the cursor \<open>2 ^ 32 - 4\<close> and the small input, whose descriptor takes
  13 bytes, the loop of \<^verbatim>\<open>InitOatDexFiles\<close> returns 9.
\<close>

theorem stored_offsets_counterexample:
  "all_items [ex_dex] 0 =
     [Method 0 0 True True 0 ex_dex, Method 0 1 False True 1 ex_dex,
      Method 0 2 False False 2 ex_dex, Method 0 3 False False 3 ex_dex, ClassEnd 0, ClassEnd 1] \<and>
   invoke_stub_offset' (oat_methods' (snd (OatWriter_new ex_env [ex_dex])) ! 0 ! 0) = 4128 \<and>
   code_offset' (oat_methods' (snd (OatWriter_new ex_env [ex_dex])) ! 0 ! 1) = 4097 \<and>
   code_offset' (oat_methods' (snd (OatWriter_new ex_env [ex_dex])) ! 0 ! 2) = 0 \<and>
   \<not> invoke_stub_offset' (oat_methods' (snd (OatWriter_new ex_env [ex_dex])) ! 0 ! 0)
       \<le> code_offset' (oat_methods' (snd (OatWriter_new ex_env [ex_dex])) ! 0 ! 1) \<and>
   \<not> code_offset' (oat_methods' (snd (OatWriter_new ex_env [ex_dex])) ! 0 ! 1)
       \<le> code_offset' (oat_methods' (snd (OatWriter_new ex_env [ex_dex])) ! 0 ! 2) \<and>
   InitOatDexFiles_size_t [ex_dex] 4294967292 = 9 \<and>
   \<not> (4294967292 :: u32) \<le> InitOatDexFiles_size_t [ex_dex] 4294967292"
proof -
  let ?t = "oat_methods' (snd (OatWriter_new ex_env [ex_dex])) ! 0"
  have a: "invoke_stub_offset' (?t ! 0) = 4128"
    and b: "code_offset' (?t ! 1) = 4097"
    and c: "code_offset' (?t ! 2) = 0"
    by (simp_all add: ex_layout_value numeral_eq_Suc)
  have w: "InitOatDexFiles_size_t [ex_dex] 4294967292 = 9"
    "\<not> (4294967292 :: u32) \<le> InitOatDexFiles_size_t [ex_dex] 4294967292"
    by (simp_all add: OatDexFile_SizeOf_def OatDexFile_new_def ex_dex_def)
  show ?thesis
    unfolding a b c by (intro conjI ex_all_items w) simp_all
qed

subsection \<open>The emit pass makes its calls in order and stops at the first that fails\<close>

lemma calls_image_Nil [simp]: "calls_image [] = []"
  by (simp add: calls_image_def)

lemma calls_image_Cons [simp]: "calls_image (c # cs) = call_image c @ calls_image cs"
  by (simp add: calls_image_def)

lemma calls_image_append [simp]: "calls_image (a @ b) = calls_image a @ calls_image b"
  by (simp add: calls_image_def)

lemma call_image_within [simp]: "call_image (within d c) = call_image c"
  by (cases c) simp_all

lemma call_log_within [simp]: "call_log (within d c) = call_log c @ [d]"
  by (cases c) simp_all

lemma perform_within [simp]: "perform (within d c) f = perform c f"
  by (cases c) simp_all

lemma real_call_within [simp]: "real_call (within d c) = real_call c"
  by (cases c) simp_all

lemma calls_image_within [simp]: "calls_image (map (within d) cs) = calls_image cs"
  by (induction cs) simp_all

lemma calls_image_write_call [simp]: "calls_image (write_call d bs) = bs"
  by (simp add: write_call_def)

lemma calls_image_concat:
  "calls_image (concat (map cl xs)) = concat (map (\<lambda>x. calls_image (cl x)) xs)"
  by (induction xs) simp_all

lemma real_write_call [simp]: "list_all real_call (write_call d bs)"
  by (simp add: write_call_def)

lemma run_calls_append:
  "run_calls (a @ b) f =
     (case run_calls a f of (ok, g) \<Rightarrow> if ok then run_calls b g else (False, g))"
  by (induction a arbitrary: f) (auto split: prod.splits)

lemma run_calls_within:
  "run_calls (map (within d) cs) f =
     (case run_calls cs f of (ok, g) \<Rightarrow> if ok then (True, g) else (False, PLOG d g))"
  by (induction cs arbitrary: f) (auto simp: PLOG_def split: prod.splits)

lemma run_calls_write_call: "run_calls (write_call d bs) f = WriteFully_or d bs f"
  by (auto simp: write_call_def WriteFully_or_def PLOG_def WriteFully_def split: prod.splits)

lemma run_calls_pos:
  "fst (run_calls cs f) \<Longrightarrow> pos (snd (run_calls cs f)) = pos f + length (calls_image cs)"
proof (induction cs arbitrary: f)
  case Nil show ?case by simp
next
  case (Cons c cs)
  obtain ok f1 where p: "perform c f = (ok, f1)" by (cases "perform c f")
  have ok: ok using Cons.prems p by (cases ok) simp_all
  have "pos f1 = pos f + length (call_image c)"
    using p ok by (cases c) (auto simp: WriteFully_def lseek_cur_def split: if_splits)
  then show ?case using Cons.IH [of f1] Cons.prems p ok by simp
qed

text \<open>The tables.\<close>

lemma OatDexFile_Write_calls: "OatDexFile_Write d f = run_calls (OatDexFile_calls d) f"
  by (auto simp: OatDexFile_Write_def OatDexFile_calls_def run_calls_append run_calls_write_call
      split: prod.splits)

lemma OatClasses_Write_calls: "OatClasses_Write x f = run_calls (OatClasses_calls x) f"
  by (simp add: OatClasses_Write_def OatClasses_calls_def run_calls_write_call)

lemma OatMethods_Write_calls: "OatMethods_Write x f = run_calls (OatMethods_calls x) f"
  by (simp add: OatMethods_Write_def OatMethods_calls_def run_calls_write_call)

lemma WriteTables_loop_calls:
  assumes "\<And>x f. wr x f = run_calls (cl x) f"
  shows "WriteTables_loop wr d xs f = run_calls (map (within d) (concat (map cl xs))) f"
proof (induction xs arbitrary: f)
  case Nil show ?case by simp
next
  case (Cons x xs)
  show ?case
    by (auto simp: run_calls_append run_calls_within assms [symmetric] Cons.IH
        split: prod.splits)
qed

lemma WriteTables_calls_run: "WriteTables w f = run_calls (WriteTables_calls w) f"
  by (auto simp: WriteTables_def WriteTables_calls_def run_calls_append
      WriteTables_loop_calls [of OatDexFile_Write OatDexFile_calls, OF OatDexFile_Write_calls]
      WriteTables_loop_calls [of OatClasses_Write OatClasses_calls, OF OatClasses_Write_calls]
      WriteTables_loop_calls [of OatMethods_Write OatMethods_calls, OF OatMethods_Write_calls]
      split: prod.splits)


text \<open>The blocks of a method.\<close>

lemma emitted_Nil [simp]: "emitted ([], c) f = (Some c, f)"
  by (simp add: emitted_def)

lemma advances_Nil [simp]: "advances c ([], c)"
  by (simp add: advances_def)

lemma and_then_Some [simp]: "and_then (Some c, f) k = k c f"
  by (simp add: and_then_def)

lemma and_then_emitted:
  assumes "r = emitted a f" and "pos f = c" and "advances c a"
    and "\<And>g. pos g = snd a \<Longrightarrow> k (snd a) g = emitted (k' (snd a)) g"
  shows "and_then r k = emitted (then_calls a k') f"
proof -
  obtain ok g where r: "run_calls (fst a) f = (ok, g)" by (cases "run_calls (fst a) f")
  obtain cs1 c1 where k: "k' (snd a) = (cs1, c1)" by (cases "k' (snd a)")
  have t: "then_calls a k' = (fst a @ cs1, c1)"
    using k by (cases a) (simp add: then_calls_def)
  show ?thesis
  proof (cases ok)
    case False
    then show ?thesis
      using assms(1) r by (simp add: emitted_def and_then_def t run_calls_append)
  next
    case True
    have "pos g = snd a"
      using run_calls_pos [of "fst a" f] r True assms(2,3) by (simp add: advances_def)
    then have "k (snd a) g = emitted (cs1, c1) g" using assms(4) k by simp
    then show ?thesis
      using assms(1) r True
      by (cases "run_calls cs1 g") (simp add: emitted_def and_then_def t run_calls_append)
  qed
qed

lemma then_calls_advances:
  assumes "advances c a" and "advances (snd a) (k (snd a))"
  shows "advances c (then_calls a k)"
  using assms by (cases a; cases "k (snd a)") (simp add: advances_def then_calls_def)

lemma then_calls_real:
  assumes "list_all real_call (fst a)" and "list_all real_call (fst (k (snd a)))"
  shows "list_all real_call (fst (then_calls a k))"
  using assms by (cases a; cases "k (snd a)") (simp add: then_calls_def)

lemma align_calls_advances [simp]: "advances c (align_calls a d c)"
  by (simp add: advances_def align_calls_def Let_def)

lemma align_calls_real [simp]: "list_all real_call (fst (align_calls a d c))"
  by (simp add: align_calls_def Let_def)

lemma dedup_calls_advances [simp]: "advances c (dedup_calls iter offset stored bs d c)"
  by (simp add: advances_def dedup_calls_def)

lemma dedup_calls_real [simp]: "list_all real_call (fst (dedup_calls iter offset stored bs d c))"
  by (simp add: dedup_calls_def)

lemma align_emitted:
  assumes "pos f = c"
  shows "WriteCodeMethod_align (2 ^ k) d c f = emitted (align_calls (2 ^ k) d c) f"
proof (cases "(of_nat (RoundUp c (2 ^ k)) :: u32) - of_nat c = 0")
  case True
  then show ?thesis by (simp add: WriteCodeMethod_align_def align_calls_def Let_def)
next
  case False
  let ?a = "of_nat (RoundUp c (2 ^ k)) :: u32"
  let ?n = "unat (?a - of_nat c)"
  have n: "?n \<noteq> 0" using False by (simp add: unat_eq_0)
  have ne: "?a \<noteq> of_nat c" using False by simp
  show ?thesis
  proof (cases "next_call_fails f")
    case True
    have "(word_of_int (- 1) :: u32) \<noteq> ?a"
      using RoundUp_pow2_not_minus1 [OF ne] by simp
    then show ?thesis
      using True False n
      by (simp add: WriteCodeMethod_align_def align_calls_def Let_def emitted_def lseek_cur_def
          PLOG_def)
  next
    case nf: False
    have w: "(word_of_int (int (c + ?n)) :: u32) = ?a" by simp
    have i: "int (c + ?n) \<noteq> - 1" by linarith
    obtain g where l: "lseek_cur ?n f = (int (c + ?n), g)"
      using nf assms by (simp add: lseek_cur_def)
    have 1: "WriteCodeMethod_align (2 ^ k) d c f = (Some (c + ?n), g)"
      unfolding WriteCodeMethod_align_def Let_def using False l w by simp
    have 2: "emitted (align_calls (2 ^ k) d c) f = (Some (c + ?n), g)"
      unfolding align_calls_def Let_def emitted_def using n l i by simp
    show ?thesis unfolding 1 2 ..
  qed
qed

lemma dedup_emitted:
  "WriteCodeMethod_dedup iter offset stored bs d c f
     = emitted (dedup_calls iter offset stored bs d c) f"
  by (auto simp: WriteCodeMethod_dedup_def dedup_calls_def emitted_def run_calls_write_call
      WriteFully_or_def split: prod.splits)

lemma code_emitted:
  assumes "pos f = c" and "code_alignment cm = 2 ^ k"
  shows "WriteCodeMethod_code env w cm mo idx c f = emitted (code_calls env w cm mo idx c) f"
  unfolding WriteCodeMethod_code_def code_calls_def assms(2)
  by (rule and_then_emitted [OF align_emitted [OF assms(1)] assms(1) align_calls_advances])
     (rule dedup_emitted)

lemma code_calls_advances [simp]: "advances c (code_calls env w cm mo idx c)"
  unfolding code_calls_def by (rule then_calls_advances) simp_all

lemma code_calls_real [simp]: "list_all real_call (fst (code_calls env w cm mo idx c))"
  unfolding code_calls_def by (rule then_calls_real) simp_all

lemma frame_emitted:
  "WriteCodeMethod_frame a b c idx code_offset f = emitted (frame_calls a b c idx code_offset) f"
  by (auto simp: WriteCodeMethod_frame_def frame_calls_def emitted_def run_calls_append
      run_calls_write_call split: prod.splits)

lemma frame_calls_advances [simp]: "advances code_offset (frame_calls a b c idx code_offset)"
  by (simp add: advances_def frame_calls_def length_le32)

lemma frame_calls_real [simp]: "list_all real_call (fst (frame_calls a b c idx code_offset))"
  by (simp add: frame_calls_def)

lemma mapping_table_emitted:
  "WriteCodeMethod_mapping_table env w cm mo idx c f
     = emitted (mapping_table_calls env w cm mo idx c) f"
  by (simp add: WriteCodeMethod_mapping_table_def mapping_table_calls_def dedup_emitted)

lemma vmap_table_emitted:
  "WriteCodeMethod_vmap_table env w cm mo idx c f
     = emitted (vmap_table_calls env w cm mo idx c) f"
  by (simp add: WriteCodeMethod_vmap_table_def vmap_table_calls_def dedup_emitted)

lemma table_calls_advances [simp]:
  "advances c (mapping_table_calls env w cm mo idx c)"
  "advances c (vmap_table_calls env w cm mo idx c)"
  by (simp_all add: mapping_table_calls_def vmap_table_calls_def)

lemma table_calls_real [simp]:
  "list_all real_call (fst (mapping_table_calls env w cm mo idx c))"
  "list_all real_call (fst (vmap_table_calls env w cm mo idx c))"
  by (simp_all add: mapping_table_calls_def vmap_table_calls_def)

lemma stub_emitted:
  assumes "pos f = c" and "arch_alignment env = 2 ^ k"
  shows "WriteCodeMethod_stub env w is_static idx d mo c f
           = emitted (stub_calls env w is_static idx d mo c) f"
proof (cases "FindInvokeStub env is_static (GetMethodShorty d idx)")
  case None
  then show ?thesis by (simp add: WriteCodeMethod_stub_def stub_calls_def)
next
  case (Some stub)
  show ?thesis
    unfolding WriteCodeMethod_stub_def stub_calls_def Some option.case
      WriteCodeMethod_invoke_stub_def assms(2)
    by (rule and_then_emitted [OF align_emitted [OF assms(1)] assms(1) align_calls_advances])
       (rule dedup_emitted)
qed

lemma stub_calls_advances [simp]: "advances c (stub_calls env w is_static idx d mo c)"
proof (cases "FindInvokeStub env is_static (GetMethodShorty d idx)")
  case None
  then show ?thesis by (simp add: stub_calls_def)
next
  case (Some stub)
  show ?thesis
    unfolding stub_calls_def Some option.case by (rule then_calls_advances) simp_all
qed

lemma stub_calls_real [simp]: "list_all real_call (fst (stub_calls env w is_static idx d mo c))"
proof (cases "FindInvokeStub env is_static (GetMethodShorty d idx)")
  case None
  then show ?thesis by (simp add: stub_calls_def)
next
  case (Some stub)
  show ?thesis
    unfolding stub_calls_def Some option.case by (rule then_calls_real) simp_all
qed

lemma method_calls_advances [simp]:
  "advances c (method_calls env w c oci cdmi is_static idx d)"
proof (cases "GetCompiledMethod env d idx")
  case None
  show ?thesis
    unfolding method_calls_def Let_def None option.case
    by (intro then_calls_advances) simp_all
next
  case (Some cm)
  show ?thesis
    unfolding method_calls_def Let_def Some option.case
    by (intro then_calls_advances) simp_all
qed

lemma method_calls_real [simp]:
  "list_all real_call (fst (method_calls env w c oci cdmi is_static idx d))"
proof (cases "GetCompiledMethod env d idx")
  case None
  show ?thesis
    unfolding method_calls_def Let_def None option.case
    by (intro then_calls_real) simp_all
next
  case (Some cm)
  show ?thesis
    unfolding method_calls_def Let_def Some option.case
    by (intro then_calls_real) simp_all
qed

lemma method_emitted:
  assumes pow2: "pow2_alignments env" and p: "pos f = c"
  shows "WriteCodeMethod_blocks env w c oci cdmi is_static idx d f
           = emitted (method_calls env w c oci cdmi is_static idx d) f"
proof -
  obtain k where arch: "arch_alignment env = 2 ^ k"
    using pow2 by (auto simp: pow2_alignments_def)
  let ?mo = "oat_methods' w ! oci ! cdmi"
  show ?thesis
  proof (cases "GetCompiledMethod env d idx")
    case None
    show ?thesis
      unfolding WriteCodeMethod_blocks_def method_calls_def Let_def None option.case
        and_then_Some
      by (rule and_then_emitted [OF frame_emitted p frame_calls_advances])
         (rule stub_emitted [OF _ arch])
  next
    case (Some cm)
    obtain j where al: "code_alignment cm = 2 ^ j"
      using pow2_code_alignment [OF pow2 Some] by blast
    show ?thesis
      unfolding WriteCodeMethod_blocks_def method_calls_def Let_def Some option.case
    proof (rule and_then_emitted [OF code_emitted [OF p al] p code_calls_advances])
      fix g1 :: File
      let ?c1 = "snd (code_calls env w cm ?mo idx c)"
      assume p1: "pos g1 = ?c1"
      show "and_then
              (WriteCodeMethod_frame (GetFrameSizeInBytes cm) (GetCoreSpillMask cm)
                 (GetFpSpillMask cm) idx ?c1 g1)
              (\<lambda>code_offset2 f2. and_then
                 (WriteCodeMethod_mapping_table env w cm ?mo idx code_offset2 f2)
              (\<lambda>code_offset3 f3. and_then
                 (WriteCodeMethod_vmap_table env w cm ?mo idx code_offset3 f3)
              (\<lambda>code_offset4 f4.
                 WriteCodeMethod_stub env w is_static idx d ?mo code_offset4 f4)))
            = emitted
                (then_calls
                   (frame_calls (GetFrameSizeInBytes cm) (GetCoreSpillMask cm)
                      (GetFpSpillMask cm) idx ?c1)
                   (\<lambda>code_offset2.
                      then_calls (mapping_table_calls env w cm ?mo idx code_offset2)
                        (\<lambda>code_offset3.
                           then_calls (vmap_table_calls env w cm ?mo idx code_offset3)
                             (stub_calls env w is_static idx d ?mo)))) g1"
      proof (rule and_then_emitted [OF frame_emitted p1 frame_calls_advances])
        fix g2 :: File
        let ?c2 = "snd (frame_calls (GetFrameSizeInBytes cm) (GetCoreSpillMask cm)
                      (GetFpSpillMask cm) idx ?c1)"
        assume p2: "pos g2 = ?c2"
        show "and_then (WriteCodeMethod_mapping_table env w cm ?mo idx ?c2 g2)
                (\<lambda>code_offset3 f3. and_then
                   (WriteCodeMethod_vmap_table env w cm ?mo idx code_offset3 f3)
                (\<lambda>code_offset4 f4.
                   WriteCodeMethod_stub env w is_static idx d ?mo code_offset4 f4))
              = emitted
                  (then_calls (mapping_table_calls env w cm ?mo idx ?c2)
                     (\<lambda>code_offset3.
                        then_calls (vmap_table_calls env w cm ?mo idx code_offset3)
                          (stub_calls env w is_static idx d ?mo))) g2"
        proof (rule and_then_emitted [OF mapping_table_emitted p2 table_calls_advances(1)])
          fix g3 :: File
          let ?c3 = "snd (mapping_table_calls env w cm ?mo idx ?c2)"
          assume p3: "pos g3 = ?c3"
          show "and_then (WriteCodeMethod_vmap_table env w cm ?mo idx ?c3 g3)
                  (\<lambda>code_offset4 f4.
                     WriteCodeMethod_stub env w is_static idx d ?mo code_offset4 f4)
                = emitted
                    (then_calls (vmap_table_calls env w cm ?mo idx ?c3)
                       (stub_calls env w is_static idx d ?mo)) g3"
            by (rule and_then_emitted [OF vmap_table_emitted p3 table_calls_advances(2)])
               (rule stub_emitted [OF _ arch])
        qed
      qed
    qed
  qed
qed


text \<open>The methods of the walk, and the whole file.\<close>

lemma items_calls_real: "list_all real_call (items_calls env w c items)"
proof (induction items arbitrary: c)
  case Nil show ?case by simp
next
  case (Cons x xs)
  show ?case
  proof (cases x)
    case (Method oci cdmi is_static is_direct idx d)
    obtain cs c1 where m: "method_calls env w c oci cdmi is_static idx d = (cs, c1)"
      by (cases "method_calls env w c oci cdmi is_static idx d")
    have "list_all real_call cs"
      using method_calls_real [of env w c oci cdmi is_static idx d] m by simp
    then show ?thesis using Cons.IH [of c1] by (simp add: Method m)
  next
    case (ClassEnd oci)
    then show ?thesis using Cons.IH [of c] by simp
  qed
qed

lemma calls_image_WriteTables_calls:
  "calls_image (WriteTables_calls w) =
     concat (map OatDexFile_bytes (oat_dex_files' w)) @
     concat (map OatClasses_bytes (oat_classes' w)) @
     concat (map OatMethods_bytes (oat_methods' w))"
proof -
  have 1: "calls_image (OatDexFile_calls d) = OatDexFile_bytes d" for d
    by (simp add: OatDexFile_calls_def OatDexFile_bytes_def)
  have 2: "calls_image (OatClasses_calls x) = OatClasses_bytes x" for x
    by (simp add: OatClasses_calls_def)
  have 3: "calls_image (OatMethods_calls x) = OatMethods_bytes x" for x
    by (simp add: OatMethods_calls_def)
  show ?thesis
    unfolding WriteTables_calls_def calls_image_append calls_image_within calls_image_concat
      1 2 3 ..
qed

lemma emit_run_calls:
  assumes pow2: "pow2_alignments env"
  shows "c \<noteq> 0 \<Longrightarrow> pos f = c \<Longrightarrow>
         emit_run env w (c, f) items =
           (case run_calls (items_calls env w c items) f of
              (ok, g) \<Rightarrow> (if ok then c + length (calls_image (items_calls env w c items)) else 0, g))"
proof (induction items arbitrary: c f)
  case Nil show ?case by simp
next
  case (Cons x xs)
  show ?case
  proof (cases x)
    case (ClassEnd oci)
    then show ?thesis
      using Cons.IH [OF Cons.prems] by (cases "run_calls (items_calls env w c xs) f") simp
  next
    case (Method oci cdmi is_static is_direct idx d)
    obtain cs c1 where m: "method_calls env w c oci cdmi is_static idx d = (cs, c1)"
      by (cases "method_calls env w c oci cdmi is_static idx d")
    have c1: "c1 = c + length (calls_image cs)"
      using method_calls_advances [of c env w oci cdmi is_static idx d] m
      by (simp add: advances_def)
    obtain ok g where r: "run_calls cs f = (ok, g)" by (cases "run_calls cs f")
    have b: "WriteCodeMethod_blocks env w c oci cdmi is_static idx d f
               = (if ok then Some c1 else None, g)"
      using method_emitted [OF pow2 Cons.prems(2), of w oci cdmi is_static idx d] m r
      by (simp add: emitted_def)
    show ?thesis
    proof (cases ok)
      case False
      then show ?thesis
        using Cons.prems(1) b r by (simp add: Method m WriteCodeMethod_def run_calls_append)
    next
      case True
      have p1: "pos g = c1"
        using run_calls_pos [of cs f] r True Cons.prems(2) c1 by simp
      have n1: "c1 \<noteq> 0" using c1 Cons.prems(1) by simp
      show ?thesis
        using Cons.prems(1) b r True Cons.IH [OF n1 p1] c1
        by (cases "run_calls (items_calls env w c1 xs) g")
           (simp add: Method m WriteCodeMethod_def run_calls_append)
    qed
  qed
qed

lemma Write_calls_run:
  assumes pow2: "pow2_alignments env"
    and e1: "executable_offset' (oat_header' w) \<noteq> - 1"
    and e: "pos f + length (tables_image w) + executable_offset_padding_length' w
              = unat (executable_offset' (oat_header' w))"
  shows "Write env ds w f = run_calls (Write_calls env ds w) f"
proof -
  let ?hd = "write_call (Error ''Failed to write oat header'') (OatHeader_bytes (oat_header' w))"
  let ?tb = "map (within (Error ''Failed to write oat tables'')) (WriteTables_calls w)"
  let ?sk = "SeekCall (executable_offset_padding_length' w)
               [Error ''Failed to seek to oat code section'', Error ''Failed to write oat code'']"
  let ?c = "unat (executable_offset' (oat_header' w))"
  let ?it = "map (within (Error ''Failed to write oat code for dex files''))
               (items_calls env w ?c (all_items ds 0))"
  have wc: "Write_calls env ds w = ?hd @ ?tb @ ?sk # ?it" by (simp add: Write_calls_def)
  have im: "calls_image (?hd @ ?tb) = tables_image w"
    by (simp add: tables_image_def calls_image_WriteTables_calls)
  obtain ok0 f0 where r0: "run_calls ?hd f = (ok0, f0)" by (cases "run_calls ?hd f")
  have h0: "WriteFully_or (Error ''Failed to write oat header'') (OatHeader_bytes (oat_header' w)) f
              = (ok0, f0)"
    using r0 by (simp add: run_calls_write_call)
  show ?thesis
  proof (cases ok0)
    case False
    then show ?thesis using r0 h0 by (simp add: Write_def wc run_calls_append)
  next
    case t0: True
    obtain ok1 f1 where r1: "run_calls (WriteTables_calls w) f0 = (ok1, f1)"
      by (cases "run_calls (WriteTables_calls w) f0")
    have h1: "WriteTables w f0 = (ok1, f1)" using r1 by (simp add: WriteTables_calls_run)
    show ?thesis
    proof (cases ok1)
      case False
      then show ?thesis
        using r0 h0 t0 r1 h1 by (simp add: Write_def wc run_calls_append run_calls_within)
    next
      case t1: True
      have rt: "run_calls (?hd @ ?tb) f = (True, f1)"
        using r0 t0 r1 t1 by (simp add: run_calls_append run_calls_within)
      have p1: "pos f1 = pos f + length (tables_image w)"
        using run_calls_pos [of "?hd @ ?tb" f] rt unfolding im by simp
      show ?thesis
      proof (cases "next_call_fails f1")
        case True
        have "(word_of_int (- 1) :: u32) \<noteq> executable_offset' (oat_header' w)"
          using e1 by simp
        then show ?thesis
          using True r0 h0 t0 r1 h1 t1
          by (simp add: Write_def wc run_calls_append run_calls_within WriteCode_def Let_def
              lseek_cur_def PLOG_def)
      next
        case nf: False
        let ?n = "executable_offset_padding_length' w"
        obtain f2 where l: "lseek_cur ?n f1 = (int (pos f1 + ?n), f2)" and p2: "pos f2 = pos f1 + ?n"
          using nf by (simp add: lseek_cur_def)
        have pe: "pos f1 + ?n = ?c" using p1 e by simp
        have w2: "(word_of_int (int (pos f1 + ?n)) :: u32) = executable_offset' (oat_header' w)"
          unfolding pe by simp
        have i: "int (pos f1 + ?n) \<noteq> - 1" by linarith
        have "0 < length (tables_image w)"
          using sizeof_OatHeader_pos [of "oat_header' w"]
          by (simp add: tables_image_def sizeof_OatHeader_def)
        then have c0: "?c \<noteq> 0" using e by linarith
        have wcode: "WriteCode w f1 = (?c, f2)"
          unfolding WriteCode_def Let_def using l w2 by simp
        have psk: "perform ?sk f1 = (True, f2)" using l i by simp
        have p2c: "pos f2 = ?c" using p2 pe by simp
        note er = emit_run_calls [OF pow2 c0 p2c, of w "all_items ds 0"]
        obtain ok3 f3 where r3: "run_calls (items_calls env w ?c (all_items ds 0)) f2 = (ok3, f3)"
          by (cases "run_calls (items_calls env w ?c (all_items ds 0)) f2")
        have h3: "WriteCodeDexFiles env w ds 0 ?c f2
                    = (if ok3 then ?c + length (calls_image (items_calls env w ?c (all_items ds 0)))
                       else 0, f3)"
          using er r3 by (simp add: WriteCodeDexFiles_run [OF c0])
        have lhs: "Write env ds w f
                     = (if ok3 then (True, f3)
                        else (False, PLOG (Error ''Failed to write oat code for dex files'') f3))"
          using h0 t0 h1 t1 wcode c0 h3 by (simp add: Write_def)
        have rhs: "run_calls (Write_calls env ds w) f
                     = (if ok3 then (True, f3)
                        else (False, PLOG (Error ''Failed to write oat code for dex files'') f3))"
          unfolding wc using r0 t0 r1 t1 psk r3
          by (simp add: run_calls_append run_calls_within del: perform.simps)
        show ?thesis unfolding lhs rhs ..
      qed
    qed
  qed
qed


lemma Write_calls_real: "list_all real_call (Write_calls env ds w)"
proof -
  have 1: "list_all real_call (concat (map cl xs))"
    if "\<And>x. list_all real_call (cl x)" for cl :: "'a \<Rightarrow> call list" and xs
    using that by (induction xs) simp_all
  have 2: "list_all real_call (map (within d) cs) = list_all real_call cs" for d cs
    by (induction cs) simp_all
  have "list_all real_call (WriteTables_calls w)"
    unfolding WriteTables_calls_def list_all_append 2
    by (intro conjI 1) (simp_all add: OatDexFile_calls_def OatClasses_calls_def
        OatMethods_calls_def)
  then show ?thesis
    by (simp add: Write_calls_def 2 items_calls_real)
qed

text \<open>The calls on a file: up to the first failure, and where no call fails.\<close>

lemma perform_succeeds:
  assumes "file_ok f" and "\<not> next_call_fails f"
  shows "\<exists>g. perform c f = (True, g) \<and> log g = log f \<and>
             padded g = padded f @ call_image c \<and> pos g = pos f + length (call_image c) \<and>
             file_ok g \<and> set (io_results g) \<subseteq> set (io_results f) \<and>
             (real_call c \<longrightarrow> io_results g = tl (io_results f))"
proof (cases c)
  case (SeekCall n ds)
  have tl: "set (tl (io_results f)) \<subseteq> set (io_results f)"
    by (cases "io_results f") auto
  have "pos f + n - length (contents f) = (pos f - length (contents f)) + n"
    using assms(1) by (simp add: file_ok_def)
  then have "replicate (pos f + n - length (contents f)) (0 :: byte)
             = replicate (pos f - length (contents f)) 0 @ replicate n 0"
    by (simp add: replicate_add)
  then show ?thesis
    using assms tl
    by (auto simp: SeekCall lseek_cur_def padded_def file_ok_def)
next
  case (WriteCall bs ds)
  have tl: "set (tl (io_results f)) \<subseteq> set (io_results f)"
    by (cases "io_results f") auto
  show ?thesis
    using assms tl
    by (auto simp: WriteCall WriteFully_def padded_def file_ok_def)
qed

lemma perform_fails:
  assumes "io_results f = False # rest" and "real_call c"
  shows "perform c f = (False, f\<lparr>io_results := rest\<rparr>)"
  using assms by (cases c) (simp_all add: WriteFully_def lseek_cur_def next_call_fails_def)

lemma run_calls_failure:
  assumes "list_all real_call cs"
  shows "file_ok f \<Longrightarrow> io_results f = used @ False # rest \<Longrightarrow> False \<notin> set used \<Longrightarrow>
         length used < length cs \<Longrightarrow>
         \<exists>g. run_calls cs f = (False, g) \<and> io_results g = rest \<and>
             log g = log f @ call_log (cs ! length used) \<and>
             padded g = padded f @ calls_image (take (length used) cs) \<and>
             pos g = pos f + length (calls_image (take (length used) cs))"
  using assms
proof (induction cs arbitrary: f used)
  case Nil
  then show ?case by simp
next
  case (Cons c cs)
  show ?case
  proof (cases used)
    case Nil
    have io: "io_results f = False # rest" using Cons.prems(2) Nil by simp
    have r: "real_call c" using Cons.prems(5) by simp
    show ?thesis
      unfolding run_calls.simps perform_fails [OF io r] using Nil
      by (simp add: padded_def)
  next
    case (Cons b u)
    have b: "b = True" using Cons.prems(3) Cons by (cases b) simp_all
    have io: "io_results f = True # u @ False # rest" using Cons.prems(2) Cons b by simp
    have nf: "\<not> next_call_fails f" using io by (simp add: next_call_fails_def)
    have r: "real_call c" using Cons.prems(5) by simp
    obtain g1 where g1: "perform c f = (True, g1) \<and> log g1 = log f \<and>
        padded g1 = padded f @ call_image c \<and> pos g1 = pos f + length (call_image c) \<and>
        file_ok g1 \<and> set (io_results g1) \<subseteq> set (io_results f) \<and>
        (real_call c \<longrightarrow> io_results g1 = tl (io_results f))"
      using perform_succeeds [OF Cons.prems(1) nf, of c] ..
    have 1: "file_ok g1" "io_results g1 = u @ False # rest" using g1 r io by simp_all
    have 2: "False \<notin> set u" using Cons.prems(3) Cons by simp
    have 3: "length u < length cs" using Cons.prems(4) Cons by simp
    have 4: "list_all real_call cs" using Cons.prems(5) by simp
    obtain g where g: "run_calls cs g1 = (False, g) \<and> io_results g = rest \<and>
        log g = log g1 @ call_log (cs ! length u) \<and>
        padded g = padded g1 @ calls_image (take (length u) cs) \<and>
        pos g = pos g1 + length (calls_image (take (length u) cs))"
      using Cons.IH [OF 1 2 3 4] ..
    show ?thesis
      using g1 g Cons by (simp del: perform.simps)
  qed
qed

lemma run_calls_success:
  "file_ok f \<Longrightarrow> no_failures f \<Longrightarrow>
   \<exists>g. run_calls cs f = (True, g) \<and> log g = log f \<and> padded g = padded f @ calls_image cs"
proof (induction cs arbitrary: f)
  case Nil
  then show ?case by simp
next
  case (Cons c cs)
  have nf: "\<not> next_call_fails f"
    using Cons.prems(2) by (cases "io_results f") (auto simp: next_call_fails_def no_failures_def)
  obtain g1 where g1: "perform c f = (True, g1) \<and> log g1 = log f \<and>
      padded g1 = padded f @ call_image c \<and> pos g1 = pos f + length (call_image c) \<and>
      file_ok g1 \<and> set (io_results g1) \<subseteq> set (io_results f) \<and>
      (real_call c \<longrightarrow> io_results g1 = tl (io_results f))"
    using perform_succeeds [OF Cons.prems(1) nf, of c] ..
  have 1: "file_ok g1" "no_failures g1" using g1 Cons.prems(2) by (auto simp: no_failures_def)
  obtain g where g: "run_calls cs g1 = (True, g) \<and> log g = log g1 \<and>
      padded g = padded g1 @ calls_image cs"
    using Cons.IH [OF 1] ..
  show ?case using g1 g by (simp del: perform.simps)
qed

lemma pow2_alignments_positive: "pow2_alignments env \<Longrightarrow> alignments_positive env"
proof -
  assume p: "pow2_alignments env"
  have z: "(0 :: nat) < 2 ^ k" for k by simp
  have 1: "0 < kPageSize env" "0 < arch_alignment env"
    using p z unfolding pow2_alignments_def by (metis, metis)
  have 2: "0 < code_alignment cm" if "GetCompiledMethod env d idx = Some cm" for d idx cm
    using pow2_code_alignment [OF p that] z by metis
  show ?thesis unfolding alignments_positive_def using 1 2 by blast
qed

lemma Create_calls:
  assumes pow2: "pow2_alignments env" and fits: "fst (OatWriter_new env ds) < 2 ^ 32"
    and p: "pos f = 0"
  shows "Create env ds f = run_calls (Write_calls env ds (snd (OatWriter_new env ds))) f"
proof -
  let ?wl = "snd (OatWriter_new env ds)"
  have al: "alignments_positive env" using pow2 by (rule pow2_alignments_positive)
  have page: "0 < kPageSize env" using al by (simp add: alignments_positive_def)
  obtain o3 w3 where t: "InitOatTables env ds = (o3, w3)" by (cases "InitOatTables env ds")
  let ?e = "RoundUp o3 (kPageSize env)"
  note hd = OatWriter_new_header [OF t]
  have cs: "fst (code_start env ds) = ?e"
    by (simp add: code_start_def t InitOatCode_def Let_def)
  have run: "OatWriter_new env ds = layout_run env (code_start env ds) (all_items ds 0)"
    by (rule OatWriter_new_run)
  have ge: "o3 \<le> ?e" using page by (rule RoundUp_ge)
  have et: "?e \<le> fst (OatWriter_new env ds)"
    unfolding run using layout_run_mono [OF al, of "code_start env ds" "all_items ds 0"] cs
    by simp
  then have efits: "?e < 2 ^ 32" using fits by simp
  have l: "length (tables_image ?wl) = o3" using length_tables_image [of env ds] hd by simp
  have e: "pos f + length (tables_image ?wl) + executable_offset_padding_length' ?wl
             = unat (executable_offset' (oat_header' ?wl))"
    using hd ge efits p l by (simp add: unat_of_nat_u32)
  show ?thesis
    unfolding Create_def
    by (rule Write_calls_run [OF pow2 pow2_executable_offset [OF pow2] e])
qed

lemma calls_image_file_image:
  assumes pow2: "pow2_alignments env" and td: "thumb_deltas env"
    and fits: "fst (OatWriter_new env ds) < 2 ^ 32"
  shows "calls_image (Write_calls env ds (snd (OatWriter_new env ds))) = file_image env ds"
proof -
  let ?wl = "snd (OatWriter_new env ds)"
  have al: "alignments_positive env" using pow2 by (rule pow2_alignments_positive)
  obtain g where g: "Write env ds ?wl ex_file = (True, g) \<and>
      synced (fst (OatWriter_new env ds)) g \<and> log g = log ex_file \<and>
      padded g = file_image env ds \<and> has_bytes g 0 (OatHeader_bytes (oat_header' ?wl))"
    using Write_sync [OF al td fits synced_ex_file] ..
  have ok: "file_ok ex_file" "no_failures ex_file" "pos ex_file = 0" "padded ex_file = []"
    by (simp_all add: ex_file_def file_ok_def no_failures_def padded_def)
  obtain h where h: "run_calls (Write_calls env ds ?wl) ex_file = (True, h) \<and>
      log h = log ex_file \<and> padded h = padded ex_file @ calls_image (Write_calls env ds ?wl)"
    using run_calls_success [OF ok(1,2)] ..
  have "Write env ds ?wl ex_file = run_calls (Write_calls env ds ?wl) ex_file"
    using Create_calls [OF pow2 fits ok(3)] by (simp add: Create_def)
  then have "g = h" using g h by simp
  then show ?thesis using g h ok(4) by simp
qed


text \<open>
  Claim C8. Where the alignments are powers of two and the layout fits 32 bits: let the
  writer run on a fresh file on which the system call number \<open>length used\<close> (counted from 0)
  is the first that fails, and let this be one of the calls of the emit pass. Then \<^verbatim>\<open>Write\<close>
  gives \<^verbatim>\<open>false\<close>; the failing call is the last call that the writer makes (the
  outcomes \<open>rest\<close> after it are not consumed); the file holds the records of the calls
  before the failing one, and nothing else; and the log has gained exactly the lines of the
  failing call: the diagnostic that names its record, then the messages of the enclosing
  functions. The calls are those of the format of the file: their bytes are the image of
  the file that the layout has laid out.
\<close>

theorem write_failure_is_final:
  assumes pow2: "pow2_alignments env" and td: "thumb_deltas env"
    and fits: "fst (OatWriter_new env dex_files) < 2 ^ 32"
    and fresh: "contents f = []" "pos f = 0"
    and calls: "calls = Write_calls env dex_files (snd (OatWriter_new env dex_files))"
    and io: "io_results f = used @ False # rest" and used: "False \<notin> set used"
    and k: "length used < length calls"
  shows "\<exists>g. Create env dex_files f = (False, g) \<and>
             io_results g = rest \<and>
             padded g = calls_image (take (length used) calls) \<and>
             pos g = length (calls_image (take (length used) calls)) \<and>
             log g = log f @ call_log (calls ! length used) \<and>
             strict_prefix (log f) (log g) \<and>
             calls_image calls = file_image env dex_files"
proof -
  let ?wl = "snd (OatWriter_new env dex_files)"
  have ok: "file_ok f" and pd: "padded f = []" using fresh by (simp_all add: file_ok_def padded_def)
  have real: "list_all real_call calls" unfolding calls by (rule Write_calls_real)
  obtain g where g: "run_calls calls f = (False, g) \<and> io_results g = rest \<and>
      log g = log f @ call_log (calls ! length used) \<and>
      padded g = padded f @ calls_image (take (length used) calls) \<and>
      pos g = pos f + length (calls_image (take (length used) calls))"
    using run_calls_failure [OF real ok io used k] ..
  have c: "Create env dex_files f = (False, g)"
    using Create_calls [OF pow2 fits fresh(2)] g calls by simp
  have e: "emit_result f False g"
    using Write_result [OF pow2 pow2_executable_offset [OF pow2], of f dex_files dex_files] c
    by (simp add: Create_def)
  have "\<not> io_ok f g"
    using io_ok_no_failure [of f g "used @ [False]"] io g by auto
  then have "log g \<noteq> log f" "prefix (log f) (log g)"
    using e by (auto simp: emit_result_def)
  then have sp: "strict_prefix (log f) (log g)" by (auto simp: strict_prefix_def)
  have im: "calls_image calls = file_image env dex_files"
    unfolding calls by (rule calls_image_file_image [OF pow2 td fits])
  show ?thesis
    using c g sp im pd fresh(2) by (intro exI [of _ g]) simp
qed


lemma ex_calls:
  "Write_calls ex_env [ex_dex] (snd (OatWriter_new ex_env [ex_dex])) =
     [WriteCall [111, 97, 116, 10, 48, 48, 49, 0, 215, 7, 0, 0, 0, 16, 0, 0]
        [Error ''Failed to write oat header''],
      WriteCall [1, 0, 0, 0]
        [Error ''Failed to write dex file location length'',
         Error ''Failed to write oat dex information'', Error ''Failed to write oat tables''],
      WriteCall [97]
        [Error ''Failed to write dex file location data'',
         Error ''Failed to write oat dex information'', Error ''Failed to write oat tables''],
      WriteCall [5, 0, 0, 0]
        [Error ''Failed to write dex file checksum'',
         Error ''Failed to write oat dex information'', Error ''Failed to write oat tables''],
      WriteCall [29, 0, 0, 0]
        [Error ''Failed to write classes offset'',
         Error ''Failed to write oat dex information'', Error ''Failed to write oat tables''],
      WriteCall [37, 0, 0, 0, 149, 0, 0, 0]
        [Error ''Failed to write methods offsets'',
         Error ''Failed to write oat classes information'', Error ''Failed to write oat tables''],
      WriteCall
        [1, 16, 0, 0, 32, 0, 0, 0, 224, 77, 0, 0, 0, 0, 0, 0, 18, 16, 0, 0, 22, 16, 0, 0,
         32, 16, 0, 0,
         1, 16, 0, 0, 32, 0, 0, 0, 224, 77, 0, 0, 0, 0, 0, 0, 18, 16, 0, 0, 22, 16, 0, 0,
         0, 0, 0, 0,
         0, 0, 0, 0, 16, 0, 0, 0, 0, 0, 0, 0, 0, 0, 0, 0, 0, 0, 0, 0, 0, 0, 0, 0,
         0, 0, 0, 0,
         0, 0, 0, 0, 16, 0, 0, 0, 0, 0, 0, 0, 0, 0, 0, 0, 0, 0, 0, 0, 0, 0, 0, 0,
         0, 0, 0, 0]
        [Error ''Failed to write method offsets'',
         Error ''Failed to write oat methods information'', Error ''Failed to write oat tables''],
      SeekCall 3947
        [Error ''Failed to seek to oat code section'', Error ''Failed to write oat code''],
      WriteCall [1, 2, 3, 4, 5, 6]
        [WriteFailure ''method code'' 0, Error ''Failed to write oat code for dex files''],
      WriteCall [32, 0, 0, 0]
        [WriteFailure ''method frame size'' 0, Error ''Failed to write oat code for dex files''],
      WriteCall [224, 77, 0, 0]
        [WriteFailure ''method core spill mask'' 0,
         Error ''Failed to write oat code for dex files''],
      WriteCall [0, 0, 0, 0]
        [WriteFailure ''method fp spill mask'' 0,
         Error ''Failed to write oat code for dex files''],
      WriteCall [9, 0, 0, 0]
        [WriteFailure ''mapping table'' 0, Error ''Failed to write oat code for dex files''],
      WriteCall [10, 0, 11, 0]
        [WriteFailure ''vmap table'' 0, Error ''Failed to write oat code for dex files''],
      SeekCall 6
        [Error ''Failed to seek to align invoke stub code'',
         Error ''Failed to write oat code for dex files''],
      WriteCall [7, 8]
        [WriteFailure ''invoke stub code'' 0, Error ''Failed to write oat code for dex files''],
      SeekCall 6
        [Error ''Failed to seek to align oat code'',
         Error ''Failed to write oat code for dex files''],
      WriteCall [32, 0, 0, 0]
        [WriteFailure ''method frame size'' 1, Error ''Failed to write oat code for dex files''],
      WriteCall [224, 77, 0, 0]
        [WriteFailure ''method core spill mask'' 1,
         Error ''Failed to write oat code for dex files''],
      WriteCall [0, 0, 0, 0]
        [WriteFailure ''method fp spill mask'' 1,
         Error ''Failed to write oat code for dex files''],
      SeekCall 4
        [Error ''Failed to seek to align oat code'',
         Error ''Failed to write oat code for dex files''],
      WriteCall [16, 0, 0, 0]
        [WriteFailure ''method frame size'' 2, Error ''Failed to write oat code for dex files''],
      WriteCall [0, 0, 0, 0]
        [WriteFailure ''method core spill mask'' 2,
         Error ''Failed to write oat code for dex files''],
      WriteCall [0, 0, 0, 0]
        [WriteFailure ''method fp spill mask'' 2,
         Error ''Failed to write oat code for dex files''],
      WriteCall [0, 0, 0, 0]
        [WriteFailure ''method frame size'' 3, Error ''Failed to write oat code for dex files''],
      WriteCall [0, 0, 0, 0]
        [WriteFailure ''method core spill mask'' 3,
         Error ''Failed to write oat code for dex files''],
      WriteCall [0, 0, 0, 0]
        [WriteFailure ''method fp spill mask'' 3,
         Error ''Failed to write oat code for dex files'']]"
  unfolding ex_layout_value snd_conv Write_calls_def ex_all_items
  by (simp add: WriteTables_calls_def OatDexFile_calls_def OatClasses_calls_def
      OatMethods_calls_def write_call_def method_calls_def code_calls_def frame_calls_def
      mapping_table_calls_def vmap_table_calls_def stub_calls_def then_calls_def align_calls_def
      dedup_calls_def Let_def ex_defs)


theorem write_failure_is_final_witness:
  "pow2_alignments ex_env \<and> thumb_deltas ex_env \<and>
   fst (OatWriter_new ex_env [ex_dex]) < 2 ^ 32 \<and>
   contents ex_failing_file = [] \<and> pos ex_failing_file = 0 \<and>
   io_results ex_failing_file =
     [True, True, True, True, True, True, True, True, True, True, True, True] @ False # [True] \<and>
   False \<notin> set [True, True, True, True, True, True, True, True, True, True, True, True] \<and>
   length [True, True, True, True, True, True, True, True, True, True, True, True]
     < length (Write_calls ex_env [ex_dex] (snd (OatWriter_new ex_env [ex_dex]))) \<and>
   Write_calls ex_env [ex_dex] (snd (OatWriter_new ex_env [ex_dex])) ! 12 =
     WriteCall [9, 0, 0, 0]
       [WriteFailure ''mapping table'' 0, Error ''Failed to write oat code for dex files''] \<and>
   (\<exists>g. Create ex_env [ex_dex] ex_failing_file = (False, g) \<and>
        io_results g = [True] \<and>
        padded g =
          [111, 97, 116, 10, 48, 48, 49, 0, 215, 7, 0, 0, 0, 16, 0, 0,
           1, 0, 0, 0, 97, 5, 0, 0, 0, 29, 0, 0, 0, 37, 0, 0, 0, 149, 0, 0, 0,
           1, 16, 0, 0, 32, 0, 0, 0, 224, 77, 0, 0, 0, 0, 0, 0, 18, 16, 0, 0, 22, 16, 0, 0,
           32, 16, 0, 0,
           1, 16, 0, 0, 32, 0, 0, 0, 224, 77, 0, 0, 0, 0, 0, 0, 18, 16, 0, 0, 22, 16, 0, 0,
           0, 0, 0, 0,
           0, 0, 0, 0, 16, 0, 0, 0, 0, 0, 0, 0, 0, 0, 0, 0, 0, 0, 0, 0, 0, 0, 0, 0,
           0, 0, 0, 0,
           0, 0, 0, 0, 16, 0, 0, 0, 0, 0, 0, 0, 0, 0, 0, 0, 0, 0, 0, 0, 0, 0, 0, 0,
           0, 0, 0, 0] @
          replicate 3947 0 @
          [1, 2, 3, 4, 5, 6, 32, 0, 0, 0, 224, 77, 0, 0, 0, 0, 0, 0] \<and>
        pos g = 4114 \<and>
        log g =
          log ex_failing_file @
          [WriteFailure ''mapping table'' 0, Error ''Failed to write oat code for dex files''] \<and>
        strict_prefix (log ex_failing_file) (log g))"
proof -
  let ?used = "[True, True, True, True, True, True, True, True, True, True, True, True]"
  let ?calls = "Write_calls ex_env [ex_dex] (snd (OatWriter_new ex_env [ex_dex]))"
  have 3: "fst (OatWriter_new ex_env [ex_dex]) < 2 ^ 32" by (simp add: ex_layout_value)
  have 4: "contents ex_failing_file = []" and 5: "pos ex_failing_file = 0"
    and 6: "io_results ex_failing_file = ?used @ False # [True]"
    by (simp_all add: ex_failing_file_def)
  have 7: "False \<notin> set ?used" by simp
  have 8: "length ?used < length ?calls" unfolding ex_calls by simp
  have n: "?calls ! 12 =
     WriteCall [9, 0, 0, 0]
       [WriteFailure ''mapping table'' 0, Error ''Failed to write oat code for dex files'']"
    unfolding ex_calls by simp
  have l: "length ?used = 12" by simp
  have t: "calls_image (take 12 ?calls) =
          [111, 97, 116, 10, 48, 48, 49, 0, 215, 7, 0, 0, 0, 16, 0, 0,
           1, 0, 0, 0, 97, 5, 0, 0, 0, 29, 0, 0, 0, 37, 0, 0, 0, 149, 0, 0, 0,
           1, 16, 0, 0, 32, 0, 0, 0, 224, 77, 0, 0, 0, 0, 0, 0, 18, 16, 0, 0, 22, 16, 0, 0,
           32, 16, 0, 0,
           1, 16, 0, 0, 32, 0, 0, 0, 224, 77, 0, 0, 0, 0, 0, 0, 18, 16, 0, 0, 22, 16, 0, 0,
           0, 0, 0, 0,
           0, 0, 0, 0, 16, 0, 0, 0, 0, 0, 0, 0, 0, 0, 0, 0, 0, 0, 0, 0, 0, 0, 0, 0,
           0, 0, 0, 0,
           0, 0, 0, 0, 16, 0, 0, 0, 0, 0, 0, 0, 0, 0, 0, 0, 0, 0, 0, 0, 0, 0, 0, 0,
           0, 0, 0, 0] @
          replicate 3947 0 @
          [1, 2, 3, 4, 5, 6, 32, 0, 0, 0, 224, 77, 0, 0, 0, 0, 0, 0]"
    unfolding ex_calls by simp
  note c = write_failure_is_final [OF pow2_alignments_ex_env thumb_deltas_ex_env 3 4 5 refl 6 7 8,
      unfolded l n t call_log.simps]
  obtain g where g: "Create ex_env [ex_dex] ex_failing_file = (False, g) \<and>
      io_results g = [True] \<and>
      padded g =
          [111, 97, 116, 10, 48, 48, 49, 0, 215, 7, 0, 0, 0, 16, 0, 0,
           1, 0, 0, 0, 97, 5, 0, 0, 0, 29, 0, 0, 0, 37, 0, 0, 0, 149, 0, 0, 0,
           1, 16, 0, 0, 32, 0, 0, 0, 224, 77, 0, 0, 0, 0, 0, 0, 18, 16, 0, 0, 22, 16, 0, 0,
           32, 16, 0, 0,
           1, 16, 0, 0, 32, 0, 0, 0, 224, 77, 0, 0, 0, 0, 0, 0, 18, 16, 0, 0, 22, 16, 0, 0,
           0, 0, 0, 0,
           0, 0, 0, 0, 16, 0, 0, 0, 0, 0, 0, 0, 0, 0, 0, 0, 0, 0, 0, 0, 0, 0, 0, 0,
           0, 0, 0, 0,
           0, 0, 0, 0, 16, 0, 0, 0, 0, 0, 0, 0, 0, 0, 0, 0, 0, 0, 0, 0, 0, 0, 0, 0,
           0, 0, 0, 0] @
          replicate 3947 0 @
          [1, 2, 3, 4, 5, 6, 32, 0, 0, 0, 224, 77, 0, 0, 0, 0, 0, 0] \<and>
      pos g = length
         ([111, 97, 116, 10, 48, 48, 49, 0, 215, 7, 0, 0, 0, 16, 0, 0,
           1, 0, 0, 0, 97, 5, 0, 0, 0, 29, 0, 0, 0, 37, 0, 0, 0, 149, 0, 0, 0,
           1, 16, 0, 0, 32, 0, 0, 0, 224, 77, 0, 0, 0, 0, 0, 0, 18, 16, 0, 0, 22, 16, 0, 0,
           32, 16, 0, 0,
           1, 16, 0, 0, 32, 0, 0, 0, 224, 77, 0, 0, 0, 0, 0, 0, 18, 16, 0, 0, 22, 16, 0, 0,
           0, 0, 0, 0,
           0, 0, 0, 0, 16, 0, 0, 0, 0, 0, 0, 0, 0, 0, 0, 0, 0, 0, 0, 0, 0, 0, 0, 0,
           0, 0, 0, 0,
           0, 0, 0, 0, 16, 0, 0, 0, 0, 0, 0, 0, 0, 0, 0, 0, 0, 0, 0, 0, 0, 0, 0, 0,
           0, 0, 0, 0] @
          replicate 3947 (0 :: byte) @
          [1, 2, 3, 4, 5, 6, 32, 0, 0, 0, 224, 77, 0, 0, 0, 0, 0, 0]) \<and>
      log g = log ex_failing_file @
          [WriteFailure ''mapping table'' 0, Error ''Failed to write oat code for dex files''] \<and>
      strict_prefix (log ex_failing_file) (log g) \<and>
      calls_image ?calls = file_image ex_env [ex_dex]"
    using c ..
  have p: "pos g = 4114" using g by simp
  have e: "\<exists>g. Create ex_env [ex_dex] ex_failing_file = (False, g) \<and>
        io_results g = [True] \<and>
        padded g =
          [111, 97, 116, 10, 48, 48, 49, 0, 215, 7, 0, 0, 0, 16, 0, 0,
           1, 0, 0, 0, 97, 5, 0, 0, 0, 29, 0, 0, 0, 37, 0, 0, 0, 149, 0, 0, 0,
           1, 16, 0, 0, 32, 0, 0, 0, 224, 77, 0, 0, 0, 0, 0, 0, 18, 16, 0, 0, 22, 16, 0, 0,
           32, 16, 0, 0,
           1, 16, 0, 0, 32, 0, 0, 0, 224, 77, 0, 0, 0, 0, 0, 0, 18, 16, 0, 0, 22, 16, 0, 0,
           0, 0, 0, 0,
           0, 0, 0, 0, 16, 0, 0, 0, 0, 0, 0, 0, 0, 0, 0, 0, 0, 0, 0, 0, 0, 0, 0, 0,
           0, 0, 0, 0,
           0, 0, 0, 0, 16, 0, 0, 0, 0, 0, 0, 0, 0, 0, 0, 0, 0, 0, 0, 0, 0, 0, 0, 0,
           0, 0, 0, 0] @
          replicate 3947 0 @
          [1, 2, 3, 4, 5, 6, 32, 0, 0, 0, 224, 77, 0, 0, 0, 0, 0, 0] \<and>
        pos g = 4114 \<and>
        log g =
          log ex_failing_file @
          [WriteFailure ''mapping table'' 0, Error ''Failed to write oat code for dex files''] \<and>
        strict_prefix (log ex_failing_file) (log g)"
    by (intro exI [of _ g] conjI p;
        (rule g [THEN conjunct1] g [THEN conjunct2, THEN conjunct1]
           g [THEN conjunct2, THEN conjunct2, THEN conjunct1]
           g [THEN conjunct2, THEN conjunct2, THEN conjunct2, THEN conjunct2, THEN conjunct1]
           g [THEN conjunct2, THEN conjunct2, THEN conjunct2, THEN conjunct2, THEN conjunct2,
              THEN conjunct1]))
  show ?thesis
    by (intro conjI pow2_alignments_ex_env thumb_deltas_ex_env 3 4 5 6 7 8 n e)
qed

subsection \<open>The file does not depend on the addresses of the vectors\<close>

lemma same_writer_refl_empty:
  assumes "code_offsets' w = Map.empty" and "mapping_table_offsets' w = Map.empty"
    and "vmap_table_offsets' w = Map.empty"
  shows "same_writer \<rho> w w"
  using assms by (simp add: same_writer_def)

lemma InitOatClasses_same:
  assumes "checksum_step env2 = checksum_step env1"
  shows "InitOatClasses env2 ds i offset w = InitOatClasses env1 ds i offset w"
proof (induction ds arbitrary: i offset w)
  case Nil show ?case by simp
next
  case (Cons d ds)
  show ?case
    by (simp add: Let_def Cons.IH OatDexFile_UpdateChecksum_def UpdateChecksum_def assms)
qed

lemma InitOatMethods_same:
  assumes "checksum_step env2 = checksum_step env1"
  shows "InitOatMethods env2 ds i offset w = InitOatMethods env1 ds i offset w"
proof (induction ds arbitrary: i offset w)
  case Nil show ?case by simp
next
  case (Cons d ds)
  show ?case
    by (simp add: Cons.IH UpdateChecksum_def assms split: prod.splits)
qed

lemma code_start_same:
  assumes "same_responses \<rho> env1 env2"
  shows "code_start env2 ds = code_start env1 ds"
proof -
  have c: "checksum_step env2 = checksum_step env1" and h: "new_OatHeader env2 = new_OatHeader env1"
    and p: "kPageSize env2 = kPageSize env1"
    using assms by (simp_all add: same_responses_def)
  show ?thesis
    by (simp add: code_start_def InitOatTables_def InitOatHeader_def InitOatCode_def h p
        InitOatClasses_same [OF c] InitOatMethods_same [OF c])
qed

text \<open>The blocks of the layout of a method.\<close>

lemma code_same:
  assumes r: "same_responses \<rho> env1 env2" and w: "same_writer \<rho> w1 w2"
  shows "fst (InitOatCodeMethod_code env2 (rename_method \<rho> cm) offset w2)
           = fst (InitOatCodeMethod_code env1 cm offset w1) \<and>
         fst (snd (InitOatCodeMethod_code env2 (rename_method \<rho> cm) offset w2))
           = fst (snd (InitOatCodeMethod_code env1 cm offset w1)) \<and>
         same_writer \<rho> (snd (snd (InitOatCodeMethod_code env1 cm offset w1)))
           (snd (snd (InitOatCodeMethod_code env2 (rename_method \<rho> cm) offset w2)))"
proof -
  have i: "\<rho> a = \<rho> b \<longleftrightarrow> a = b" for a b using r by (simp add: same_responses_def inj_eq)
  have b: "bytes_at env2 (\<rho> a) = bytes_at env1 a" for a using r by (simp add: same_responses_def)
  have c: "checksum_step env2 = checksum_step env1" using r by (simp add: same_responses_def)
  have l: "code_offsets' w2 (\<rho> a) = code_offsets' w1 a" for a using w by (simp add: same_writer_def)
  show ?thesis
    using w
    by (cases "code_offsets' w1 (GetCode cm)")
       (simp_all add: InitOatCodeMethod_code_def Let_def rename_method_def AlignCode_def b l i c
          same_writer_def UpdateChecksum_def)
qed


lemma frame_same:
  assumes r: "same_responses \<rho> env1 env2" and w: "same_writer \<rho> w1 w2"
  shows "fst (InitOatCodeMethod_frame env2 a b c offset w2)
           = fst (InitOatCodeMethod_frame env1 a b c offset w1) \<and>
         same_writer \<rho> (snd (InitOatCodeMethod_frame env1 a b c offset w1))
           (snd (InitOatCodeMethod_frame env2 a b c offset w2))"
proof -
  have c: "checksum_step env2 = checksum_step env1" using r by (simp add: same_responses_def)
  show ?thesis
    using w by (simp add: InitOatCodeMethod_frame_def same_writer_def UpdateChecksum_def c)
qed

lemma mapping_table_same:
  assumes r: "same_responses \<rho> env1 env2" and w: "same_writer \<rho> w1 w2"
  shows "fst (InitOatCodeMethod_mapping_table env2 (rename_method \<rho> cm) offset w2)
           = fst (InitOatCodeMethod_mapping_table env1 cm offset w1) \<and>
         fst (snd (InitOatCodeMethod_mapping_table env2 (rename_method \<rho> cm) offset w2))
           = fst (snd (InitOatCodeMethod_mapping_table env1 cm offset w1)) \<and>
         same_writer \<rho> (snd (snd (InitOatCodeMethod_mapping_table env1 cm offset w1)))
           (snd (snd (InitOatCodeMethod_mapping_table env2 (rename_method \<rho> cm) offset w2)))"
proof -
  have i: "\<rho> a = \<rho> b \<longleftrightarrow> a = b" for a b using r by (simp add: same_responses_def inj_eq)
  have b: "words_at env2 (\<rho> a) = words_at env1 a" for a using r by (simp add: same_responses_def)
  have c: "checksum_step env2 = checksum_step env1" using r by (simp add: same_responses_def)
  have l: "mapping_table_offsets' w2 (\<rho> a) = mapping_table_offsets' w1 a" for a
    using w by (simp add: same_writer_def)
  show ?thesis
    using w
    by (cases "mapping_table_offsets' w1 (GetMappingTable cm)")
       (simp_all add: InitOatCodeMethod_mapping_table_def Let_def rename_method_def b l i c
          same_writer_def UpdateChecksum_def mapping_table_bytes_def)
qed

lemma vmap_table_same:
  assumes r: "same_responses \<rho> env1 env2" and w: "same_writer \<rho> w1 w2"
  shows "fst (InitOatCodeMethod_vmap_table env2 (rename_method \<rho> cm) offset w2)
           = fst (InitOatCodeMethod_vmap_table env1 cm offset w1) \<and>
         fst (snd (InitOatCodeMethod_vmap_table env2 (rename_method \<rho> cm) offset w2))
           = fst (snd (InitOatCodeMethod_vmap_table env1 cm offset w1)) \<and>
         same_writer \<rho> (snd (snd (InitOatCodeMethod_vmap_table env1 cm offset w1)))
           (snd (snd (InitOatCodeMethod_vmap_table env2 (rename_method \<rho> cm) offset w2)))"
proof -
  have i: "\<rho> a = \<rho> b \<longleftrightarrow> a = b" for a b using r by (simp add: same_responses_def inj_eq)
  have b: "halfs_at env2 (\<rho> a) = halfs_at env1 a" for a using r by (simp add: same_responses_def)
  have c: "checksum_step env2 = checksum_step env1" using r by (simp add: same_responses_def)
  have l: "vmap_table_offsets' w2 (\<rho> a) = vmap_table_offsets' w1 a" for a
    using w by (simp add: same_writer_def)
  show ?thesis
    using w
    by (cases "vmap_table_offsets' w1 (GetVmapTable cm)")
       (simp_all add: InitOatCodeMethod_vmap_table_def Let_def rename_method_def b l i c
          same_writer_def UpdateChecksum_def vmap_table_bytes_def)
qed

lemma stub_same:
  assumes r: "same_responses \<rho> env1 env2" and w: "same_writer \<rho> w1 w2"
  shows "fst (InitOatCodeMethod_stub env2 is_static idx d offset w2)
           = fst (InitOatCodeMethod_stub env1 is_static idx d offset w1) \<and>
         fst (snd (InitOatCodeMethod_stub env2 is_static idx d offset w2))
           = fst (snd (InitOatCodeMethod_stub env1 is_static idx d offset w1)) \<and>
         same_writer \<rho> (snd (snd (InitOatCodeMethod_stub env1 is_static idx d offset w1)))
           (snd (snd (InitOatCodeMethod_stub env2 is_static idx d offset w2)))"
proof -
  have i: "\<rho> a = \<rho> b \<longleftrightarrow> a = b" for a b using r by (simp add: same_responses_def inj_eq)
  have b: "bytes_at env2 (\<rho> a) = bytes_at env1 a" for a using r by (simp add: same_responses_def)
  have c: "checksum_step env2 = checksum_step env1" using r by (simp add: same_responses_def)
  have al: "arch_alignment env2 = arch_alignment env1" using r by (simp add: same_responses_def)
  have f: "FindInvokeStub env2 is_static (GetMethodShorty d idx)
             = map_option \<rho> (FindInvokeStub env1 is_static (GetMethodShorty d idx))"
    using r by (simp add: same_responses_def)
  have l: "code_offsets' w2 (\<rho> a) = code_offsets' w1 a" for a using w by (simp add: same_writer_def)
  show ?thesis
  proof (cases "FindInvokeStub env1 is_static (GetMethodShorty d idx)")
    case None
    then show ?thesis using w f by (simp add: InitOatCodeMethod_stub_def)
  next
    case (Some stub)
    show ?thesis
      using w
      by (cases "code_offsets' w1 stub")
         (simp_all add: InitOatCodeMethod_stub_def Some f InitOatCodeMethod_invoke_stub_def
            Let_def b l i c al same_writer_def UpdateChecksum_def)
  qed
qed

lemma offsets_same:
  assumes r: "same_responses \<rho> env1 env2" and w: "same_writer \<rho> w1 w2"
  shows "fst (InitOatCodeMethod_offsets env2 offset w2 is_static idx d)
           = fst (InitOatCodeMethod_offsets env1 offset w1 is_static idx d) \<and>
         fst (snd (InitOatCodeMethod_offsets env2 offset w2 is_static idx d))
           = fst (snd (InitOatCodeMethod_offsets env1 offset w1 is_static idx d)) \<and>
         same_writer \<rho> (snd (snd (InitOatCodeMethod_offsets env1 offset w1 is_static idx d)))
           (snd (snd (InitOatCodeMethod_offsets env2 offset w2 is_static idx d)))"
proof -
  have g: "GetCompiledMethod env2 d idx = map_option (rename_method \<rho>) (GetCompiledMethod env1 d idx)"
    and k: "kStackAlignment env2 = kStackAlignment env1"
    using r by (simp_all add: same_responses_def)
  show ?thesis
  proof (cases "GetCompiledMethod env1 d idx")
    case None
    obtain o2 u1 where f1: "InitOatCodeMethod_frame env1 (kStackAlignment env1) 0 0 offset w1 = (o2, u1)"
      by (cases "InitOatCodeMethod_frame env1 (kStackAlignment env1) 0 0 offset w1")
    obtain o2' u2 where f2: "InitOatCodeMethod_frame env2 (kStackAlignment env1) 0 0 offset w2 = (o2', u2)"
      by (cases "InitOatCodeMethod_frame env2 (kStackAlignment env1) 0 0 offset w2")
    have e: "o2' = o2" "same_writer \<rho> u1 u2"
      using frame_same [OF r w, of "kStackAlignment env1" 0 0 offset] f1 f2 by simp_all
    note st = stub_same [OF r e(2), of is_static idx d o2]
    show ?thesis
      using st
      by (auto simp: InitOatCodeMethod_offsets_def Let_def g None k f1 f2 e(1) split: prod.splits)
  next
    case (Some cm)
    let ?cm2 = "rename_method \<rho> cm"
    have fields: "GetFrameSizeInBytes ?cm2 = GetFrameSizeInBytes cm"
      "GetCoreSpillMask ?cm2 = GetCoreSpillMask cm" "GetFpSpillMask ?cm2 = GetFpSpillMask cm"
      by (simp_all add: rename_method_def)
    obtain c1 o1 u1 where a1: "InitOatCodeMethod_code env1 cm offset w1 = (c1, o1, u1)"
      by (cases "InitOatCodeMethod_code env1 cm offset w1") auto
    obtain c1' o1' u1' where a2: "InitOatCodeMethod_code env2 ?cm2 offset w2 = (c1', o1', u1')"
      by (cases "InitOatCodeMethod_code env2 ?cm2 offset w2") auto
    have ea: "c1' = c1" "o1' = o1" "same_writer \<rho> u1 u1'"
      using code_same [OF r w, of cm offset] a1 a2 by simp_all
    let ?fs = "GetFrameSizeInBytes cm" and ?cs = "GetCoreSpillMask cm" and ?fp = "GetFpSpillMask cm"
    obtain o2 u2 where b1: "InitOatCodeMethod_frame env1 ?fs ?cs ?fp o1 u1 = (o2, u2)"
      by (cases "InitOatCodeMethod_frame env1 ?fs ?cs ?fp o1 u1")
    obtain o2' u2' where b2: "InitOatCodeMethod_frame env2 ?fs ?cs ?fp o1 u1' = (o2', u2')"
      by (cases "InitOatCodeMethod_frame env2 ?fs ?cs ?fp o1 u1'")
    have eb: "o2' = o2" "same_writer \<rho> u2 u2'"
      using frame_same [OF r ea(3), of ?fs ?cs ?fp o1] b1 b2 by simp_all
    obtain c3 o3 u3 where m1: "InitOatCodeMethod_mapping_table env1 cm o2 u2 = (c3, o3, u3)"
      by (cases "InitOatCodeMethod_mapping_table env1 cm o2 u2") auto
    obtain c3' o3' u3' where m2: "InitOatCodeMethod_mapping_table env2 ?cm2 o2 u2' = (c3', o3', u3')"
      by (cases "InitOatCodeMethod_mapping_table env2 ?cm2 o2 u2'") auto
    have em: "c3' = c3" "o3' = o3" "same_writer \<rho> u3 u3'"
      using mapping_table_same [OF r eb(2), of cm o2] m1 m2 by simp_all
    obtain c4 o4 u4 where v1: "InitOatCodeMethod_vmap_table env1 cm o3 u3 = (c4, o4, u4)"
      by (cases "InitOatCodeMethod_vmap_table env1 cm o3 u3") auto
    obtain c4' o4' u4' where v2: "InitOatCodeMethod_vmap_table env2 ?cm2 o3 u3' = (c4', o4', u4')"
      by (cases "InitOatCodeMethod_vmap_table env2 ?cm2 o3 u3'") auto
    have ev: "c4' = c4" "o4' = o4" "same_writer \<rho> u4 u4'"
      using vmap_table_same [OF r em(3), of cm o3] v1 v2 by simp_all
    note st = stub_same [OF r ev(3), of is_static idx d o4]
    show ?thesis
      using st
      by (auto simp: InitOatCodeMethod_offsets_def Let_def g Some fields a1 a2 ea(1,2) b1 b2 eb(1)
          m1 m2 em(1,2) v1 v2 ev(1,2) split: prod.splits)
  qed
qed

lemma layout_step_same:
  assumes r: "same_responses \<rho> env1 env2" and w: "same_writer \<rho> (snd s1) (snd s2)"
    and c: "fst s2 = fst s1"
  shows "fst (layout_step env2 s2 x) = fst (layout_step env1 s1 x) \<and>
         same_writer \<rho> (snd (layout_step env1 s1 x)) (snd (layout_step env2 s2 x))"
proof (cases x)
  case (ClassEnd oci)
  have cs: "checksum_step env2 = checksum_step env1" using r by (simp add: same_responses_def)
  show ?thesis
    using w c by (cases s1; cases s2) (simp add: ClassEnd same_writer_def UpdateChecksum_def cs)
next
  case (Method oci cdmi is_static is_direct idx d)
  obtain offset w1 where s1: "s1 = (offset, w1)" by (cases s1)
  obtain w2 where s2: "s2 = (offset, w2)" using c s1 by (cases s2) simp
  have w': "same_writer \<rho> w1 w2" using w s1 s2 by simp
  obtain mo o1 u1 where l1: "InitOatCodeMethod_offsets env1 offset w1 is_static idx d = (mo, o1, u1)"
    by (cases "InitOatCodeMethod_offsets env1 offset w1 is_static idx d") auto
  obtain mo' o1' u2 where l2: "InitOatCodeMethod_offsets env2 offset w2 is_static idx d = (mo', o1', u2)"
    by (cases "InitOatCodeMethod_offsets env2 offset w2 is_static idx d") auto
  have e: "mo' = mo" "o1' = o1" "same_writer \<rho> u1 u2"
    using offsets_same [OF r w', of offset is_static idx d] l1 l2 by simp_all
  show ?thesis
    using e by (simp add: Method s1 s2 InitOatCodeMethod_def l1 l2 same_writer_def)
qed

lemma layout_run_same:
  assumes r: "same_responses \<rho> env1 env2"
  shows "same_writer \<rho> (snd s1) (snd s2) \<Longrightarrow> fst s2 = fst s1 \<Longrightarrow>
         fst (layout_run env2 s2 items) = fst (layout_run env1 s1 items) \<and>
         same_writer \<rho> (snd (layout_run env1 s1 items)) (snd (layout_run env2 s2 items))"
proof (induction items arbitrary: s1 s2)
  case Nil
  then show ?case by simp
next
  case (Cons x xs)
  note st = layout_step_same [OF r Cons.prems, of x]
  show ?case using Cons.IH [OF st [THEN conjunct2] st [THEN conjunct1]] by simp
qed

lemma OatWriter_new_same:
  assumes r: "same_responses \<rho> env1 env2"
  shows "fst (OatWriter_new env2 ds) = fst (OatWriter_new env1 ds) \<and>
         same_writer \<rho> (snd (OatWriter_new env1 ds)) (snd (OatWriter_new env2 ds))"
proof -
  have s: "same_writer \<rho> (snd (code_start env1 ds)) (snd (code_start env1 ds))"
    by (rule same_writer_refl_empty) (rule code_start_maps)+
  show ?thesis
    unfolding OatWriter_new_run code_start_same [OF r]
    by (rule layout_run_same [OF r s refl])
qed


text \<open>The calls of the emit pass.\<close>

lemma method_calls_same:
  assumes r: "same_responses \<rho> env1 env2" and w: "same_writer \<rho> w1 w2"
  shows "method_calls env2 w2 c oci cdmi is_static idx d
           = method_calls env1 w1 c oci cdmi is_static idx d"
proof -
  have g: "GetCompiledMethod env2 d idx = map_option (rename_method \<rho>) (GetCompiledMethod env1 d idx)"
    and f: "FindInvokeStub env2 is_static (GetMethodShorty d idx)
             = map_option \<rho> (FindInvokeStub env1 is_static (GetMethodShorty d idx))"
    and al: "arch_alignment env2 = arch_alignment env1"
    and b: "\<And>a. bytes_at env2 (\<rho> a) = bytes_at env1 a"
    and wd: "\<And>a. words_at env2 (\<rho> a) = words_at env1 a"
    and hf: "\<And>a. halfs_at env2 (\<rho> a) = halfs_at env1 a"
    using r by (simp_all add: same_responses_def)
  have m: "oat_methods' w2 = oat_methods' w1"
    and l: "\<And>a. code_offsets' w2 (\<rho> a) = code_offsets' w1 a"
    "\<And>a. mapping_table_offsets' w2 (\<rho> a) = mapping_table_offsets' w1 a"
    "\<And>a. vmap_table_offsets' w2 (\<rho> a) = vmap_table_offsets' w1 a"
    using w by (simp_all add: same_writer_def)
  have st0: "stub_calls env2 w2 is_static idx d mo c' = stub_calls env1 w1 is_static idx d mo c'"
    for mo c'
    by (cases "FindInvokeStub env1 is_static (GetMethodShorty d idx)")
       (simp_all add: stub_calls_def f al b l)
  have st: "stub_calls env2 w2 is_static idx d mo = stub_calls env1 w1 is_static idx d mo" for mo
    by (rule ext) (rule st0)
  show ?thesis
  proof (cases "GetCompiledMethod env1 d idx")
    case None
    then show ?thesis by (simp add: method_calls_def g m st)
  next
    case (Some cm)
    have 1: "code_calls env2 w2 (rename_method \<rho> cm) mo idx c' = code_calls env1 w1 cm mo idx c'"
      for mo c'
      by (simp add: code_calls_def rename_method_def b l)
    have 2: "mapping_table_calls env2 w2 (rename_method \<rho> cm) mo idx c'
               = mapping_table_calls env1 w1 cm mo idx c'" for mo c'
      by (simp add: mapping_table_calls_def mapping_table_bytes_def rename_method_def wd l)
    have 3: "vmap_table_calls env2 w2 (rename_method \<rho> cm) mo idx c'
               = vmap_table_calls env1 w1 cm mo idx c'" for mo c'
      by (simp add: vmap_table_calls_def vmap_table_bytes_def rename_method_def hf l)
    have 4: "GetFrameSizeInBytes (rename_method \<rho> cm) = GetFrameSizeInBytes cm"
      "GetCoreSpillMask (rename_method \<rho> cm) = GetCoreSpillMask cm"
      "GetFpSpillMask (rename_method \<rho> cm) = GetFpSpillMask cm"
      by (simp_all add: rename_method_def)
    show ?thesis by (simp add: method_calls_def g Some m st 1 2 3 4)
  qed
qed

lemma items_calls_same:
  assumes r: "same_responses \<rho> env1 env2" and w: "same_writer \<rho> w1 w2"
  shows "items_calls env2 w2 c items = items_calls env1 w1 c items"
proof (induction items arbitrary: c)
  case Nil show ?case by simp
next
  case (Cons x xs)
  show ?case
    by (cases x) (simp_all add: method_calls_same [OF r w] Cons.IH split: prod.splits)
qed

lemma Write_calls_same:
  assumes r: "same_responses \<rho> env1 env2" and w: "same_writer \<rho> w1 w2"
  shows "Write_calls env2 ds w2 = Write_calls env1 ds w1"
  using w
  by (simp add: Write_calls_def WriteTables_calls_def items_calls_same [OF r w] same_writer_def)

lemma pow2_alignments_same:
  assumes r: "same_responses \<rho> env1 env2" and p: "pow2_alignments env1"
  shows "pow2_alignments env2"
proof -
  have g: "\<And>d idx. GetCompiledMethod env2 d idx
              = map_option (rename_method \<rho>) (GetCompiledMethod env1 d idx)"
    and al: "arch_alignment env2 = arch_alignment env1" and pg: "kPageSize env2 = kPageSize env1"
    using r by (simp_all add: same_responses_def)
  have 1: "\<exists>k. code_alignment cm2 = 2 ^ k" if "GetCompiledMethod env2 d idx = Some cm2" for d idx cm2
  proof -
    have "\<exists>cm. GetCompiledMethod env1 d idx = Some cm \<and> cm2 = rename_method \<rho> cm"
      using that g [of d idx] by (cases "GetCompiledMethod env1 d idx") auto
    then obtain cm where cm: "GetCompiledMethod env1 d idx = Some cm" "cm2 = rename_method \<rho> cm"
      by blast
    show ?thesis
      using pow2_code_alignment [OF p cm(1)] cm(2) by (simp add: rename_method_def)
  qed
  show ?thesis
    using p 1 unfolding pow2_alignments_def al pg by blast
qed

text \<open>The calls on two files with the same contents, position and outcomes of the calls.\<close>

lemma run_calls_same:
  "contents f2 = contents f1 \<Longrightarrow> pos f2 = pos f1 \<Longrightarrow> io_results f2 = io_results f1 \<Longrightarrow>
   fst (run_calls cs f2) = fst (run_calls cs f1) \<and>
   contents (snd (run_calls cs f2)) = contents (snd (run_calls cs f1)) \<and>
   pos (snd (run_calls cs f2)) = pos (snd (run_calls cs f1)) \<and>
   io_results (snd (run_calls cs f2)) = io_results (snd (run_calls cs f1)) \<and>
   (\<exists>ds. log (snd (run_calls cs f1)) = log f1 @ ds \<and> log (snd (run_calls cs f2)) = log f2 @ ds)"
proof (induction cs arbitrary: f1 f2)
  case Nil
  then show ?case by simp
next
  case (Cons c cs)
  obtain ok1 g1 where p1: "perform c f1 = (ok1, g1)" by (cases "perform c f1")
  obtain ok2 g2 where p2: "perform c f2 = (ok2, g2)" by (cases "perform c f2")
  have e: "ok2 = ok1 \<and> contents g2 = contents g1 \<and> pos g2 = pos g1 \<and>
           io_results g2 = io_results g1 \<and> log g1 = log f1 \<and> log g2 = log f2"
    using p1 p2 Cons.prems
    by (cases c) (auto simp: WriteFully_def lseek_cur_def next_call_fails_def split: if_splits)
  show ?case
  proof (cases ok1)
    case False
    then show ?thesis using e p1 p2 by simp
  next
    case True
    have 1: "contents g2 = contents g1" "pos g2 = pos g1" "io_results g2 = io_results g1"
      using e by simp_all
    show ?thesis using Cons.IH [OF 1] e p1 p2 True by simp
  qed
qed

text \<open>
  Claim C7. Two runs of the writer on the same dex files, with the same responses of the
  compiler (the vectors of the second run may lie at other addresses, given by \<open>\<rho>\<close>), on
  files that start with the same contents at position 0 and whose system calls have the
  same outcomes: the two runs lay out the same cursor, give the same result, leave the same
  bytes in the file at the same position, and add the same lines to the log. Where the
  alignments are powers of two and the layout fits 32 bits.
\<close>

theorem write_deterministic:
  assumes r: "same_responses \<rho> env1 env2" and pow2: "pow2_alignments env1"
    and fits: "fst (OatWriter_new env1 dex_files) < 2 ^ 32"
    and c: "contents f2 = contents f1" and p: "pos f1 = 0" "pos f2 = 0"
    and io: "io_results f2 = io_results f1"
  shows "fst (OatWriter_new env2 dex_files) = fst (OatWriter_new env1 dex_files) \<and>
         fst (Create env2 dex_files f2) = fst (Create env1 dex_files f1) \<and>
         contents (snd (Create env2 dex_files f2)) = contents (snd (Create env1 dex_files f1)) \<and>
         pos (snd (Create env2 dex_files f2)) = pos (snd (Create env1 dex_files f1)) \<and>
         (\<exists>ds. log (snd (Create env1 dex_files f1)) = log f1 @ ds \<and>
               log (snd (Create env2 dex_files f2)) = log f2 @ ds)"
proof -
  note n = OatWriter_new_same [OF r, of dex_files]
  have fits2: "fst (OatWriter_new env2 dex_files) < 2 ^ 32" using n fits by simp
  have pow22: "pow2_alignments env2" by (rule pow2_alignments_same [OF r pow2])
  have calls: "Write_calls env2 dex_files (snd (OatWriter_new env2 dex_files))
                 = Write_calls env1 dex_files (snd (OatWriter_new env1 dex_files))"
    by (rule Write_calls_same [OF r n [THEN conjunct2]])
  have c1: "Create env1 dex_files f1
              = run_calls (Write_calls env1 dex_files (snd (OatWriter_new env1 dex_files))) f1"
    by (rule Create_calls [OF pow2 fits p(1)])
  have c2: "Create env2 dex_files f2
              = run_calls (Write_calls env1 dex_files (snd (OatWriter_new env1 dex_files))) f2"
    using Create_calls [OF pow22 fits2 p(2)] calls by simp
  have pp: "pos f2 = pos f1" using p by simp
  note s = run_calls_same [OF c pp io,
      of "Write_calls env1 dex_files (snd (OatWriter_new env1 dex_files))"]
  show ?thesis
    unfolding c1 c2 using n s by blast
qed


lemma same_responses_ex: "same_responses (\<lambda>a. a + 1000) ex_env ex_moved_env"
  by (simp add: same_responses_def ex_moved_env_def inj_def)

theorem write_deterministic_witness:
  "same_responses (\<lambda>a. a + 1000) ex_env ex_moved_env \<and> pow2_alignments ex_env \<and>
   fst (OatWriter_new ex_env [ex_dex]) < 2 ^ 32 \<and>
   contents ex_used_file = contents ex_file \<and> pos ex_file = 0 \<and> pos ex_used_file = 0 \<and>
   io_results ex_used_file = io_results ex_file \<and>
   GetCompiledMethod ex_env ex_dex 0 = Some ex_method \<and>
   GetCompiledMethod ex_moved_env ex_dex 0 = Some (ex_method\<lparr>GetCode := 1100, GetMappingTable := 1200, GetVmapTable := 1300\<rparr>) \<and>
   log ex_used_file \<noteq> log ex_file \<and>
   fst (OatWriter_new ex_moved_env [ex_dex]) = 4176 \<and>
   fst (Create ex_moved_env [ex_dex] ex_used_file) = fst (Create ex_env [ex_dex] ex_file) \<and>
   contents (snd (Create ex_moved_env [ex_dex] ex_used_file))
     = contents (snd (Create ex_env [ex_dex] ex_file)) \<and>
   pos (snd (Create ex_moved_env [ex_dex] ex_used_file))
     = pos (snd (Create ex_env [ex_dex] ex_file)) \<and>
   (\<exists>ds. log (snd (Create ex_env [ex_dex] ex_file)) = log ex_file @ ds \<and>
         log (snd (Create ex_moved_env [ex_dex] ex_used_file)) = log ex_used_file @ ds)"
proof -
  have 3: "fst (OatWriter_new ex_env [ex_dex]) < 2 ^ 32"
    and v: "fst (OatWriter_new ex_env [ex_dex]) = 4176"
    by (simp_all add: ex_layout_value)
  have 4: "contents ex_used_file = contents ex_file" and 5: "pos ex_file = 0"
    and 6: "pos ex_used_file = 0" and 7: "io_results ex_used_file = io_results ex_file"
    and 8: "log ex_used_file \<noteq> log ex_file"
    by (simp_all add: ex_file_def ex_used_file_def)
  have 9: "GetCompiledMethod ex_env ex_dex 0 = Some ex_method"
    and 10: "GetCompiledMethod ex_moved_env ex_dex 0
               = Some (ex_method\<lparr>GetCode := 1100, GetMappingTable := 1200, GetVmapTable := 1300\<rparr>)"
    by (simp_all add: ex_moved_env_def ex_env_def rename_method_def ex_method_def)
  note c = write_deterministic [OF same_responses_ex pow2_alignments_ex_env 3 4 5 6 7]
  have c1: "fst (OatWriter_new ex_moved_env [ex_dex]) = 4176"
    using c [THEN conjunct1] v by simp
  show ?thesis
    by (intro conjI same_responses_ex pow2_alignments_ex_env 3 4 5 6 7 8 9 10 c1
        c [THEN conjunct2, THEN conjunct1] c [THEN conjunct2, THEN conjunct2, THEN conjunct1]
        c [THEN conjunct2, THEN conjunct2, THEN conjunct2, THEN conjunct1]
        c [THEN conjunct2, THEN conjunct2, THEN conjunct2, THEN conjunct2])
qed

subsection \<open>The checksum of the tables\<close>















subsection \<open>The checksum of a method\<close>


lemma UpdateChecksum_Nil [simp]: "UpdateChecksum env [] h = h"
  by (simp add: UpdateChecksum_def)











subsection \<open>The checksum of the walk\<close>





lemma class_items_closed [simp]:
  "closed (class_items d oci ms k)" "item_ends (class_items d oci ms k) = []"
proof -
  show "closed (class_items d oci ms k)"
    by (induction ms arbitrary: k) auto
  show "item_ends (class_items d oci ms k) = []"
    by (induction ms arbitrary: k) auto
qed








end
